(* ===== verification/NW_Prelude.thy ===== *)
theory NW_Prelude
  imports Main
begin

text \<open>
  Shared material of the development: the \<^theory_text>\<open>named_theorems\<close> collections the
  component theories fill, and generic facts on lists, options and sums that the library does not
  have in the form needed here.

  \<^item> \<open>go_defs\<close>: unfolding equations of small non-recursive definitions that a component proof
    may open freely.
  \<^item> \<open>wait_simps\<close>: equations of the polling loops that do not loop as rewrite rules.
  \<^item> \<open>trace_simps\<close>: how the operations extend the log of backend calls.
\<close>

named_theorems go_defs
named_theorems wait_simps
named_theorems trace_simps

type_synonym duration = int
  \<comment> \<open>\<open>time.Duration\<close>, in nanoseconds\<close>

type_synonym time = int
  \<comment> \<open>\<open>time.Time\<close>, in nanoseconds since the Unix epoch, UTC\<close>

abbreviation Second :: duration where "Second \<equiv> 1000000000"
abbreviation Minute :: duration where "Minute \<equiv> 60000000000"
abbreviation Millisecond :: duration where "Millisecond \<equiv> 1000000"

section \<open>Options\<close>

text \<open>The earlier of two optional instants, where \<open>None\<close> is "never".\<close>

fun opt_min :: "time option \<Rightarrow> time option \<Rightarrow> time option" where
  "opt_min None b = b"
| "opt_min a None = a"
| "opt_min (Some a) (Some b) = Some (min a b)"

lemma opt_min_None_right [simp]: "opt_min a None = a"
  by (cases a) auto

lemma opt_min_Some_right: "\<exists>d. opt_min a (Some b) = Some d \<and> d \<le> b"
  by (cases a) auto

lemma opt_min_le_right: "opt_min a (Some b) = Some d \<Longrightarrow> d \<le> b"
  by (cases a) auto

section \<open>Lists\<close>

text \<open>\<open>precedes P Q xs\<close>: every element satisfying \<open>Q\<close> has one satisfying \<open>P\<close> before it.\<close>

fun precedes :: "('a \<Rightarrow> bool) \<Rightarrow> ('a \<Rightarrow> bool) \<Rightarrow> 'a list \<Rightarrow> bool" where
  "precedes P Q [] = True"
| "precedes P Q (x # xs) = (\<not> Q x \<and> (P x \<or> precedes P Q xs))"

lemma precedes_split:
  "precedes P Q xs \<Longrightarrow> xs = ys @ y # zs \<Longrightarrow> Q y \<Longrightarrow> \<exists>p \<in> set ys. P p"
proof (induction xs arbitrary: ys)
  case Nil
  then show ?case by simp
next
  case (Cons x xs)
  then show ?case by (cases ys) auto
qed

lemma precedes_none: "(\<And>x. x \<in> set xs \<Longrightarrow> \<not> Q x) \<Longrightarrow> precedes P Q xs"
  by (induction xs) auto

lemma precedes_append:
  "precedes P Q (xs @ ys) \<longleftrightarrow> precedes P Q xs \<and> ((\<exists>x \<in> set xs. P x) \<or> precedes P Q ys)"
  by (induction xs) auto

text \<open>In a split of \<open>xs @ ys\<close> at an element that \<open>xs\<close> does not have, the front extends \<open>xs\<close>.\<close>

lemma append_first_split:
  assumes "xs @ ys = pre @ x # post" and "\<forall>y \<in> set xs. \<not> P y" and "P x"
  shows "\<exists>mid. pre = xs @ mid"
  using assms by (auto simp: append_eq_append_conv2 append_eq_Cons_conv)

end
