(* ===== verification/Go_Strings.thy ===== *)
theory Go_Strings
  imports NW_Prelude
begin

text \<open>
  The part of Go's \<^verbatim>\<open>strings\<close>, \<^verbatim>\<open>strconv\<close>, \<^verbatim>\<open>fmt\<close> and \<^verbatim>\<open>time\<close> packages the sources use on
  text. A Go string is a byte sequence and an Isabelle \<^typ>\<open>string\<close> is one too (a \<^typ>\<open>char\<close> is
  8 bits), so prefix, substring and replacement agree byte for byte. \<open>ToLower\<close>, \<open>ToUpper\<close> and
  \<open>TrimSpace\<close> are given for ASCII: bytes above 127 are left alone, where Go also maps the letters
  and spaces of other scripts. Everything Nightwatch applies them to (IQNs, IP addresses,
  Kubernetes node names, WS-Man numbers) is ASCII.
\<close>

section \<open>Package strings\<close>

definition HasPrefix :: "string \<Rightarrow> string \<Rightarrow> bool" where
  "HasPrefix s p \<longleftrightarrow> take (length p) s = p"

definition HasSuffix :: "string \<Rightarrow> string \<Rightarrow> bool" where
  "HasSuffix s p \<longleftrightarrow> length p \<le> length s \<and> drop (length s - length p) s = p"

definition TrimSuffix :: "string \<Rightarrow> string \<Rightarrow> string" where
  "TrimSuffix s p = (if HasSuffix s p then take (length s - length p) s else s)"

fun Contains :: "string \<Rightarrow> string \<Rightarrow> bool" where
  "Contains [] sub = (sub = [])"
| "Contains (x # xs) sub = (HasPrefix (x # xs) sub \<or> Contains xs sub)"

definition is_space :: "char \<Rightarrow> bool" where
  "is_space c \<longleftrightarrow> of_char c \<in> {9, 10, 11, 12, 13, 32 :: nat}"

definition TrimSpace :: "string \<Rightarrow> string" where
  "TrimSpace s = rev (dropWhile is_space (rev (dropWhile is_space s)))"

definition lower_char :: "char \<Rightarrow> char" where
  "lower_char c =
     (let n = (of_char c :: nat) in if 65 \<le> n \<and> n \<le> 90 then char_of (n + 32) else c)"

definition upper_char :: "char \<Rightarrow> char" where
  "upper_char c =
     (let n = (of_char c :: nat) in if 97 \<le> n \<and> n \<le> 122 then char_of (n - 32) else c)"

definition ToLower :: "string \<Rightarrow> string" where
  "ToLower s = map lower_char s"

definition EqualFold :: "string \<Rightarrow> string \<Rightarrow> bool" where
  "EqualFold s t \<longleftrightarrow> ToLower s = ToLower t"

text \<open>
  \<open>strings.ReplaceAll\<close> for a non-empty pattern (the sources use no other): scan from the left,
  replace each match and go on behind it.
\<close>

function ReplaceAll :: "string \<Rightarrow> string \<Rightarrow> string \<Rightarrow> string" where
  "ReplaceAll [] old new = []"
| "ReplaceAll (x # xs) old new =
     (if old \<noteq> [] \<and> HasPrefix (x # xs) old
      then new @ ReplaceAll (drop (length old) (x # xs)) old new
      else x # ReplaceAll xs old new)"
  by pat_completeness auto
termination
  by (relation "measure (\<lambda>(s, old, new). length s)") auto

section \<open>Package strconv and the verbs of fmt\<close>

definition digit :: "nat \<Rightarrow> char" where
  "digit n = char_of (48 + n mod 10)"

fun nat_str :: "nat \<Rightarrow> string" where
  "nat_str n = (if n < 10 then [digit n] else nat_str (n div 10) @ [digit n])"

declare nat_str.simps [simp del]

text \<open>\<open>%d\<close>.\<close>

definition int_str :: "int \<Rightarrow> string" where
  "int_str i = (if i < 0 then CHR ''-'' # nat_str (nat (- i)) else nat_str (nat i))"

text \<open>\<open>%t\<close>.\<close>

definition bool_str :: "bool \<Rightarrow> string" where
  "bool_str b = (if b then ''true'' else ''false'')"

definition hex_digit :: "nat \<Rightarrow> char" where
  "hex_digit n = (if n < 10 then char_of (48 + n) else char_of (87 + n))"

text \<open>\<open>hex.EncodeToString\<close>.\<close>

definition hex_EncodeToString :: "nat list \<Rightarrow> string" where
  "hex_EncodeToString bs = concat (map (\<lambda>b. [hex_digit (b div 16 mod 16), hex_digit (b mod 16)]) bs)"

text \<open>
  \<open>%q\<close> (\<open>strconv.Quote\<close>): the quote and the backslash are escaped, the control characters take
  their letter escapes or \<open>\xNN\<close>; bytes above 127 are kept, as Go keeps printable UTF-8.
\<close>

definition quote_char :: "char \<Rightarrow> string" where
  "quote_char c =
     (let n = (of_char c :: nat)
      in if n = 34 \<or> n = 92 then [CHR 0x5C, c]
         else if n = 7 then [CHR 0x5C, CHR ''a'']
         else if n = 8 then [CHR 0x5C, CHR ''b'']
         else if n = 12 then [CHR 0x5C, CHR ''f'']
         else if n = 10 then [CHR 0x5C, CHR ''n'']
         else if n = 13 then [CHR 0x5C, CHR ''r'']
         else if n = 9 then [CHR 0x5C, CHR ''t'']
         else if n = 11 then [CHR 0x5C, CHR ''v'']
         else if n < 32 \<or> n = 127
           then [CHR 0x5C, CHR ''x'', hex_digit (n div 16), hex_digit (n mod 16)]
         else [c])"

definition Quote :: "string \<Rightarrow> string" where
  "Quote s = [CHR 0x22] @ concat (map quote_char s) @ [CHR 0x22]"

section \<open>time.Duration.String\<close>

text \<open>
  The digits of a fraction of \<open>10 ^ prec\<close>, without the zeros at its end, after a point;
  nothing when the fraction is zero (\<open>fmtFrac\<close>).
\<close>

fun pad_nat :: "nat \<Rightarrow> nat \<Rightarrow> string" where
  "pad_nat 0 n = []"
| "pad_nat (Suc k) n = pad_nat k (n div 10) @ [digit n]"

definition frac_str :: "nat \<Rightarrow> nat \<Rightarrow> string" where
  "frac_str prec f =
     (let ds = rev (dropWhile (\<lambda>c. c = CHR ''0'') (rev (pad_nat prec f)))
      in if ds = [] then [] else CHR ''.'' # ds)"

definition duration_str :: "duration \<Rightarrow> string" where
  "duration_str d =
     (let u = nat \<bar>d\<bar>;
          body =
            (if u = 0 then ''0s''
             else if u < 1000 then nat_str u @ ''ns''
             else if u < 1000000
               then nat_str (u div 1000) @ frac_str 3 (u mod 1000) @ [CHR 0xC2, CHR 0xB5, CHR ''s'']
             else if u < 1000000000
               then nat_str (u div 1000000) @ frac_str 6 (u mod 1000000) @ ''ms''
             else
               (let s = u div 1000000000; m = s div 60; h = m div 60;
                    secs = nat_str (s mod 60) @ frac_str 9 (u mod 1000000000) @ ''s''
                in if m = 0 then secs
                   else if h = 0 then nat_str m @ ''m'' @ secs
                   else nat_str h @ ''h'' @ nat_str (m mod 60) @ ''m'' @ secs))
      in if d < 0 then CHR ''-'' # body else body)"

section \<open>Facts on substrings, trimming and replacement\<close>

lemma HasPrefix_iff: "HasPrefix s p \<longleftrightarrow> (\<exists>r. s = p @ r)"
  unfolding HasPrefix_def by (metis append_eq_conv_conj append_take_drop_id)

lemma HasPrefix_refl [simp]: "HasPrefix s s"
  by (simp add: HasPrefix_def)

lemma HasPrefix_Nil [simp]: "HasPrefix s []"
  by (simp add: HasPrefix_def)

lemma Contains_iff: "Contains s sub \<longleftrightarrow> (\<exists>a b. s = a @ sub @ b)"
proof (induction s)
  case Nil
  then show ?case by simp
next
  case (Cons x xs)
  have "(\<exists>a b. x # xs = a @ sub @ b) \<longleftrightarrow>
        (\<exists>b. x # xs = sub @ b) \<or> (\<exists>a b. xs = a @ sub @ b)"
    by (metis append_Cons append_Nil list.exhaust list.inject)
  with Cons show ?case by (simp add: HasPrefix_iff)
qed

lemma Contains_self [simp]: "Contains s s"
  by (metis Contains_iff append.left_neutral append_Nil2)

lemma Contains_Nil [simp]: "Contains s []"
  by (cases s) simp_all

lemma Contains_trans: "Contains s t \<Longrightarrow> Contains t u \<Longrightarrow> Contains s u"
  by (metis Contains_iff append.assoc)

lemma Contains_append: "Contains s sub \<Longrightarrow> Contains (a @ s @ b) sub"
  by (metis Contains_iff append.assoc)

lemma Contains_map: "Contains s sub \<Longrightarrow> Contains (map f s) (map f sub)"
  by (metis Contains_iff map_append)

lemma TrimSpace_Nil_iff: "TrimSpace s = [] \<longleftrightarrow> (\<forall>c \<in> set s. is_space c)"
proof -
  have "(\<forall>c \<in> set (dropWhile P s). P c) \<longleftrightarrow> (\<forall>c \<in> set s. P c)" for P :: "char \<Rightarrow> bool"
    by (induction s) auto
  then show ?thesis by (simp add: TrimSpace_def)
qed

lemma dropWhile_id: "(\<And>x xs. s = x # xs \<Longrightarrow> \<not> P x) \<Longrightarrow> dropWhile P s = s"
  by (cases s) auto

lemma TrimSpace_id:
  assumes "s = [] \<or> (\<not> is_space (hd s) \<and> \<not> is_space (last s))"
  shows "TrimSpace s = s"
proof (cases s)
  case Nil
  then show ?thesis by (simp add: TrimSpace_def)
next
  case (Cons x xs)
  with assms have h: "dropWhile is_space s = s" by simp
  have "rev s = last s # rev (butlast s)"
    using Cons by (metis append_butlast_last_id list.distinct(1) rev.simps(2) rev_rev_ident)
  with assms Cons have "dropWhile is_space (rev s) = rev s" by simp
  with h show ?thesis by (simp add: TrimSpace_def)
qed

lemma TrimSpace_idem [simp]: "TrimSpace (TrimSpace s) = TrimSpace s"
proof (rule TrimSpace_id)
  let ?a = "dropWhile is_space s"
  let ?b = "dropWhile is_space (rev ?a)"
  show "TrimSpace s = [] \<or> (\<not> is_space (hd (TrimSpace s)) \<and> \<not> is_space (last (TrimSpace s)))"
  proof (cases "?b = []")
    case True
    then show ?thesis by (simp add: TrimSpace_def)
  next
    case False
    then have l: "\<not> is_space (last (TrimSpace s))"
      by (simp add: TrimSpace_def last_rev hd_dropWhile)
    have "?a \<noteq> []"
      using False by (metis dropWhile.simps(1) rev.simps(1))
    moreover obtain pre where "rev ?a = pre @ ?b"
      by (metis takeWhile_dropWhile_id)
    then have "?a = rev ?b @ rev pre" by (metis rev_append rev_rev_ident)
    then have "hd (rev ?b) = hd ?a" using False by (metis hd_append2 rev_is_Nil_conv)
    ultimately have "\<not> is_space (hd (TrimSpace s))"
      by (simp add: TrimSpace_def hd_dropWhile)
    with l show ?thesis by simp
  qed
qed

lemma lower_char_idem [simp]: "lower_char (lower_char c) = lower_char c"
  by (auto simp: lower_char_def Let_def)

lemma ToLower_idem [simp]: "ToLower (ToLower s) = ToLower s"
  by (simp add: ToLower_def)

lemma ReplaceAll_no_match:
  "old \<noteq> [] \<Longrightarrow> \<not> Contains s old \<Longrightarrow> ReplaceAll s old new = s"
  by (induction s) auto

end
