(* ===== verification/Go_Runtime.thy ===== *)
theory Go_Runtime
  imports Go_Strings
begin

text \<open>
  The run-time notions the sources share: error values with their wrapping chain, contexts with
  deadline and cancellation, the \<open>select\<close> statement over \<open>ctx.Done()\<close> and \<open>time.After\<close>, calls
  into code outside the repository, and the loop that polls until a check is satisfied or the
  context ends.

  Time is an integer number of nanoseconds. A call into a backend is a \<open>prim\<close>: given the context,
  the instant and the state of the outside world it yields its reply, the time it took and the new
  state. Nothing else is assumed of it, so a theorem about code that calls backends holds for
  every behaviour of them, failing and slow ones included. A \<open>world\<close> carries the outside state,
  the clock and the log of the calls made so far; only \<open>invoke\<close> writes the log.
\<close>

section \<open>Error values\<close>

text \<open>
  \<open>Wrapf a e b\<close> is \<open>fmt.Errorf("a%wb", e)\<close>: its text and its place in the chain that \<open>errors.Is\<close>
  and \<open>errors.As\<close> search. \<open>Err\<close> is an error known only by its text.
\<close>

datatype err =
    Canceled
  | DeadlineExceeded
  | ErrNotExist
  | ErrEOF
  | UnknownNodeError string
  | Err string
  | Wrapf string err string

abbreviation wrap :: "string \<Rightarrow> err \<Rightarrow> err" where
  "wrap pre e \<equiv> Wrapf pre e []"

fun Error :: "err \<Rightarrow> string" where
  "Error Canceled = ''context canceled''"
| "Error DeadlineExceeded = ''context deadline exceeded''"
| "Error ErrNotExist = ''file does not exist''"
| "Error ErrEOF = ''EOF''"
| "Error (UnknownNodeError name) = ''unknown node '' @ Quote name"
| "Error (Err s) = s"
| "Error (Wrapf pre e post) = pre @ Error e @ post"

fun errors_Is :: "err \<Rightarrow> err \<Rightarrow> bool" where
  "errors_Is (Wrapf pre e post) target = (Wrapf pre e post = target \<or> errors_Is e target)"
| "errors_Is e target = (e = target)"

text \<open>\<open>errors.As(err, &unknown)\<close> with \<open>unknown *UnknownNodeError\<close>.\<close>

fun as_UnknownNodeError :: "err \<Rightarrow> string option" where
  "as_UnknownNodeError (UnknownNodeError name) = Some name"
| "as_UnknownNodeError (Wrapf pre e post) = as_UnknownNodeError e"
| "as_UnknownNodeError e = None"

section \<open>Contexts\<close>

text \<open>
  A context ends at its deadline or when it is cancelled, whichever comes first. \<open>ctx_cancel\<close> is
  the instant at which its owner cancels it (a signal, a closed request, an outer \<open>cancel()\<close>);
  \<open>None\<close> is never. \<open>ctx_pick\<close> is the choice of the Go scheduler in a \<open>select\<close> whose timer and
  \<open>Done\<close> channel become ready at the same instant; it is arbitrary.
\<close>

record ctx =
  ctx_deadline :: "time option"
  ctx_cancel :: "time option"
  ctx_pick :: "time \<Rightarrow> bool"

definition background :: ctx where
  "background = \<lparr>ctx_deadline = None, ctx_cancel = None, ctx_pick = (\<lambda>_. False)\<rparr>"

definition WithDeadline :: "ctx \<Rightarrow> time \<Rightarrow> ctx" where
  "WithDeadline c d = c\<lparr>ctx_deadline := opt_min (ctx_deadline c) (Some d)\<rparr>"

text \<open>\<open>context.WithTimeout(ctx, d)\<close> called at instant \<open>t\<close>.\<close>

definition WithTimeout :: "ctx \<Rightarrow> time \<Rightarrow> duration \<Rightarrow> ctx" where
  "WithTimeout c t d = WithDeadline c (t + d)"

text \<open>A context derived by \<open>context.WithCancel\<close> whose \<open>cancel\<close> is called at the given instant.\<close>

definition WithCancelAt :: "ctx \<Rightarrow> time option \<Rightarrow> ctx" where
  "WithCancelAt c t = c\<lparr>ctx_cancel := opt_min (ctx_cancel c) t\<rparr>"

definition done_at :: "ctx \<Rightarrow> time option" where
  "done_at c = opt_min (ctx_deadline c) (ctx_cancel c)"

definition done_cause :: "ctx \<Rightarrow> err" where
  "done_cause c =
     (if ctx_cancel c \<noteq> None \<and> ctx_cancel c = done_at c then Canceled else DeadlineExceeded)"

text \<open>\<open>ctx.Err()\<close> at instant \<open>t\<close>.\<close>

definition ctx_err :: "ctx \<Rightarrow> time \<Rightarrow> err option" where
  "ctx_err c t =
     (case done_at c of
        None \<Rightarrow> None
      | Some d \<Rightarrow> if d \<le> t then Some (done_cause c) else None)"

text \<open>
  \<^verbatim>\<open>select { case <-ctx.Done(): ... case <-time.After(poll): }\<close> entered at instant \<open>t\<close>: \<open>Some t'\<close>
  when the first case is taken, at \<open>t'\<close>; \<open>None\<close> when the timer fires, at \<open>t + poll\<close>.
\<close>

definition select_done :: "ctx \<Rightarrow> duration \<Rightarrow> time \<Rightarrow> time option" where
  "select_done c poll t =
     (case done_at c of
        None \<Rightarrow> None
      | Some d \<Rightarrow>
          if d < t + poll \<or> d = t + poll \<and> ctx_pick c d then Some (max t d) else None)"

section \<open>Calls into the outside world\<close>

type_synonym ('w, 'r) prim = "ctx \<Rightarrow> time \<Rightarrow> 'w \<Rightarrow> 'r \<times> nat \<times> 'w"

record ('w, 'e) world =
  w_env :: 'w
  w_clock :: time
  w_trace :: "'e list"

definition invoke ::
  "('r \<Rightarrow> 'e) \<Rightarrow> ('w, 'r) prim \<Rightarrow> ctx \<Rightarrow> ('w, 'e) world \<Rightarrow> 'r \<times> ('w, 'e) world" where
  "invoke ev f c w =
     (case f c (w_clock w) (w_env w) of
        (r, dt, e) \<Rightarrow>
          (r, w\<lparr>w_env := e, w_clock := w_clock w + int dt, w_trace := w_trace w @ [ev r]\<rparr>))"

text \<open>Code that runs on a world, seen by its callers as one backend call with its own log.\<close>

definition as_prim ::
  "(ctx \<Rightarrow> ('w, 'e) world \<Rightarrow> 'r \<times> ('w, 'e) world) \<Rightarrow> ('w, 'r) prim" where
  "as_prim f c t e =
     (case f c \<lparr>w_env = e, w_clock = t, w_trace = []\<rparr> of
        (r, w) \<Rightarrow> (r, nat (w_clock w - t), w_env w))"

text \<open>One call after another, under the same context; the second starts when the first has ended.\<close>

definition pret :: "'a \<Rightarrow> ('w, 'a) prim" where
  "pret a c t s = (a, 0, s)"

definition pbind :: "('w, 'a) prim \<Rightarrow> ('a \<Rightarrow> ('w, 'b) prim) \<Rightarrow> ('w, 'b) prim" where
  "pbind f g c t s =
     (case f c t s of
        (a, d1, s1) \<Rightarrow> (case g a c (t + int d1) s1 of (b, d2, s2) \<Rightarrow> (b, d1 + d2, s2)))"

text \<open>A call whose reply is turned into another value on the spot.\<close>

definition pmap :: "('a \<Rightarrow> 'b) \<Rightarrow> ('w, 'a) prim \<Rightarrow> ('w, 'b) prim" where
  "pmap g f c t s = (case f c t s of (a, d, s') \<Rightarrow> (g a, d, s'))"

definition sleep :: "time \<Rightarrow> ('w, 'e) world \<Rightarrow> ('w, 'e) world" where
  "sleep t w = w\<lparr>w_clock := t\<rparr>"

section \<open>Facts on contexts and select\<close>

lemma done_at_WithDeadline: "\<exists>d. done_at (WithDeadline c dl) = Some d \<and> d \<le> dl"
proof -
  obtain d where "opt_min (ctx_deadline c) (Some dl) = Some d" and "d \<le> dl"
    using opt_min_Some_right by blast
  then show ?thesis
    by (cases "ctx_cancel c") (auto simp: done_at_def WithDeadline_def min_def)
qed

lemma select_done_None_bound:
  assumes "select_done (WithDeadline c dl) poll t = None"
  shows "t + poll \<le> dl"
proof -
  obtain d where "done_at (WithDeadline c dl) = Some d" and "d \<le> dl"
    using done_at_WithDeadline by blast
  with assms show ?thesis by (auto simp: select_done_def split: if_splits)
qed

lemma select_done_Some_bound:
  assumes "select_done (WithDeadline c dl) poll t = Some t'"
  shows "t \<le> t'" and "t' \<le> max t dl"
proof -
  obtain d where "done_at (WithDeadline c dl) = Some d" and "d \<le> dl"
    using done_at_WithDeadline by blast
  with assms show "t \<le> t'" and "t' \<le> max t dl"
    by (auto simp: select_done_def split: if_splits)
qed

text \<open>The \<open>Done\<close> case is taken only when the context has ended: \<open>ctx.Err()\<close> is not nil there.\<close>

lemma select_done_err:
  "select_done c poll t = Some t' \<Longrightarrow> ctx_err c t' = Some (done_cause c)"
  by (auto simp: select_done_def ctx_err_def split: option.splits if_splits)

lemma ctx_err_mono: "ctx_err c t = Some e \<Longrightarrow> t \<le> t' \<Longrightarrow> ctx_err c t' = Some e"
  by (auto simp: ctx_err_def split: option.splits if_splits)

section \<open>Facts on calls\<close>

lemma w_clock_invoke_mono: "invoke ev f c w = (r, w') \<Longrightarrow> w_clock w \<le> w_clock w'"
  by (auto simp: invoke_def split: prod.splits)

lemma invoke_reply:
  assumes "invoke ev f c w = (r, w')"
  shows "r = fst (f c (w_clock w) (w_env w))" and "w_env w' = snd (snd (f c (w_clock w) (w_env w)))"
  using assms by (auto simp: invoke_def split: prod.splits)

lemma w_trace_invoke: "invoke ev f c w = (r, w') \<Longrightarrow> w_trace w' = w_trace w @ [ev r]"
  by (auto simp: invoke_def split: prod.splits)

lemma sleep_simps [simp]:
  "w_clock (sleep t w) = t" "w_trace (sleep t w) = w_trace w" "w_env (sleep t w) = w_env w"
  by (simp_all add: sleep_def)

lemma fst_pmap [simp]: "fst (pmap g f c t s) = g (fst (f c t s))"
  by (simp add: pmap_def split: prod.splits)

lemma pbindE:
  assumes "pbind f g c t s = (b, d, s')"
  obtains a d1 s1 d2 where "f c t s = (a, d1, s1)" and "g a c (t + int d1) s1 = (b, d2, s')"
    and "d = d1 + d2"
  using assms by (auto simp: pbind_def split: prod.splits)

section \<open>The polling loop\<close>

text \<open>
  \<^verbatim>\<open>
  for {
    r := check(ctx)
    if stop(r) { return ... }
    select {
    case <-ctx.Done(): return ... r, ctx.Err()
    case <-time.After(poll):
    }
  }
  \<close>
  under \<open>ctx\<close> bounded by a deadline. \<open>Inl a\<close> is the return from inside the loop, \<open>Inr (r, e)\<close> the
  return on \<open>ctx.Done()\<close> with the last reply and \<open>ctx.Err()\<close>. Every caller in the sources replaces
  a non-positive interval by its default before it loops; the bound \<open>max 1\<close> says the same of the
  loop itself and makes it end.
\<close>

function poll_loop ::
  "('r \<Rightarrow> 'e) \<Rightarrow> ('w, 'r) prim \<Rightarrow> ('r \<Rightarrow> 'a option) \<Rightarrow> ctx \<Rightarrow> time \<Rightarrow> duration \<Rightarrow>
   ('w, 'e) world \<Rightarrow> ('a + 'r \<times> err) \<times> ('w, 'e) world" where
  "poll_loop ev check stop c dl poll w =
     (case invoke ev check (WithDeadline c dl) w of
        (r, w1) \<Rightarrow>
          (case stop r of
             Some a \<Rightarrow> (Inl a, w1)
           | None \<Rightarrow>
               (case select_done (WithDeadline c dl) (max 1 poll) (w_clock w1) of
                  Some t \<Rightarrow> (Inr (r, done_cause (WithDeadline c dl)), sleep t w1)
                | None \<Rightarrow>
                    poll_loop ev check stop c dl poll (sleep (w_clock w1 + max 1 poll) w1))))"
  by pat_completeness auto
termination
proof (relation "measure (\<lambda>(ev, check, stop, c, dl, poll, w). nat (dl + 1 - w_clock w))", goal_cases)
  case 1
  then show ?case by simp
next
  case (2 ev check stop c dl poll w r w1)
  have "w_clock w \<le> w_clock w1"
    using 2 by (metis w_clock_invoke_mono)
  moreover have "w_clock w1 + max 1 poll \<le> dl"
    using 2 select_done_None_bound by blast
  ultimately show ?case by (simp add: max_def split: if_splits)
qed

declare poll_loop.simps [simp del]



section \<open>What the polling loop does\<close>

text \<open>
  The induction rule of the loop: a property of (start, result, end) that holds for a round that
  returns and for a round on which the context ends, and that carries over from the next round,
  holds of the whole loop.
\<close>

lemma poll_loop_rule:
  assumes run: "poll_loop ev check stop c dl poll w = (res, w')"
    and stops: "\<And>w r w1 a. invoke ev check (WithDeadline c dl) w = (r, w1) \<Longrightarrow> stop r = Some a \<Longrightarrow>
      P w (Inl a) w1"
    and ended: "\<And>w r w1 t. invoke ev check (WithDeadline c dl) w = (r, w1) \<Longrightarrow> stop r = None \<Longrightarrow>
      select_done (WithDeadline c dl) (max 1 poll) (w_clock w1) = Some t \<Longrightarrow>
      P w (Inr (r, done_cause (WithDeadline c dl))) (sleep t w1)"
    and again: "\<And>w r w1 res w'. invoke ev check (WithDeadline c dl) w = (r, w1) \<Longrightarrow> stop r = None \<Longrightarrow>
      w_clock w1 + max 1 poll \<le> dl \<Longrightarrow>
      P (sleep (w_clock w1 + max 1 poll) w1) res w' \<Longrightarrow> P w res w'"
  shows "P w res w'"
  using assms
proof (induction ev check stop c dl poll w arbitrary: res w' rule: poll_loop.induct)
  case (1 ev check stop c dl poll w)
  obtain r w1 where inv: "invoke ev check (WithDeadline c dl) w = (r, w1)"
    by (metis surj_pair)
  note eq = "1.prems"(1) [unfolded poll_loop.simps [of ev check stop c dl poll w] inv, simplified]
  show ?case
  proof (cases "stop r")
    case (Some a)
    with eq "1.prems"(2) [OF inv] show ?thesis by simp
  next
    case none: None
    show ?thesis
    proof (cases "select_done (WithDeadline c dl) (max 1 poll) (w_clock w1)")
      case (Some t)
      with eq none "1.prems"(3) [OF inv none Some] show ?thesis by simp
    next
      case None
      have "poll_loop ev check stop c dl poll (sleep (w_clock w1 + max 1 poll) w1) = (res, w')"
        using eq none None by simp
      then have "P (sleep (w_clock w1 + max 1 poll) w1) res w'"
        using "1.IH" [OF inv [symmetric] none None] "1.prems" by blast
      then show ?thesis
        using "1.prems"(4) [OF inv none select_done_None_bound [OF None]] by blast
    qed
  qed
qed

text \<open>
  Every round logs its reply, every reply but the last let the loop go on, and the last one decides
  the return: either it satisfied \<open>stop\<close>, or it did not and the context had ended.
\<close>

definition poll_ended ::
  "('r \<Rightarrow> 'a option) \<Rightarrow> ctx \<Rightarrow> time \<Rightarrow> 'r \<Rightarrow> ('a + 'r \<times> err) \<Rightarrow> time \<Rightarrow> bool" where
  "poll_ended stop c dl r res t \<longleftrightarrow>
     (case res of
        Inl a \<Rightarrow> stop r = Some a
      | Inr (r', e) \<Rightarrow>
          r' = r \<and> stop r = None \<and> e = done_cause (WithDeadline c dl) \<and>
          ctx_err (WithDeadline c dl) t = Some e)"

lemma poll_loop_trace:
  assumes "poll_loop ev check stop c dl poll w = (res, w')"
  shows "\<exists>rs r. w_trace w' = w_trace w @ map ev rs @ [ev r] \<and> (\<forall>x \<in> set rs. stop x = None) \<and>
           poll_ended stop c dl r res (w_clock w')"
  using assms
proof (rule poll_loop_rule, goal_cases)
  case (1 w r w1 a)
  then show ?case
    by (intro exI [of _ "[]"] exI [of _ r]) (simp add: poll_ended_def w_trace_invoke)
next
  case (2 w r w1 t)
  then show ?case
    by (intro exI [of _ "[]"] exI [of _ r]) (simp add: poll_ended_def w_trace_invoke select_done_err)
next
  case (3 w r w1 res w')
  from 3(4) obtain rs r' where
    "w_trace w' = w_trace w1 @ map ev rs @ [ev r']" "\<forall>x \<in> set rs. stop x = None"
    "poll_ended stop c dl r' res (w_clock w')"
    by auto
  with 3(1,2) show ?case
    by (intro exI [of _ "r # rs"] exI [of _ r']) (simp add: w_trace_invoke)
qed

lemma poll_loop_clock_mono:
  "poll_loop ev check stop c dl poll w = (res, w') \<Longrightarrow> w_clock w \<le> w_clock w'"
  by (erule poll_loop_rule) (fastforce dest: w_clock_invoke_mono select_done_Some_bound(1))+

text \<open>A loop whose checks take at most \<open>D\<close> is over \<open>D\<close> after its deadline.\<close>

lemma poll_loop_deadline:
  assumes "poll_loop ev check stop c dl poll w = (res, w')"
    and quick: "\<And>c t s. fst (snd (check c t s)) \<le> D"
  shows "w_clock w' \<le> max (w_clock w) dl + int D"
proof -
  have hi: "w_clock w1 \<le> w_clock w + int D"
    if "invoke ev check c w = (r, w1)" for c w r w1
    using that quick [of c "w_clock w" "w_env w"] by (auto simp: invoke_def split: prod.splits)
  from assms(1) show ?thesis
  proof (rule poll_loop_rule, goal_cases)
    case (1 w r w1 a)
    from hi [OF 1(1)] show ?case by simp
  next
    case (2 w r w1 t)
    from hi [OF 2(1)] select_done_Some_bound(2) [OF 2(3)] show ?case by simp
  next
    case (3 w r w1 res w')
    then show ?case by simp
  qed
qed

lemma as_prim_elapsed:
  assumes "f c \<lparr>w_env = e, w_clock = t, w_trace = []\<rparr> = (r, w)"
  shows "as_prim f c t e = (r, nat (w_clock w - t), w_env w)"
  using assms by (simp add: as_prim_def)

end
