(* ===== verification/Json.thy ===== *)
theory Json
  imports Go_Runtime
begin

text \<open>
  The part of \<^verbatim>\<open>encoding/json\<close> the sources use: the grammar of a JSON text, \<open>Unmarshal\<close> into the
  field types that occur (\<open>string\<close>, \<open>*bool\<close>, \<open>*int64\<close>, \<open>int\<close>, \<open>json.RawMessage\<close>), the first value
  of a stream (\<open>Decoder.Decode\<close>), and \<open>Indent\<close>.

  The text is read from the left; every parser yields the value and the rest of the text. The
  recursive ones take a bound on the number of calls, \<open>json_fuel\<close> of the text, which
  \<open>parse_json_fuel\<close> shows to be enough: more fuel does not change the result. The wording of
  the decoder's own messages is not modelled: a syntax error is \<open>syntax_error\<close>, a value of the
  wrong kind \<open>type_error\<close>. Bytes above 127 inside strings are kept, as Go keeps valid UTF-8.
\<close>

section \<open>Values\<close>

text \<open>A member of an object keeps the text of its value, which is what a \<open>json.RawMessage\<close> field gets.\<close>

datatype json =
    JNull
  | JBool bool
  | JNum string
  | JStr string
  | JArr "json list"
  | JObj "(string \<times> string \<times> json) list"

abbreviation syntax_error :: err where "syntax_error \<equiv> Err ''invalid JSON text''"
abbreviation type_error :: err where "type_error \<equiv> Err ''json: cannot unmarshal value into Go value''"

section \<open>Lexical level\<close>

definition is_ws :: "char \<Rightarrow> bool" where
  "is_ws c \<longleftrightarrow> of_char c \<in> {9, 10, 13, 32 :: nat}"

definition skip_ws :: "string \<Rightarrow> string" where
  "skip_ws s = dropWhile is_ws s"

definition is_digit :: "char \<Rightarrow> bool" where
  "is_digit c \<longleftrightarrow> 48 \<le> (of_char c :: nat) \<and> (of_char c :: nat) \<le> 57"

definition hex_val :: "char \<Rightarrow> nat option" where
  "hex_val c =
     (let n = (of_char c :: nat)
      in if 48 \<le> n \<and> n \<le> 57 then Some (n - 48)
         else if 97 \<le> n \<and> n \<le> 102 then Some (n - 87)
         else if 65 \<le> n \<and> n \<le> 70 then Some (n - 55)
         else None)"

fun hex4 :: "string \<Rightarrow> (nat \<times> string) option" where
  "hex4 (a # b # c # d # rest) =
     (case (hex_val a, hex_val b, hex_val c, hex_val d) of
        (Some a, Some b, Some c, Some d) \<Rightarrow> Some (((a * 16 + b) * 16 + c) * 16 + d, rest)
      | _ \<Rightarrow> None)"
| "hex4 _ = None"

definition utf8 :: "nat \<Rightarrow> string" where
  "utf8 n =
     (if n < 0x80 then [char_of n]
      else if n < 0x800 then [char_of (0xC0 + n div 64), char_of (0x80 + n mod 64)]
      else if n < 0x10000
        then [char_of (0xE0 + n div 4096), char_of (0x80 + n div 64 mod 64), char_of (0x80 + n mod 64)]
      else [char_of (0xF0 + n div 262144), char_of (0x80 + n div 4096 mod 64),
            char_of (0x80 + n div 64 mod 64), char_of (0x80 + n mod 64)])"

definition simple_escape :: "char \<Rightarrow> char option" where
  "simple_escape c =
     (if c = CHR 0x22 \<or> c = CHR 0x5C \<or> c = CHR ''/'' then Some c
      else if c = CHR ''b'' then Some (CHR 0x08)
      else if c = CHR ''f'' then Some (CHR 0x0C)
      else if c = CHR ''n'' then Some (CHR 0x0A)
      else if c = CHR ''r'' then Some (CHR 0x0D)
      else if c = CHR ''t'' then Some (CHR 0x09)
      else None)"

text \<open>The escape \<open>\uXXXX\<close> behind its \<open>u\<close>; a surrogate pair is one rune, a lone surrogate \<open>U+FFFD\<close>.\<close>

definition unicode_escape :: "string \<Rightarrow> (string \<times> string) option" where
  "unicode_escape s =
     (case hex4 s of
        None \<Rightarrow> None
      | Some (n, rest) \<Rightarrow>
          if \<not> (0xD800 \<le> n \<and> n < 0xE000) then Some (utf8 n, rest)
          else if 0xDC00 \<le> n then Some (utf8 0xFFFD, rest)
          else
            (case rest of
               CHR 0x5C # CHR ''u'' # rest2 \<Rightarrow>
                 (case hex4 rest2 of
                    Some (m, rest3) \<Rightarrow>
                      if 0xDC00 \<le> m \<and> m < 0xE000
                      then Some (utf8 (0x10000 + (n - 0xD800) * 1024 + (m - 0xDC00)), rest3)
                      else Some (utf8 0xFFFD, rest)
                  | None \<Rightarrow> Some (utf8 0xFFFD, rest))
             | _ \<Rightarrow> Some (utf8 0xFFFD, rest)))"

lemma hex4_length: "hex4 s = Some (n, r) \<Longrightarrow> length r < length s"
  by (cases s rule: hex4.cases) (auto split: option.splits)

lemma unicode_escape_length: "unicode_escape s = Some (u, r) \<Longrightarrow> length r < length s"
  unfolding unicode_escape_def
  by (auto split: option.splits prod.splits if_splits list.splits char.splits bool.splits
      dest!: hex4_length)

text \<open>A string behind its opening quote: its value and what follows the closing quote.\<close>

function parse_str :: "string \<Rightarrow> (string \<times> string) option" where
  "parse_str [] = None"
| "parse_str (c # cs) =
     (if c = CHR 0x22 then Some ([], cs)
      else if c = CHR 0x5C then
        (case cs of
           [] \<Rightarrow> None
         | e # ds \<Rightarrow>
             (case simple_escape e of
                Some x \<Rightarrow> map_option (\<lambda>(s, r). (x # s, r)) (parse_str ds)
              | None \<Rightarrow>
                  if e \<noteq> CHR ''u'' then None
                  else (case unicode_escape ds of
                          None \<Rightarrow> None
                        | Some (u, es) \<Rightarrow> map_option (\<lambda>(s, r). (u @ s, r)) (parse_str es))))
      else if of_char c < (32 :: nat) then None
      else map_option (\<lambda>(s, r). (c # s, r)) (parse_str cs))"
  by pat_completeness auto
termination
  by (relation "measure length") (auto dest: unicode_escape_length)

lemma parse_str_length: "parse_str s = Some (v, r) \<Longrightarrow> length r < length s"
  by (induction s arbitrary: v r rule: parse_str.induct)
     (fastforce split: if_splits list.splits option.splits prod.splits dest: unicode_escape_length)+

section \<open>Numbers\<close>

text \<open>
  The longest number at the front: an optional minus, \<open>0\<close> or digits without a leading zero, an
  optional fraction, an optional exponent.
\<close>

definition number_frac :: "string \<Rightarrow> (string \<times> string) option" where
  "number_frac s =
     (case s of
        CHR ''.'' # t \<Rightarrow>
          (if takeWhile is_digit t = [] then None
           else Some (CHR ''.'' # takeWhile is_digit t, dropWhile is_digit t))
      | _ \<Rightarrow> Some ([], s))"

definition number_exp :: "string \<Rightarrow> (string \<times> string) option" where
  "number_exp s =
     (if s \<noteq> [] \<and> (hd s = CHR ''e'' \<or> hd s = CHR ''E'') then
        (let t = tl s;
             sign = (if t \<noteq> [] \<and> (hd t = CHR ''+'' \<or> hd t = CHR ''-'') then [hd t] else []);
             u = drop (length sign) t
         in if takeWhile is_digit u = [] then None
            else Some ([hd s] @ sign @ takeWhile is_digit u, dropWhile is_digit u))
      else Some ([], s))"

definition parse_num :: "string \<Rightarrow> (string \<times> string) option" where
  "parse_num s =
     (let (sign, t) = (if s \<noteq> [] \<and> hd s = CHR ''-'' then (''-'', tl s) else ([], s));
          (int, u) =
            (if t \<noteq> [] \<and> hd t = CHR ''0'' then (''0'', tl t) else (takeWhile is_digit t, dropWhile is_digit t))
      in if int = [] then None
         else (case number_frac u of
                 None \<Rightarrow> None
               | Some (frac, v) \<Rightarrow>
                   (case number_exp v of
                      None \<Rightarrow> None
                    | Some (ex, r) \<Rightarrow> Some (sign @ int @ frac @ ex, r))))"

definition parse_lit :: "string \<Rightarrow> json \<Rightarrow> string \<Rightarrow> (json \<times> string) option" where
  "parse_lit lit v s = (if HasPrefix s lit then Some (v, drop (length lit) s) else None)"

section \<open>The grammar\<close>

text \<open>The text of a value that started at \<open>s\<close> and ended where \<open>r\<close> starts.\<close>

definition slice :: "string \<Rightarrow> string \<Rightarrow> string" where
  "slice s r = take (length s - length r) s"

fun parse_value :: "nat \<Rightarrow> string \<Rightarrow> (json \<times> string) option"
  and parse_elems :: "nat \<Rightarrow> string \<Rightarrow> (json list \<times> string) option"
  and parse_membs :: "nat \<Rightarrow> string \<Rightarrow> ((string \<times> string \<times> json) list \<times> string) option" where
  "parse_value 0 s = None"
| "parse_value (Suc n) s =
     (case skip_ws s of
        [] \<Rightarrow> None
      | c # cs \<Rightarrow>
          if c = CHR ''{'' then
            (case skip_ws cs of
               [] \<Rightarrow> None
             | d # ds \<Rightarrow>
                 if d = CHR ''}'' then Some (JObj [], ds)
                 else map_option (\<lambda>(ms, r). (JObj ms, r)) (parse_membs n cs))
          else if c = CHR ''['' then
            (case skip_ws cs of
               [] \<Rightarrow> None
             | d # ds \<Rightarrow>
                 if d = CHR '']'' then Some (JArr [], ds)
                 else map_option (\<lambda>(vs, r). (JArr vs, r)) (parse_elems n cs))
          else if c = CHR 0x22 then map_option (\<lambda>(v, r). (JStr v, r)) (parse_str cs)
          else if c = CHR ''t'' then parse_lit ''true'' (JBool True) (c # cs)
          else if c = CHR ''f'' then parse_lit ''false'' (JBool False) (c # cs)
          else if c = CHR ''n'' then parse_lit ''null'' JNull (c # cs)
          else map_option (\<lambda>(v, r). (JNum v, r)) (parse_num (c # cs)))"
| "parse_elems 0 s = None"
| "parse_elems (Suc n) s =
     (case parse_value n s of
        None \<Rightarrow> None
      | Some (v, r) \<Rightarrow>
          (case skip_ws r of
             [] \<Rightarrow> None
           | d # ds \<Rightarrow>
               if d = CHR '']'' then Some ([v], ds)
               else if d = CHR '','' then map_option (\<lambda>(vs, r). (v # vs, r)) (parse_elems n ds)
               else None))"
| "parse_membs 0 s = None"
| "parse_membs (Suc n) s =
     (case skip_ws s of
        [] \<Rightarrow> None
      | q # qs \<Rightarrow>
          if q \<noteq> CHR 0x22 then None
          else
            (case parse_str qs of
               None \<Rightarrow> None
             | Some (key, r) \<Rightarrow>
                 (case skip_ws r of
                    [] \<Rightarrow> None
                  | d # ds \<Rightarrow>
                      if d \<noteq> CHR '':'' then None
                      else
                        (case parse_value n ds of
                           None \<Rightarrow> None
                         | Some (v, r2) \<Rightarrow>
                             (let raw = slice (skip_ws ds) r2
                              in case skip_ws r2 of
                                   [] \<Rightarrow> None
                                 | e # es \<Rightarrow>
                                     if e = CHR ''}'' then Some ([(key, raw, v)], es)
                                     else if e = CHR '',''
                                     then map_option (\<lambda>(ms, r). ((key, raw, v) # ms, r)) (parse_membs n es)
                                     else None)))))"

definition json_fuel :: "string \<Rightarrow> nat" where
  "json_fuel s = 2 * length s + 1"

text \<open>The value at the front of a text, and the rest.\<close>

definition parse_json :: "string \<Rightarrow> (json \<times> string) option" where
  "parse_json s = parse_value (json_fuel s) s"

text \<open>\<open>json.Unmarshal\<close>: one value and nothing but space behind it.\<close>

definition json_Unmarshal :: "string \<Rightarrow> err + json" where
  "json_Unmarshal s =
     (case parse_json s of
        Some (v, r) \<Rightarrow> if skip_ws r = [] then Inr v else Inl syntax_error
      | None \<Rightarrow> Inl syntax_error)"

text \<open>\<open>Decoder.Decode\<close> of the first value; \<open>io.EOF\<close> when there is none, only space.\<close>

definition json_Decode :: "string \<Rightarrow> err + json" where
  "json_Decode s =
     (if skip_ws s = [] then Inl ErrEOF
      else (case parse_json s of Some (v, _) \<Rightarrow> Inr v | None \<Rightarrow> Inl syntax_error))"

section \<open>Typed fields\<close>

text \<open>
  \<open>Unmarshal\<close> into a struct: \<open>null\<close> changes nothing, another kind of value is an error. A member goes
  to the field whose name it matches without regard to case; a later one overrides an earlier one.
\<close>

definition struct_members :: "json \<Rightarrow> err + (string \<times> string \<times> json) list" where
  "struct_members v =
     (case v of JObj ms \<Rightarrow> Inr ms | JNull \<Rightarrow> Inr [] | _ \<Rightarrow> Inl type_error)"

definition field_values :: "string \<Rightarrow> (string \<times> string \<times> json) list \<Rightarrow> (string \<times> json) list" where
  "field_values name ms = map snd (filter (\<lambda>(k, _, _). EqualFold k name) ms)"

text \<open>
  One decoder per field type: the new content of the field, or the error. As in Go an error does
  not stop the decoding of the later members, but the first one is what \<open>Unmarshal\<close> returns; the
  sources never look at the struct after an error.
\<close>

fun decode_string :: "string \<Rightarrow> (string \<times> json) list \<Rightarrow> err + string" where
  "decode_string cur [] = Inr cur"
| "decode_string cur ((_, JStr s) # vs) = decode_string s vs"
| "decode_string cur ((_, JNull) # vs) = decode_string cur vs"
| "decode_string cur (_ # vs) = Inl type_error"

fun decode_bool_ptr :: "bool option \<Rightarrow> (string \<times> json) list \<Rightarrow> err + bool option" where
  "decode_bool_ptr cur [] = Inr cur"
| "decode_bool_ptr cur ((_, JBool b) # vs) = decode_bool_ptr (Some b) vs"
| "decode_bool_ptr cur ((_, JNull) # vs) = decode_bool_ptr None vs"
| "decode_bool_ptr cur (_ # vs) = Inl type_error"

definition digits_nat :: "string \<Rightarrow> nat" where
  "digits_nat ds = foldl (\<lambda>n c. n * 10 + (of_char c - 48)) 0 ds"

text \<open>\<open>strconv.ParseInt(s, 10, 64)\<close> on the text of a JSON number.\<close>

definition parse_int64 :: "string \<Rightarrow> int option" where
  "parse_int64 s =
     (let neg = (s \<noteq> [] \<and> hd s = CHR ''-'');
          ds = (if neg then tl s else s);
          n = (if neg then - int (digits_nat ds) else int (digits_nat ds))
      in if ds \<noteq> [] \<and> list_all is_digit ds \<and> - (2 ^ 63) \<le> n \<and> n < 2 ^ 63 then Some n else None)"

text \<open>\<open>strconv.Atoi\<close>: a plus sign is accepted too.\<close>

definition Atoi :: "string \<Rightarrow> int option" where
  "Atoi s =
     (if s \<noteq> [] \<and> hd s = CHR ''+''
      then (if tl s \<noteq> [] \<and> hd (tl s) = CHR ''-'' then None else parse_int64 (tl s))
      else parse_int64 s)"

fun decode_int_ptr :: "int option \<Rightarrow> (string \<times> json) list \<Rightarrow> err + int option" where
  "decode_int_ptr cur [] = Inr cur"
| "decode_int_ptr cur ((_, JNum s) # vs) =
     (case parse_int64 s of Some n \<Rightarrow> decode_int_ptr (Some n) vs | None \<Rightarrow> Inl type_error)"
| "decode_int_ptr cur ((_, JNull) # vs) = decode_int_ptr None vs"
| "decode_int_ptr cur (_ # vs) = Inl type_error"

text \<open>A plain \<open>int\<close>: as the pointer, except that \<open>null\<close> leaves the value as it is.\<close>

fun decode_int :: "int \<Rightarrow> (string \<times> json) list \<Rightarrow> err + int" where
  "decode_int cur [] = Inr cur"
| "decode_int cur ((_, JNum s) # vs) =
     (case parse_int64 s of Some n \<Rightarrow> decode_int n vs | None \<Rightarrow> Inl type_error)"
| "decode_int cur ((_, JNull) # vs) = decode_int cur vs"
| "decode_int cur (_ # vs) = Inl type_error"

text \<open>A slice: an array fills it element by element, \<open>null\<close> is the nil slice.\<close>

fun decode_elems :: "(json \<Rightarrow> err + 'a) \<Rightarrow> json list \<Rightarrow> err + 'a list" where
  "decode_elems dec [] = Inr []"
| "decode_elems dec (v # vs) =
     (case dec v of
        Inl e \<Rightarrow> Inl e
      | Inr x \<Rightarrow> (case decode_elems dec vs of Inl e \<Rightarrow> Inl e | Inr xs \<Rightarrow> Inr (x # xs)))"

definition decode_slice :: "(json \<Rightarrow> err + 'a) \<Rightarrow> json \<Rightarrow> err + 'a list" where
  "decode_slice dec v =
     (case v of JArr vs \<Rightarrow> decode_elems dec vs | JNull \<Rightarrow> Inr [] | _ \<Rightarrow> Inl type_error)"

lemma decode_elems_map: "(\<And>x. x \<in> set xs \<Longrightarrow> dec (enc x) = Inr (f x)) \<Longrightarrow> decode_elems dec (map enc xs) = Inr (map f xs)"
  by (induction xs) auto

text \<open>A \<open>json.RawMessage\<close> gets the text of the value, \<open>null\<close> included.\<close>

definition decode_raw :: "(string \<times> json) list \<Rightarrow> string" where
  "decode_raw vs = (if vs = [] then [] else fst (last vs))"

section \<open>Indent\<close>

text \<open>
  \<open>json.Indent(&dst, src, "", "  ")\<close> on a text that is one JSON value: outside strings, space is
  dropped, a line break and two spaces per level follow an opening bracket and a comma and precede
  a closing bracket, a space follows a colon; the bytes of strings are copied. An empty array or
  object stays on its line. The state is the depth, whether a bracket was just opened, whether the
  scan is inside a string, and whether behind a backslash there.
\<close>

record indent_state =
  in_depth :: nat
  in_need :: bool
  in_str :: bool
  in_esc :: bool

definition indent_newline :: "nat \<Rightarrow> string" where
  "indent_newline d = CHR 0x0A # concat (replicate d ''  '')"

definition indent_step :: "char \<Rightarrow> indent_state \<Rightarrow> string \<times> indent_state" where
  "indent_step c st =
     (if in_str st then
        ([c], st\<lparr>in_str := \<not> (c = CHR 0x22 \<and> \<not> in_esc st), in_esc := (c = CHR 0x5C \<and> \<not> in_esc st)\<rparr>)
      else if is_ws c then ([], st)
      else if c = CHR ''}'' \<or> c = CHR '']'' then
        (if in_need st then ([c], st\<lparr>in_need := False\<rparr>)
         else (indent_newline (in_depth st - 1) @ [c], st\<lparr>in_depth := in_depth st - 1\<rparr>))
      else
        (let st1 = (if in_need st then st\<lparr>in_need := False, in_depth := in_depth st + 1\<rparr> else st);
             pre = (if in_need st then indent_newline (in_depth st1) else [])
         in if c = CHR ''{'' \<or> c = CHR ''['' then (pre @ [c], st1\<lparr>in_need := True\<rparr>)
            else if c = CHR '','' then (pre @ [c] @ indent_newline (in_depth st1), st1)
            else if c = CHR '':'' then (pre @ [c, CHR '' ''], st1)
            else (pre @ [c], st1\<lparr>in_str := (c = CHR 0x22), in_esc := False\<rparr>)))"

fun indent_run :: "string \<Rightarrow> indent_state \<Rightarrow> string \<times> indent_state" where
  "indent_run [] st = ([], st)"
| "indent_run (c # cs) st =
     (case indent_step c st of (out, st1) \<Rightarrow> (case indent_run cs st1 of (out', st2) \<Rightarrow> (out @ out', st2)))"

definition indent_init :: indent_state where
  "indent_init = \<lparr>in_depth = 0, in_need = False, in_str = False, in_esc = False\<rparr>"

definition json_Indent :: "string \<Rightarrow> err + string" where
  "json_Indent src =
     (case json_Unmarshal src of
        Inl e \<Rightarrow> Inl e
      | Inr _ \<Rightarrow> Inr (fst (indent_run src indent_init)))"

section \<open>The fuel is enough\<close>

lemma length_skip_ws: "length (skip_ws s) \<le> length s"
  by (simp add: skip_ws_def length_dropWhile_le)

lemma skip_ws_Cons_length: "skip_ws s = c # cs \<Longrightarrow> length cs < length s"
  using length_skip_ws [of s] by simp

lemma number_frac_length: "number_frac s = Some (v, r) \<Longrightarrow> length r \<le> length s"
  by (auto simp: number_frac_def length_dropWhile_le le_SucI
      split: list.splits char.splits bool.splits if_splits)

lemma number_exp_length: "number_exp s = Some (v, r) \<Longrightarrow> length r \<le> length s"
proof -
  have le: "length (dropWhile P (drop n (tl s))) \<le> length s" for P n
    by (rule order_trans [OF length_dropWhile_le]) simp
  show "number_exp s = Some (v, r) \<Longrightarrow> length r \<le> length s"
    using le [of is_digit 0] le [of is_digit 1]
    by (auto simp: number_exp_def Let_def split: if_splits)
qed

lemma parse_num_length: "parse_num s = Some (v, r) \<Longrightarrow> length r < length s"
proof -
  have drop: "length (dropWhile P t) < length t" if "takeWhile P t \<noteq> []" for P and t :: string
    using that by (metis add_diff_cancel_left' diff_less length_append length_greater_0_conv
        takeWhile_dropWhile_id trans_less_add1)
  have tl: "length (dropWhile P (tl t)) \<le> length t" for P and t :: string
    by (rule order_trans [OF length_dropWhile_le]) simp
  assume run: "parse_num s = Some (v, r)"
  define t where "t = (if s \<noteq> [] \<and> hd s = CHR ''-'' then tl s else s)"
  define u where "u = (if t \<noteq> [] \<and> hd t = CHR ''0'' then tl t else dropWhile is_digit t)"
  from run obtain a b w where "number_frac u = Some (a, w)" "number_exp w = Some (b, r)"
    and int: "(if t \<noteq> [] \<and> hd t = CHR ''0'' then ''0'' else takeWhile is_digit t) \<noteq> []"
    by (auto simp: parse_num_def Let_def t_def u_def split: if_splits option.splits prod.splits)
  then have "length r \<le> length u" using number_frac_length number_exp_length by fastforce
  also have "length u < length t"
    using int drop [of is_digit t] by (auto simp: u_def split: if_splits)
  also have "length t \<le> length s" by (simp add: t_def)
  finally show ?thesis .
qed

lemma parse_lit_length: "lit \<noteq> [] \<Longrightarrow> s \<noteq> [] \<Longrightarrow> parse_lit lit v s = Some (w, r) \<Longrightarrow> length r < length s"
  by (auto simp: parse_lit_def split: if_splits)

text \<open>Every value takes at least one byte.\<close>

declare parse_value.simps [simp del] parse_elems.simps [simp del] parse_membs.simps [simp del]

lemma parse_zero [simp]: "parse_value 0 s = None" "parse_elems 0 s = None" "parse_membs 0 s = None"
  by (simp_all add: parse_value.simps parse_elems.simps parse_membs.simps)

lemma parse_shorter_all:
  "(\<forall>s v r. parse_value n s = Some (v, r) \<longrightarrow> length r < length s) \<and>
   (\<forall>s v r. parse_elems n s = Some (v, r) \<longrightarrow> length r < length s) \<and>
   (\<forall>s v r. parse_membs n s = Some (v, r) \<longrightarrow> length r < length s)"
proof (induction n)
  case 0
  then show ?case by simp
next
  case (Suc n)
  note V = Suc.IH [THEN conjunct1, rule_format]
  note E = Suc.IH [THEN conjunct2, THEN conjunct1, rule_format]
  note M = Suc.IH [THEN conjunct2, THEN conjunct2, rule_format]
  note len = skip_ws_Cons_length
  have "length r < length s" if run: "parse_value (Suc n) s = Some (v, r)" for s v r
  proof -
    obtain c cs where c: "skip_ws s = c # cs" using run
      by (auto simp: parse_value.simps(2) split: list.splits)
    have "length r < length (c # cs)"
      using run
      by (auto simp: parse_value.simps(2) c split: if_splits list.splits prod.splits
          dest!: E M parse_str_length parse_num_length parse_lit_length [rotated 2] dest: len)
    with len [OF c] show ?thesis by simp
  qed
  moreover have "length r < length s" if run: "parse_elems (Suc n) s = Some (v, r)" for s v r
    using run by (auto simp: parse_elems.simps(2) split: option.splits list.splits if_splits dest!: V E len)
  moreover have "length r < length s" if run: "parse_membs (Suc n) s = Some (v, r)" for s v r
    using run by (auto simp: parse_membs.simps(2) Let_def split: option.splits list.splits if_splits
        dest!: V M len parse_str_length)
  ultimately show ?case by blast
qed

lemmas parse_shorter =
  parse_shorter_all [THEN conjunct1, rule_format]
  parse_shorter_all [THEN conjunct2, THEN conjunct1, rule_format]
  parse_shorter_all [THEN conjunct2, THEN conjunct2, rule_format]

text \<open>
  One level of the grammar: with fuel for what follows, one more unit changes nothing at this level
  either.
\<close>

lemma parse_value_more:
  assumes "\<And>s. 2 * length s + 2 \<le> n \<Longrightarrow> parse_elems (Suc n) s = parse_elems n s"
    and "\<And>s. 2 * length s + 2 \<le> n \<Longrightarrow> parse_membs (Suc n) s = parse_membs n s"
    and fuel: "2 * length s + 1 \<le> Suc n"
  shows "parse_value (Suc (Suc n)) s = parse_value (Suc n) s"
proof (cases "skip_ws s")
  case Nil
  show ?thesis by (simp only: parse_value.simps(2) Nil list.case)
next
  case (Cons c cs)
  have le: "2 * length cs + 2 \<le> n" using skip_ws_Cons_length [OF Cons] fuel by simp
  show ?thesis
    unfolding parse_value.simps(2) [of "Suc n"] parse_value.simps(2) [of n] Cons
    by (simp only: list.case assms(1,2) [OF le] cong: if_cong list.case_cong)
qed

lemma parse_elems_more:
  assumes "\<And>s. 2 * length s + 1 \<le> n \<Longrightarrow> parse_value (Suc n) s = parse_value n s"
    and "\<And>s. 2 * length s + 2 \<le> n \<Longrightarrow> parse_elems (Suc n) s = parse_elems n s"
    and fuel: "2 * length s + 2 \<le> Suc n"
  shows "parse_elems (Suc (Suc n)) s = parse_elems (Suc n) s"
proof -
  have "parse_elems (Suc n) ds = parse_elems n ds"
    if "parse_value n s = Some (v, r)" "skip_ws r = d # ds" for v r d ds
    using assms(2) [of ds] parse_shorter(1) [OF that(1)] skip_ws_Cons_length [OF that(2)] fuel by simp
  moreover have "parse_value (Suc n) s = parse_value n s" using assms(1) fuel by simp
  ultimately show ?thesis
    by (auto simp: parse_elems.simps(2) [of "Suc n" s] parse_elems.simps(2) [of n s] split: option.splits list.splits)
qed

lemma parse_membs_more:
  assumes "\<And>s. 2 * length s + 1 \<le> n \<Longrightarrow> parse_value (Suc n) s = parse_value n s"
    and "\<And>s. 2 * length s + 2 \<le> n \<Longrightarrow> parse_membs (Suc n) s = parse_membs n s"
    and fuel: "2 * length s + 2 \<le> Suc n"
  shows "parse_membs (Suc (Suc n)) s = parse_membs (Suc n) s"
proof -
  have key: "parse_value (Suc n) ds = parse_value n ds" "2 * length ds + 4 \<le> n"
    if "skip_ws s = q # qs" "parse_str qs = Some (k, r)" "skip_ws r = d # ds" for q qs k r d ds
    using assms(1) [of ds] skip_ws_Cons_length [OF that(1)] parse_str_length [OF that(2)]
      skip_ws_Cons_length [OF that(3)] fuel by simp_all
  have rest: "parse_membs (Suc n) es = parse_membs n es"
    if "skip_ws s = q # qs" "parse_str qs = Some (k, r)" "skip_ws r = d # ds"
      "parse_value n ds = Some (v, r2)" "skip_ws r2 = e # es" for q qs k r d ds v r2 e es
    using assms(2) [of es] key(2) [OF that(1-3)] parse_shorter(1) [OF that(4)] skip_ws_Cons_length [OF that(5)]
    by simp
  show ?thesis
    by (auto simp: parse_membs.simps(2) [of "Suc n" s] parse_membs.simps(2) [of n s] key rest Let_def
        split: option.splits list.splits)
qed

lemma parse_more_fuel_all:
  "(\<forall>s. 2 * length s + 1 \<le> n \<longrightarrow> parse_value (Suc n) s = parse_value n s) \<and>
   (\<forall>s. 2 * length s + 2 \<le> n \<longrightarrow> parse_elems (Suc n) s = parse_elems n s) \<and>
   (\<forall>s. 2 * length s + 2 \<le> n \<longrightarrow> parse_membs (Suc n) s = parse_membs n s)"
proof (induction n)
  case (Suc n)
  then show ?case using parse_value_more [of n] parse_elems_more [of n] parse_membs_more [of n] by blast
qed simp

lemma parse_json_fuel: "json_fuel s \<le> n \<Longrightarrow> parse_value n s = parse_json s"
proof (induction n rule: dec_induct)
  case base
  then show ?case by (simp add: parse_json_def)
next
  case (step n)
  then show ?case using parse_more_fuel_all [of n] by (simp add: json_fuel_def)
qed

section \<open>Indent copies strings\<close>

lemma indent_run_append:
  "indent_run (a @ b) st =
   (case indent_run a st of (o1, st1) \<Rightarrow> (case indent_run b st1 of (o2, st2) \<Rightarrow> (o1 @ o2, st2)))"
  by (induction a arbitrary: st) (auto split: prod.splits)

lemma indent_run_literal:
  assumes "in_str st" and "\<not> in_esc st" and "CHR 0x22 \<notin> set s" and "CHR 0x5C \<notin> set s"
  shows "indent_run s st = (s, st)"
proof -
  have same: "st\<lparr>in_str := True, in_esc := False\<rparr> = st" using assms(1,2) by (cases st) simp
  show ?thesis using assms by (induction s) (auto simp: indent_step_def same)
qed

text \<open>A run of plain bytes inside a string literal is in the indented text as it is.\<close>

lemma Contains_Indent:
  assumes "json_Indent (a @ s @ b) = Inr out"
    and "in_str (snd (indent_run a indent_init))" and "\<not> in_esc (snd (indent_run a indent_init))"
    and "CHR 0x22 \<notin> set s" and "CHR 0x5C \<notin> set s"
  shows "\<exists>before after. out = before @ s @ after"
proof -
  obtain o1 st1 where a: "indent_run a indent_init = (o1, st1)" by (rule prod.exhaust)
  have s: "indent_run s st1 = (s, st1)" using assms a by (intro indent_run_literal) auto
  from assms(1) have "out = fst (indent_run (a @ s @ b) indent_init)"
    by (auto simp: json_Indent_def split: sum.splits)
  then show ?thesis by (auto simp: indent_run_append a s split: prod.splits)
qed

end
