(* ===== verification/Json_Print.thy ===== *)
theory Json_Print
  imports Json
begin

text \<open>
  \<open>json.Marshal\<close>: the text of a value, and the round trip: \<open>Unmarshal\<close> reads back what \<open>Marshal\<close> wrote, with
  the text of every member as its raw form. The keys of a Go map are written in ascending order; the
  callers list them so. Bytes above 127 are kept, as Go keeps valid UTF-8.
\<close>

section \<open>Printing\<close>

datatype jval =
    JvNull
  | JvBool bool
  | JvInt int
  | JvStr string
  | JvArr "jval list"
  | JvObj "(string \<times> jval) list"
  | JvNum string

text \<open>Quote, backslash and control characters are escaped, and so are the characters special in HTML.\<close>

definition json_escape :: "char \<Rightarrow> string" where
  "json_escape c =
     (if c = CHR 0x22 \<or> c = CHR 0x5C then [CHR 0x5C, c]
      else if c = CHR 0x08 then [CHR 0x5C, CHR ''b'']
      else if c = CHR 0x0C then [CHR 0x5C, CHR ''f'']
      else if c = CHR 0x0A then [CHR 0x5C, CHR ''n'']
      else if c = CHR 0x0D then [CHR 0x5C, CHR ''r'']
      else if c = CHR 0x09 then [CHR 0x5C, CHR ''t'']
      else if of_char c < (32 :: nat) \<or> c = CHR ''<'' \<or> c = CHR ''>'' \<or> c = CHR ''&''
        then CHR 0x5C # ''u00'' @ [hex_digit (of_char c div 16), hex_digit (of_char c mod 16)]
      else [c])"

definition json_quote :: "string \<Rightarrow> string" where
  "json_quote s = CHR 0x22 # concat (map json_escape s) @ [CHR 0x22]"

fun json_Marshal :: "jval \<Rightarrow> string"
  and marshal_elems :: "jval list \<Rightarrow> string"
  and marshal_membs :: "(string \<times> jval) list \<Rightarrow> string" where
  "json_Marshal JvNull = ''null''"
| "json_Marshal (JvBool b) = bool_str b"
| "json_Marshal (JvInt i) = int_str i"
| "json_Marshal (JvStr s) = json_quote s"
| "json_Marshal (JvArr vs) = ''['' @ marshal_elems vs @ '']''"
| "json_Marshal (JvObj ms) = ''{'' @ marshal_membs ms @ ''}''"
| "json_Marshal (JvNum s) = s"
| "marshal_elems [] = []"
| "marshal_elems (v # vs) = json_Marshal v @ (if vs = [] then [] else '','' @ marshal_elems vs)"
| "marshal_membs [] = []"
| "marshal_membs ((k, v) # ms) =
     json_quote k @ '':'' @ json_Marshal v @ (if ms = [] then [] else '','' @ marshal_membs ms)"

text \<open>The value that a reader of the text sees.\<close>

fun json_of :: "jval \<Rightarrow> json" where
  "json_of JvNull = JNull"
| "json_of (JvBool b) = JBool b"
| "json_of (JvInt i) = JNum (int_str i)"
| "json_of (JvStr s) = JStr s"
| "json_of (JvArr vs) = JArr (map json_of vs)"
| "json_of (JvObj ms) = JObj (map (\<lambda>(k, v). (k, json_Marshal v, json_of v)) ms)"
| "json_of (JvNum s) = JNum s"

section \<open>Strings\<close>

lemma hex_val_hex_digit: "n < 16 \<Longrightarrow> hex_val (hex_digit n) = Some n"
  by (auto simp: hex_digit_def hex_val_def Let_def)

lemma hex4_low:
  "n < 256 \<Longrightarrow> hex4 (CHR ''0'' # CHR ''0'' # hex_digit (n div 16) # hex_digit (n mod 16) # s) = Some (n, s)"
proof -
  assume "n < 256"
  then have "hex_val (hex_digit (n div 16)) = Some (n div 16)" "hex_val (hex_digit (n mod 16)) = Some (n mod 16)"
    by (simp_all add: hex_val_hex_digit)
  moreover have "hex_val (CHR ''0'') = Some 0" by code_simp
  ultimately show ?thesis by simp
qed

lemma unicode_escape_low:
  "of_char c < (128 :: nat) \<Longrightarrow>
   unicode_escape (CHR ''0'' # CHR ''0'' # hex_digit (of_char c div 16) # hex_digit (of_char c mod 16) # s) =
   Some ([c], s)"
  by (simp add: unicode_escape_def hex4_low utf8_def del: hex4.simps)

lemma parse_escaped: "parse_str (json_escape c @ s) = map_option (\<lambda>(v, r). (c # v, r)) (parse_str s)"
proof -
  let ?special = "[CHR 0x22, CHR 0x5C, CHR 0x08, CHR 0x0C, CHR 0x0A, CHR 0x0D, CHR 0x09]"
  let ?unicode = "of_char c < (32 :: nat) \<or> c = CHR ''<'' \<or> c = CHR ''>'' \<or> c = CHR ''&''"
  consider "c \<in> set ?special" | (u) "c \<notin> set ?special" "?unicode" | (plain) "c \<notin> set ?special" "\<not> ?unicode"
    by blast
  then show ?thesis
  proof cases
    case 1
    then show ?thesis
      unfolding set_simps insert_iff empty_iff by (elim disjE) (simp_all add: json_escape_def simple_escape_def)
  next
    case u
    then have "json_escape c = CHR 0x5C # ''u00'' @ [hex_digit (of_char c div 16), hex_digit (of_char c mod 16)]"
      by (simp add: json_escape_def)
    moreover have "of_char c < (128 :: nat)" using u(2) by (elim disjE) simp_all
    ultimately show ?thesis
      by (simp add: simple_escape_def unicode_escape_low case_prod_beta')
  next
    case plain
    then show ?thesis by (simp add: json_escape_def)
  qed
qed

lemma parse_quoted: "parse_str (concat (map json_escape s) @ CHR 0x22 # r) = Some (s, r)"
  by (induction s) (simp_all add: parse_escaped)

section \<open>Numbers\<close>

lemma digit_code: "of_char (digit n) = 48 + n mod (10 :: nat)"
  by (simp add: digit_def)

lemma is_digit_digit [simp]: "is_digit (digit n)"
  by (simp add: is_digit_def digit_code)

lemma nat_str_digits: "list_all is_digit (nat_str n)"
  by (induction n rule: nat_str.induct) (subst nat_str.simps, simp)

lemma nat_str_not_Nil [simp]: "nat_str n \<noteq> []"
  by (subst nat_str.simps) simp

lemma digits_nat_str: "digits_nat (nat_str n) = n"
proof (induction n rule: nat_str.induct)
  case (1 n)
  then show ?case
    by (subst nat_str.simps) (auto simp: digits_nat_def digit_code)
qed

lemma hd_nat_str: "hd (nat_str n) = CHR ''0'' \<longleftrightarrow> n = 0"
proof (induction n rule: nat_str.induct)
  case (1 n)
  have "digit n = CHR ''0'' \<longleftrightarrow> n mod 10 = 0"
    using digit_code [of n] of_char_eq_iff [of "digit n" "CHR ''0''", where 'a = nat] by auto
  with 1 show ?case by (subst nat_str.simps) auto
qed

lemma hd_nat_str_digit: "is_digit (hd (nat_str n))"
  using nat_str_digits [of n] by (cases "nat_str n") auto

lemma nat_str_0: "nat_str 0 = ''0''"
  by code_simp

text \<open>What follows a printed value: nothing, a line break, or the punctuation of an enclosing value.\<close>

definition json_end :: "string \<Rightarrow> bool" where
  "json_end r \<longleftrightarrow> r = [] \<or> hd r \<in> {CHR '','', CHR '']'', CHR ''}'', CHR 0x0A}"

lemma json_end_number: "json_end r \<Longrightarrow> number_frac r = Some ([], r) \<and> number_exp r = Some ([], r)"
proof (cases r)
  case (Cons c cs)
  assume "json_end r"
  then have "c = CHR '','' \<or> c = CHR '']'' \<or> c = CHR ''}'' \<or> c = CHR 0x0A" by (simp add: json_end_def Cons)
  then show ?thesis by (elim disjE) (simp_all add: Cons number_frac_def number_exp_def)
qed (simp add: number_frac_def number_exp_def)

lemma json_end_digit: "json_end r \<Longrightarrow> r \<noteq> [] \<Longrightarrow> \<not> is_digit (hd r)"
  by (auto simp: json_end_def is_digit_def)

lemma digits_split:
  assumes "list_all is_digit ds" and "json_end r"
  shows "takeWhile is_digit (ds @ r) = ds \<and> dropWhile is_digit (ds @ r) = r"
proof -
  have "takeWhile is_digit r = []" "dropWhile is_digit r = r"
    using json_end_digit [OF assms(2)] by (cases r; simp)+
  with assms(1) show ?thesis by (simp add: list_all_iff)
qed

lemma parse_num_nat_str:
  assumes "json_end r"
  shows "parse_num (nat_str n @ r) = Some (nat_str n, r)" "parse_num (CHR ''-'' # nat_str n @ r) = Some (CHR ''-'' # nat_str n, r)"
proof -
  have minus: "hd (nat_str n @ r) \<noteq> CHR ''-''"
    using hd_nat_str_digit [of n] by (auto simp: is_digit_def)
  have int: "(if nat_str n @ r \<noteq> [] \<and> hd (nat_str n @ r) = CHR ''0'' then (''0'', tl (nat_str n @ r))
    else (takeWhile is_digit (nat_str n @ r), dropWhile is_digit (nat_str n @ r))) = (nat_str n, r)"
    using digits_split [OF nat_str_digits assms] hd_nat_str [of n] by (auto simp: nat_str_0)
  show "parse_num (nat_str n @ r) = Some (nat_str n, r)"
    unfolding parse_num_def using minus int json_end_number [OF assms] by (simp add: Let_def)
  show "parse_num (CHR ''-'' # nat_str n @ r) = Some (CHR ''-'' # nat_str n, r)"
    unfolding parse_num_def using int json_end_number [OF assms] by (simp add: Let_def)
qed

lemma parse_num_int_str: "json_end r \<Longrightarrow> parse_num (int_str i @ r) = Some (int_str i, r)"
  by (simp add: int_str_def parse_num_nat_str)

definition int64 :: "int \<Rightarrow> bool" where
  "int64 i \<longleftrightarrow> - (2 ^ 63) \<le> i \<and> i < 2 ^ 63"

lemma parse_int64_int_str: "parse_int64 (int_str i) = (if int64 i then Some i else None)"
  using hd_nat_str_digit [of "nat i"] nat_str_digits
  by (auto simp: parse_int64_def int_str_def int64_def Let_def digits_nat_str is_digit_def)

text \<open>A number literal in full, in front of the end of its value.\<close>

definition num_ok :: "string \<Rightarrow> bool" where
  "num_ok s \<longleftrightarrow> parse_num s = Some (s, [])"

lemma digits_append:
  assumes "json_end r"
  shows "takeWhile is_digit (u @ r) = takeWhile is_digit u" "dropWhile is_digit (u @ r) = dropWhile is_digit u @ r"
proof -
  have "takeWhile is_digit r = []" "dropWhile is_digit r = r"
    using json_end_digit [OF assms] by (cases r; simp)+
  then show "takeWhile is_digit (u @ r) = takeWhile is_digit u" "dropWhile is_digit (u @ r) = dropWhile is_digit u @ r"
    by (induction u) auto
qed

lemma number_frac_append: "json_end r \<Longrightarrow> number_frac u = Some (f, v) \<Longrightarrow> number_frac (u @ r) = Some (f, v @ r)"
proof (cases u)
  case Nil
  assume "json_end r" "number_frac u = Some (f, v)"
  then show ?thesis using Nil json_end_number by (simp add: number_frac_def)
next
  case (Cons c t)
  assume "json_end r" "number_frac u = Some (f, v)"
  then show ?thesis
    by (cases "c = CHR ''.''") (auto simp: Cons number_frac_def digits_append split: char.splits bool.splits if_splits)
qed

lemma number_exp_append: "json_end r \<Longrightarrow> number_exp u = Some (f, v) \<Longrightarrow> number_exp (u @ r) = Some (f, v @ r)"
proof (cases u)
  case Nil
  assume "json_end r" "number_exp u = Some (f, v)"
  then show ?thesis using Nil json_end_number by (simp add: number_exp_def)
next
  case (Cons c t)
  assume "json_end r" "number_exp u = Some (f, v)"
  then show ?thesis
    by (cases t) (auto simp: Cons number_exp_def Let_def digits_append split: if_splits)
qed

text \<open>The integer part of a number, behind its sign.\<close>

definition number_int :: "string \<Rightarrow> string \<times> string" where
  "number_int t =
     (if t \<noteq> [] \<and> hd t = CHR ''0'' then (''0'', tl t) else (takeWhile is_digit t, dropWhile is_digit t))"

lemma number_int_append:
  "json_end r \<Longrightarrow> number_int t = (i, u) \<Longrightarrow> i \<noteq> [] \<Longrightarrow> number_int (t @ r) = (i, u @ r)"
  by (cases t) (auto simp: number_int_def digits_append split: if_splits)

definition number_sign :: "string \<Rightarrow> string \<times> string" where
  "number_sign s = (if s \<noteq> [] \<and> hd s = CHR ''-'' then (''-'', tl s) else ([], s))"

lemma parse_num_split:
  "parse_num s =
   (case number_sign s of (sign, t) \<Rightarrow> (case number_int t of (i, u) \<Rightarrow>
      if i = [] then None
      else (case number_frac u of None \<Rightarrow> None | Some (f, w) \<Rightarrow>
             (case number_exp w of None \<Rightarrow> None | Some (x, r) \<Rightarrow> Some (sign @ i @ f @ x, r)))))"
  by (simp add: parse_num_def number_sign_def number_int_def)

lemma parse_num_E:
  assumes "parse_num s = Some (v, r)"
  obtains sign t i u f w x where "number_sign s = (sign, t)" "number_int t = (i, u)" "i \<noteq> []"
    "number_frac u = Some (f, w)" "number_exp w = Some (x, r)" "v = sign @ i @ f @ x"
  using assms by (auto simp: parse_num_split split: prod.splits if_splits option.splits)

lemma number_int_hd: "number_int t = (i, u) \<Longrightarrow> i \<noteq> [] \<Longrightarrow> t \<noteq> [] \<and> is_digit (hd t)"
  by (cases t) (auto simp: number_int_def is_digit_def split: if_splits)

lemma number_sign_append: "number_sign s = (sign, t) \<Longrightarrow> t \<noteq> [] \<Longrightarrow> number_sign (s @ r) = (sign, t @ r)"
  by (cases s) (auto simp: number_sign_def split: if_splits)

lemma parse_num_append:
  assumes "json_end r" and "parse_num s = Some (v, q)"
  shows "parse_num (s @ r) = Some (v, q @ r)"
  using assms(2)
proof (rule parse_num_E)
  fix sign t i u f w x
  assume p: "number_sign s = (sign, t)" "number_int t = (i, u)" "i \<noteq> []" "number_frac u = Some (f, w)"
    "number_exp w = Some (x, q)" "v = sign @ i @ f @ x"
  have "number_sign (s @ r) = (sign, t @ r)" using number_sign_append p(1) number_int_hd [OF p(2,3)] by blast
  then show ?thesis
    using number_int_append [OF assms(1) p(2,3)] number_frac_append [OF assms(1) p(4)]
      number_exp_append [OF assms(1) p(5)] p(3,6)
    by (simp add: parse_num_split)
qed

lemma parse_num_ok: "num_ok s \<Longrightarrow> json_end r \<Longrightarrow> parse_num (s @ r) = Some (s, r)"
  using parse_num_append by (fastforce simp: num_ok_def)

text \<open>A literal starts with a digit or a minus, and its bytes are digits, signs, a point and an exponent mark.\<close>

lemma num_ok_hd:
  assumes "num_ok s"
  shows "\<exists>c cs. s = c # cs \<and> (c = CHR ''-'' \<or> is_digit c)"
  using assms unfolding num_ok_def
proof (rule parse_num_E)
  fix sign t i u
  assume "number_sign s = (sign, t)" "number_int t = (i, u)" "i \<noteq> []"
  with number_int_hd [of t i u] show ?thesis by (cases s) (auto simp: number_sign_def split: if_splits)
qed

definition number_byte :: "char \<Rightarrow> bool" where
  "number_byte c \<longleftrightarrow> is_digit c \<or> c \<in> {CHR ''-'', CHR ''+'', CHR ''.'', CHR ''e'', CHR ''E''}"

lemma number_byte_simps [simp]: "is_digit c \<Longrightarrow> number_byte c" "number_byte (CHR ''-'')" "number_byte (CHR ''+'')"
    "number_byte (CHR ''.'')" "number_byte (CHR ''e'')" "number_byte (CHR ''E'')" "number_byte (CHR ''0'')"
  by (simp_all add: number_byte_def is_digit_def)

lemma number_bytes_parts:
  "number_int t = (i, u) \<Longrightarrow> list_all number_byte i" "number_frac u = Some (f, w) \<Longrightarrow> list_all number_byte f"
  "number_exp w = Some (x, r) \<Longrightarrow> list_all number_byte x"
proof -
  have d [simp]: "list_all number_byte (takeWhile is_digit z)" for z
    by (auto simp: list_all_iff dest: set_takeWhileD)
  show "number_int t = (i, u) \<Longrightarrow> list_all number_byte i"
    by (auto simp: number_int_def split: if_splits)
  show "number_frac u = Some (f, w) \<Longrightarrow> list_all number_byte f"
    by (auto simp: number_frac_def split: list.splits char.splits bool.splits if_splits)
  show "number_exp w = Some (x, r) \<Longrightarrow> list_all number_byte x"
    by (auto simp: number_exp_def Let_def split: if_splits)
qed

lemma num_ok_bytes: "num_ok s \<Longrightarrow> list_all number_byte s"
  unfolding num_ok_def
proof (erule parse_num_E)
  fix sign t i u f w x
  assume "number_sign s = (sign, t)" "number_int t = (i, u)" "number_frac u = Some (f, w)"
    "number_exp w = Some (x, [])" "s = sign @ i @ f @ x"
  moreover from this(1) have "list_all number_byte sign" by (auto simp: number_sign_def split: if_splits)
  ultimately show ?thesis using number_bytes_parts by simp
qed

fun jval_ok :: "jval \<Rightarrow> bool" where
  "jval_ok (JvArr vs) = list_all jval_ok vs"
| "jval_ok (JvObj ms) = list_all (\<lambda>(k, v). jval_ok v) ms"
| "jval_ok (JvNum s) = num_ok s"
| "jval_ok _ = True"

section \<open>Layout\<close>

text \<open>
  The text of a value with space between its parts: \<open>nl d\<close> before an element or a closing bracket at
  depth \<open>d\<close>, \<open>gap\<close> behind a colon. \<open>Marshal\<close> leaves both empty, \<open>MarshalIndent\<close> breaks the lines.
\<close>

fun show_value :: "(nat \<Rightarrow> string) \<Rightarrow> string \<Rightarrow> nat \<Rightarrow> jval \<Rightarrow> string"
  and show_elems :: "(nat \<Rightarrow> string) \<Rightarrow> string \<Rightarrow> nat \<Rightarrow> jval list \<Rightarrow> string"
  and show_membs :: "(nat \<Rightarrow> string) \<Rightarrow> string \<Rightarrow> nat \<Rightarrow> (string \<times> jval) list \<Rightarrow> string" where
  "show_value nl gap d JvNull = ''null''"
| "show_value nl gap d (JvBool b) = bool_str b"
| "show_value nl gap d (JvInt i) = int_str i"
| "show_value nl gap d (JvStr s) = json_quote s"
| "show_value nl gap d (JvArr vs) =
     (if vs = [] then ''[]'' else ''['' @ nl (Suc d) @ show_elems nl gap (Suc d) vs @ nl d @ '']'')"
| "show_value nl gap d (JvObj ms) =
     (if ms = [] then ''{}'' else ''{'' @ nl (Suc d) @ show_membs nl gap (Suc d) ms @ nl d @ ''}'')"
| "show_value nl gap d (JvNum s) = s"
| "show_elems nl gap d [] = []"
| "show_elems nl gap d (v # vs) =
     show_value nl gap d v @ (if vs = [] then [] else '','' @ nl d @ show_elems nl gap d vs)"
| "show_membs nl gap d [] = []"
| "show_membs nl gap d ((k, v) # ms) =
     json_quote k @ '':'' @ gap @ show_value nl gap d v @
     (if ms = [] then [] else '','' @ nl d @ show_membs nl gap d ms)"

text \<open>The value that a reader of the text sees, with the text of each member.\<close>

fun shown :: "(nat \<Rightarrow> string) \<Rightarrow> string \<Rightarrow> nat \<Rightarrow> jval \<Rightarrow> json" where
  "shown nl gap d JvNull = JNull"
| "shown nl gap d (JvBool b) = JBool b"
| "shown nl gap d (JvInt i) = JNum (int_str i)"
| "shown nl gap d (JvStr s) = JStr s"
| "shown nl gap d (JvArr vs) = JArr (map (shown nl gap (Suc d)) vs)"
| "shown nl gap d (JvObj ms) =
     JObj (map (\<lambda>(k, v). (k, show_value nl gap (Suc d) v, shown nl gap (Suc d) v)) ms)"
| "shown nl gap d (JvNum s) = JNum s"

lemma show_compact:
  "show_value (\<lambda>_. []) [] d v = json_Marshal v" "show_elems (\<lambda>_. []) [] d vs = marshal_elems vs"
  "show_membs (\<lambda>_. []) [] d ms = marshal_membs ms"
  by (induction v and vs and ms arbitrary: d and d and d rule: json_Marshal_marshal_elems_marshal_membs.induct)
     (auto split: if_splits)

lemma shown_compact: "shown (\<lambda>_. []) [] d v = json_of v"
  by (induction v arbitrary: d rule: json_of.induct) (auto simp: show_compact)

section \<open>The round trip\<close>

text \<open>A printed value starts with neither space nor a closing bracket, and its first byte tells its kind.\<close>

lemma skip_ws_Cons: "\<not> is_ws c \<Longrightarrow> skip_ws (c # cs) = c # cs"
  by (simp add: skip_ws_def)

lemma skip_ws_append: "list_all is_ws w \<Longrightarrow> skip_ws (w @ s) = skip_ws s"
  by (simp add: skip_ws_def list_all_iff dropWhile_append2)

lemma parse_skip:
  assumes "list_all is_ws w"
  shows "parse_value n (w @ s) = parse_value n s" "parse_membs n (w @ s) = parse_membs n s"
  using skip_ws_append [OF assms] by (cases n; simp add: parse_value.simps parse_membs.simps)+

lemma parse_elems_skip: "list_all is_ws w \<Longrightarrow> parse_elems n (w @ s) = parse_elems n s"
  by (cases n) (simp_all add: parse_elems.simps parse_skip)

lemma int_str_hd: "\<exists>c cs. int_str i = c # cs \<and> (c = CHR ''-'' \<or> is_digit c)"
proof (cases "i < 0")
  case False
  then show ?thesis using hd_nat_str_digit [of "nat i"] by (cases "nat_str (nat i)") (auto simp: int_str_def)
qed (simp add: int_str_def)

lemma number_start:
  assumes "c = CHR ''-'' \<or> is_digit c"
  shows "\<not> is_ws c" "c \<noteq> CHR ''{''" "c \<noteq> CHR ''[''" "c \<noteq> CHR ''t''" "c \<noteq> CHR ''f''" "c \<noteq> CHR ''n''"
    "c \<noteq> CHR '']''" "c \<noteq> CHR 0x22"
proof -
  have d: "45 \<le> (of_char c :: nat) \<and> (of_char c :: nat) \<le> 57"
    using assms by (elim disjE) (simp_all add: is_digit_def)
  show "\<not> is_ws c" using d by (auto simp: is_ws_def)
  show "c \<noteq> CHR ''{''" "c \<noteq> CHR ''[''" "c \<noteq> CHR ''t''" "c \<noteq> CHR ''f''" "c \<noteq> CHR ''n''"
    "c \<noteq> CHR '']''" "c \<noteq> CHR 0x22"
    by (rule notI, use d in simp)+
qed

lemma show_value_hd: "jval_ok v \<Longrightarrow> \<exists>c cs. show_value nl gap d v = c # cs \<and> \<not> is_ws c \<and> c \<noteq> CHR '']''"
proof (cases v)
  case (JvNum s)
  assume "jval_ok v"
  then obtain c cs where c: "s = c # cs" "c = CHR ''-'' \<or> is_digit c" using num_ok_hd [of s] JvNum by auto
  then show ?thesis using JvNum number_start(1,7) [OF c(2)] by simp
next
  case (JvInt i)
  obtain c cs where c: "int_str i = c # cs" "c = CHR ''-'' \<or> is_digit c" using int_str_hd by blast
  then show ?thesis using JvInt number_start(1,7) [OF c(2)] by simp
qed (auto simp: bool_str_def json_quote_def is_ws_def)

lemma show_elems_hd: "list_all jval_ok vs \<Longrightarrow> vs \<noteq> [] \<Longrightarrow> \<exists>c cs. show_elems nl gap d vs = c # cs \<and> \<not> is_ws c \<and> c \<noteq> CHR '']''"
  using show_value_hd by (cases vs) (auto, metis append_Cons)

lemma show_membs_hd: "ms \<noteq> [] \<Longrightarrow> \<exists>cs. show_membs nl gap d ms = CHR 0x22 # cs"
  by (cases ms) (auto simp: json_quote_def)

lemma skip_ws_show: "jval_ok v \<Longrightarrow> skip_ws (show_value nl gap d v @ r) = show_value nl gap d v @ r"
  using show_value_hd [of v nl gap d] by (auto simp: skip_ws_Cons)

lemma parse_quote: "parse_value (Suc n) (json_quote s @ r) = Some (JStr s, r)"
  by (simp add: parse_value.simps json_quote_def skip_ws_Cons is_ws_def parse_quoted)

lemma parse_int:
  assumes "json_end r"
  shows "parse_value (Suc n) (int_str i @ r) = Some (JNum (int_str i), r)"
proof -
  obtain c cs where c: "int_str i = c # cs" "c = CHR ''-'' \<or> is_digit c" using int_str_hd by blast
  have "parse_num (c # cs @ r) = Some (int_str i, r)" using parse_num_int_str [OF assms, of i] c(1) by simp
  then show ?thesis using number_start [OF c(2)] by (simp add: parse_value.simps c(1) skip_ws_Cons)
qed

lemma parse_literal:
  assumes "num_ok s" and "json_end r"
  shows "parse_value (Suc n) (s @ r) = Some (JNum s, r)"
proof -
  obtain c cs where c: "s = c # cs" "c = CHR ''-'' \<or> is_digit c" using num_ok_hd [OF assms(1)] by blast
  have "parse_num (c # cs @ r) = Some (s, r)" using parse_num_ok [OF assms] c(1) by simp
  then show ?thesis using number_start [OF c(2)] by (simp add: parse_value.simps c(1) skip_ws_Cons)
qed

lemma slice_append: "slice (a @ r) r = a"
  by (simp add: slice_def)

text \<open>
  What a layout has to promise: only space, and a line break before anything else where a value ends.
  Every value shown in such a layout is read back.
\<close>

locale json_layout =
  fixes nl :: "nat \<Rightarrow> string" and gap :: string
  assumes nl_ws: "list_all is_ws (nl d)" and nl_end: "nl d = [] \<or> hd (nl d) = CHR 0x0A"
    and gap_ws: "list_all is_ws gap"
begin

abbreviation "membs_of d \<equiv> map (\<lambda>(k, v). (k, show_value nl gap d v, shown nl gap d v))"

text \<open>What follows the first element of an array, and the first member of an object.\<close>

definition elems_rest :: "nat \<Rightarrow> jval list \<Rightarrow> string \<Rightarrow> string" where
  "elems_rest d vs r = (if vs = [] then [] else CHR '','' # nl d @ show_elems nl gap d vs) @ r"

definition membs_rest :: "nat \<Rightarrow> (string \<times> jval) list \<Rightarrow> string \<Rightarrow> string" where
  "membs_rest d ms r = (if ms = [] then [] else CHR '','' # nl d @ show_membs nl gap d ms) @ r"

text \<open>The end of an enclosing value: a bracket, behind space.\<close>

definition closes :: "char \<Rightarrow> string \<Rightarrow> string \<Rightarrow> bool" where
  "closes b q r \<longleftrightarrow> (\<exists>d. q = nl d @ b # r)"

lemma closes_end: "closes b q r \<Longrightarrow> b = CHR '']'' \<or> b = CHR ''}'' \<Longrightarrow> json_end q"
proof -
  assume "closes b q r" and b: "b = CHR '']'' \<or> b = CHR ''}''"
  then obtain d where "q = nl d @ b # r" by (auto simp: closes_def)
  with nl_end [of d] b show ?thesis by (auto simp: json_end_def hd_append)
qed

lemma closes_skip: "closes b q r \<Longrightarrow> \<not> is_ws b \<Longrightarrow> skip_ws q = b # r"
  using nl_ws by (auto simp: closes_def skip_ws_append skip_ws_Cons)

lemma json_end_rest:
  "closes (CHR '']'') q r \<Longrightarrow> json_end (elems_rest d vs q)" "closes (CHR ''}'') q r \<Longrightarrow> json_end (membs_rest d ms q)"
  using closes_end by (auto simp: json_end_def elems_rest_def membs_rest_def)

lemma parse_array:
  assumes ok: "list_all jval_ok vs"
    and elems: "\<And>q. vs \<noteq> [] \<Longrightarrow> q = nl d @ CHR '']'' # r \<Longrightarrow>
      parse_elems n (show_elems nl gap (Suc d) vs @ q) = Some (map (shown nl gap (Suc d)) vs, r)"
  shows "parse_value (Suc n) (show_value nl gap d (JvArr vs) @ r) = Some (shown nl gap d (JvArr vs), r)"
proof (cases "vs = []")
  case True
  then show ?thesis by (simp add: parse_value.simps skip_ws_Cons is_ws_def)
next
  case False
  then obtain c cs where "show_elems nl gap (Suc d) vs = c # cs" "\<not> is_ws c" "c \<noteq> CHR '']''"
    using show_elems_hd [OF ok] by blast
  with elems [OF False refl] show ?thesis
    by (simp add: parse_value.simps skip_ws_Cons skip_ws_append parse_elems_skip nl_ws is_ws_def)
qed

lemma parse_object:
  assumes "\<And>q. ms \<noteq> [] \<Longrightarrow> q = nl d @ CHR ''}'' # r \<Longrightarrow>
      parse_membs n (show_membs nl gap (Suc d) ms @ q) = Some (membs_of (Suc d) ms, r)"
  shows "parse_value (Suc n) (show_value nl gap d (JvObj ms) @ r) = Some (shown nl gap d (JvObj ms), r)"
proof (cases "ms = []")
  case True
  then show ?thesis by (simp add: parse_value.simps skip_ws_Cons is_ws_def)
next
  case False
  then obtain cs where "show_membs nl gap (Suc d) ms = CHR 0x22 # cs" using show_membs_hd by blast
  with assms [OF False refl] show ?thesis
    by (simp add: parse_value.simps skip_ws_Cons skip_ws_append parse_skip nl_ws is_ws_def)
qed

lemma parse_elems_Cons:
  assumes "parse_value n (show_value nl gap d v @ elems_rest d vs q) = Some (shown nl gap d v, elems_rest d vs q)"
    and "vs \<noteq> [] \<Longrightarrow> parse_elems n (show_elems nl gap d vs @ q) = Some (map (shown nl gap d) vs, r)"
    and "closes (CHR '']'') q r"
  shows "parse_elems (Suc n) (show_elems nl gap d (v # vs) @ q) = Some (map (shown nl gap d) (v # vs), r)"
  using assms closes_skip [OF assms(3)]
  by (auto simp: parse_elems.simps elems_rest_def skip_ws_Cons parse_elems_skip nl_ws is_ws_def)

lemma parse_membs_Cons:
  assumes "parse_value n (show_value nl gap d v @ membs_rest d ms q) = Some (shown nl gap d v, membs_rest d ms q)"
    and "ms \<noteq> [] \<Longrightarrow> parse_membs n (show_membs nl gap d ms @ q) = Some (membs_of d ms, r)"
    and "closes (CHR ''}'') q r" and "jval_ok v"
  shows "parse_membs (Suc n) (show_membs nl gap d ((k, v) # ms) @ q) = Some (membs_of d ((k, v) # ms), r)"
proof -
  have "show_membs nl gap d ((k, v) # ms) @ q =
      CHR 0x22 # concat (map json_escape k) @ CHR 0x22 # CHR '':'' # gap @ show_value nl gap d v @ membs_rest d ms q"
    by (simp add: json_quote_def membs_rest_def)
  with assms closes_skip [OF assms(3)] slice_append [of "show_value nl gap d v" "membs_rest d ms q"] show ?thesis
    by (auto simp: parse_membs.simps skip_ws_Cons is_ws_def parse_quoted skip_ws_show membs_rest_def
        skip_ws_append parse_skip gap_ws nl_ws simp del: show_membs.simps)
qed

lemma show_parse:
  "jval_ok v \<Longrightarrow> json_end r \<Longrightarrow> 2 * length (show_value nl gap d v @ r) + 1 \<le> n \<Longrightarrow>
     parse_value n (show_value nl gap d v @ r) = Some (shown nl gap d v, r)"
  "list_all jval_ok vs \<Longrightarrow> vs \<noteq> [] \<Longrightarrow> closes (CHR '']'') q r \<Longrightarrow> 2 * length (show_elems nl gap d vs @ q) + 2 \<le> n \<Longrightarrow>
     parse_elems n (show_elems nl gap d vs @ q) = Some (map (shown nl gap d) vs, r)"
  "list_all (\<lambda>(k, v). jval_ok v) ms \<Longrightarrow> ms \<noteq> [] \<Longrightarrow> closes (CHR ''}'') q r \<Longrightarrow> 2 * length (show_membs nl gap d ms @ q) + 2 \<le> n \<Longrightarrow>
     parse_membs n (show_membs nl gap d ms @ q) = Some (membs_of d ms, r)"
proof (induction v and vs and ms arbitrary: d r n and d q r n and d q r n
    rule: json_Marshal_marshal_elems_marshal_membs.induct)
  case 1
  then show ?case by (cases n) (simp_all add: parse_value.simps skip_ws_Cons is_ws_def parse_lit_def HasPrefix_def)
next
  case (2 b)
  then show ?case
    by (cases n) (auto simp: parse_value.simps skip_ws_Cons is_ws_def parse_lit_def HasPrefix_def bool_str_def)
next
  case (3 i)
  then show ?case by (cases n) (simp_all add: parse_int)
next
  case (4 s)
  then show ?case by (cases n) (simp_all add: parse_quote)
next
  case (5 vs)
  then obtain m where n: "n = Suc m" by (cases n) auto
  show ?case unfolding n by (rule parse_array, use 5 in simp, rule 5(1)) (use 5 n in \<open>auto simp: closes_def\<close>)
next
  case (6 ms)
  then obtain m where n: "n = Suc m" by (cases n) auto
  show ?case unfolding n by (rule parse_object, rule 6(1)) (use 6 n in \<open>auto simp: closes_def\<close>)
next
  case (7 s)
  then show ?case by (cases n) (simp_all add: parse_literal)
next
  case (9 v vs)
  then obtain m where n: "n = Suc m" by (cases n) auto
  have "parse_value m (show_value nl gap d v @ elems_rest d vs q) = Some (shown nl gap d v, elems_rest d vs q)"
    using 9 n by (intro 9(1) json_end_rest) (auto simp: elems_rest_def)
  then show ?case unfolding n by (rule parse_elems_Cons) (use 9 n in auto)
next
  case (11 k v ms)
  then obtain m where n: "n = Suc m" by (cases n) auto
  have "parse_value m (show_value nl gap d v @ membs_rest d ms q) = Some (shown nl gap d v, membs_rest d ms q)"
    using 11 n by (intro 11(1) json_end_rest) (auto simp: membs_rest_def)
  then show ?case unfolding n by (rule parse_membs_Cons) (use 11 n in auto)
qed simp_all

lemma Unmarshal_show:
  assumes "jval_ok v" and "json_end r" and "skip_ws r = []"
  shows "json_Unmarshal (show_value nl gap d v @ r) = Inr (shown nl gap d v)"
  using show_parse(1) [OF assms(1,2) order_refl, of d] assms(3)
  by (simp add: json_Unmarshal_def parse_json_def json_fuel_def)

end

interpretation compact: json_layout "\<lambda>_. []" "[]"
  by unfold_locales auto

interpretation indented: json_layout indent_newline "'' ''"
  by unfold_locales (auto simp: indent_newline_def is_ws_def list_all_iff)

text \<open>\<open>Unmarshal\<close> undoes \<open>Marshal\<close>, with or without the line break of an \<open>Encoder\<close>.\<close>

lemma Unmarshal_Marshal:
  assumes "jval_ok v" and "json_end r" and "skip_ws r = []"
  shows "json_Unmarshal (json_Marshal v @ r) = Inr (json_of v)"
  using compact.Unmarshal_show [OF assms, of 0] by (simp add: show_compact shown_compact)

lemma Unmarshal_Marshal_plain: "jval_ok v \<Longrightarrow> json_Unmarshal (json_Marshal v) = Inr (json_of v)"
  using Unmarshal_Marshal [of v "[]"] by (simp add: json_end_def skip_ws_def)

section \<open>Strings of an indented text\<close>

text \<open>
  \<open>Indent\<close> scans a printed value and is outside every string behind it; within it, each string
  value that needs no escapes is met inside a string.
\<close>

definition outside :: "indent_state \<Rightarrow> bool" where
  "outside st \<longleftrightarrow> \<not> in_str st \<and> \<not> in_esc st"

definition inside :: "indent_state \<Rightarrow> bool" where
  "inside st \<longleftrightarrow> in_str st \<and> \<not> in_esc st"

abbreviation after_indent :: "string \<Rightarrow> indent_state \<Rightarrow> indent_state" where
  "after_indent s st \<equiv> snd (indent_run s st)"

lemma after_indent_append: "after_indent (a @ b) st = after_indent b (after_indent a st)"
  by (simp add: indent_run_append split: prod.split)

lemma after_indent_Cons: "after_indent (c # cs) st = after_indent cs (snd (indent_step c st))"
  by (simp split: prod.split)

lemma outside_step: "outside st \<Longrightarrow> c \<noteq> CHR 0x22 \<Longrightarrow> outside (snd (indent_step c st))"
  by (auto simp: outside_def indent_step_def Let_def)

lemma quote_step:
  "outside st \<Longrightarrow> inside (snd (indent_step (CHR 0x22) st))" "inside st \<Longrightarrow> outside (snd (indent_step (CHR 0x22) st))"
  by (auto simp: inside_def outside_def indent_step_def Let_def is_ws_def)

lemma outside_run: "outside st \<Longrightarrow> CHR 0x22 \<notin> set s \<Longrightarrow> outside (after_indent s st)"
  by (induction s arbitrary: st) (auto simp: after_indent_Cons outside_step simp del: indent_run.simps(2))

lemma inside_step: "inside st \<Longrightarrow> c \<noteq> CHR 0x22 \<Longrightarrow> c \<noteq> CHR 0x5C \<Longrightarrow> inside (snd (indent_step c st))"
  by (simp add: inside_def indent_step_def)

lemma inside_two_steps: "inside st \<Longrightarrow> inside (snd (indent_step c (snd (indent_step (CHR 0x5C) st))))"
  by (auto simp: inside_def indent_step_def)

lemma hex_digit_plain: "n < 16 \<Longrightarrow> hex_digit n \<noteq> CHR 0x22 \<and> hex_digit n \<noteq> CHR 0x5C"
proof -
  assume "n < 16"
  then have "48 \<le> (of_char (hex_digit n) :: nat)" "(of_char (hex_digit n) :: nat) \<noteq> 92"
    by (auto simp: hex_digit_def)
  then show ?thesis by auto
qed

lemma inside_escape: "inside st \<Longrightarrow> inside (after_indent (json_escape c) st)"
  unfolding json_escape_def
  by (auto simp: after_indent_Cons inside_two_steps inside_step hex_digit_plain simp del: indent_run.simps(2))

lemma inside_escapes: "inside st \<Longrightarrow> inside (after_indent (concat (map json_escape s)) st)"
  by (induction s arbitrary: st) (simp_all add: after_indent_append inside_escape)

lemma outside_quote: "outside st \<Longrightarrow> outside (after_indent (json_quote s) st)"
  by (simp add: json_quote_def after_indent_Cons after_indent_append quote_step inside_escapes
      del: indent_run.simps(2))

lemma int_str_no_quote: "CHR 0x22 \<notin> set (int_str i)"
proof -
  have "is_digit c" if "c \<in> set (nat_str n)" for c n using nat_str_digits [of n] that by (simp add: list_all_iff)
  moreover have "\<not> is_digit (CHR 0x22)" by code_simp
  ultimately show ?thesis by (auto simp: int_str_def)
qed

lemma num_ok_no_quote: "num_ok s \<Longrightarrow> CHR 0x22 \<notin> set s"
  using num_ok_bytes [of s] by (auto simp: list_all_iff number_byte_def is_digit_def)

lemma outside_Marshal:
  "jval_ok v \<Longrightarrow> outside st \<Longrightarrow> outside (after_indent (json_Marshal v) st)"
  "list_all jval_ok vs \<Longrightarrow> outside st \<Longrightarrow> outside (after_indent (marshal_elems vs) st)"
  "list_all (\<lambda>(k, v). jval_ok v) ms \<Longrightarrow> outside st \<Longrightarrow> outside (after_indent (marshal_membs ms) st)"
proof (induction v and vs and ms arbitrary: st and st and st
    rule: json_Marshal_marshal_elems_marshal_membs.induct)
  case (2 b)
  then show ?case by (simp add: bool_str_def outside_run del: indent_run.simps(2))
next
  case (3 i)
  then show ?case by (simp add: int_str_no_quote outside_run)
next
  case (7 s)
  then show ?case by (simp add: num_ok_no_quote outside_run)
qed (simp_all add: after_indent_append after_indent_Cons outside_step outside_quote del: indent_run.simps(2))

lemma outside_Marshal_comma: "jval_ok v \<Longrightarrow> outside st \<Longrightarrow> outside (after_indent (json_Marshal v @ '','') st)"
  by (simp add: after_indent_append outside_Marshal outside_step split: prod.split)

text \<open>The string values of a value, at any depth; the names of members are not among them.\<close>

fun strings_of :: "jval \<Rightarrow> string set"
  and strings_elems :: "jval list \<Rightarrow> string set"
  and strings_membs :: "(string \<times> jval) list \<Rightarrow> string set" where
  "strings_of (JvStr s) = {s}"
| "strings_of (JvArr vs) = strings_elems vs"
| "strings_of (JvObj ms) = strings_membs ms"
| "strings_of _ = {}"
| "strings_elems [] = {}"
| "strings_elems (v # vs) = strings_of v \<union> strings_elems vs"
| "strings_membs [] = {}"
| "strings_membs ((k, v) # ms) = strings_of v \<union> strings_membs ms"

definition ascii :: "string \<Rightarrow> bool" where
  "ascii s \<longleftrightarrow> list_all (\<lambda>c. of_char c < (128 :: nat)) s"

definition escape_free :: "string \<Rightarrow> bool" where
  "escape_free s \<longleftrightarrow> ascii s \<and> list_all (\<lambda>c. json_escape c = [c]) s"

lemma escape_free_concat: "escape_free s \<Longrightarrow> concat (map json_escape s) = s"
  by (induction s) (auto simp: escape_free_def ascii_def)

lemma escape_free_plain: "escape_free s \<Longrightarrow> CHR 0x22 \<notin> set s \<and> CHR 0x5C \<notin> set s"
  by (auto simp: escape_free_def list_all_iff json_escape_def)

definition met_inside :: "string \<Rightarrow> string \<Rightarrow> indent_state \<Rightarrow> bool" where
  "met_inside s text st \<longleftrightarrow> (\<exists>a b. text = a @ s @ b \<and> inside (after_indent a st))"

lemma met_inside_prepend: "met_inside s text (after_indent p st) \<Longrightarrow> met_inside s (p @ text) st"
  unfolding met_inside_def by (metis after_indent_append append.assoc)

lemma met_inside_append: "met_inside s text st \<Longrightarrow> met_inside s (text @ q) st"
  unfolding met_inside_def by (metis append.assoc)

lemma met_inside_quote:
  assumes "outside st" and "escape_free s"
  shows "met_inside s (json_quote s) st"
proof -
  have "inside (after_indent [CHR 0x22] st)"
    using assms(1) by (simp add: after_indent_Cons quote_step del: indent_run.simps(2))
  then have "met_inside s (s @ [CHR 0x22]) (after_indent [CHR 0x22] st)"
    unfolding met_inside_def by (metis append_Nil indent_run.simps(1) snd_conv)
  from met_inside_prepend [OF this] show ?thesis
    using assms(2) by (simp add: json_quote_def escape_free_concat)
qed

text \<open>Brackets around a text, and a separator behind a value, leave the scan outside.\<close>

lemma met_inside_wrap:
  assumes "met_inside s text (after_indent [c] st)"
  shows "met_inside s (c # text @ q) st"
  using met_inside_append [OF met_inside_prepend [OF assms], of q] by simp

lemma outside_single: "outside st \<Longrightarrow> c \<noteq> CHR 0x22 \<Longrightarrow> outside (after_indent [c] st)"
  by (simp add: outside_step split: prod.split)

lemma met_inside_memb:
  assumes "outside st" and "met_inside s (json_Marshal v @ q) (after_indent (json_quote k @ '':'') st)"
  shows "met_inside s (json_quote k @ '':'' @ json_Marshal v @ q) st"
  using met_inside_prepend [OF assms(2)] by simp

lemma Marshal_strings:
  "jval_ok v \<Longrightarrow> outside st \<Longrightarrow> escape_free s \<Longrightarrow> s \<in> strings_of v \<Longrightarrow> met_inside s (json_Marshal v) st"
  "list_all jval_ok vs \<Longrightarrow> outside st \<Longrightarrow> escape_free s \<Longrightarrow> s \<in> strings_elems vs \<Longrightarrow> met_inside s (marshal_elems vs) st"
  "list_all (\<lambda>(k, v). jval_ok v) ms \<Longrightarrow> outside st \<Longrightarrow> escape_free s \<Longrightarrow> s \<in> strings_membs ms \<Longrightarrow> met_inside s (marshal_membs ms) st"
proof (induction v and vs and ms arbitrary: st and st and st
    rule: json_Marshal_marshal_elems_marshal_membs.induct)
  case (4 x)
  then show ?case by (simp add: met_inside_quote)
next
  case (5 vs)
  then show ?case by (simp add: met_inside_wrap outside_single del: indent_run.simps(2))
next
  case (6 ms)
  then show ?case by (simp add: met_inside_wrap outside_single del: indent_run.simps(2))
next
  case (9 v vs)
  show ?case
  proof (cases "s \<in> strings_of v")
    case True
    with 9 show ?thesis by (simp add: met_inside_append)
  next
    case False
    then have "s \<in> strings_elems vs" "vs \<noteq> []" using 9 by auto
    moreover from this have "met_inside s (marshal_elems vs) (after_indent (json_Marshal v @ '','') st)"
      using 9 by (intro 9(2) outside_Marshal_comma) auto
    ultimately show ?thesis using met_inside_prepend by fastforce
  qed
next
  case (11 k v ms)
  let ?tail = "if ms = [] then [] else '','' @ marshal_membs ms"
  have pre: "outside (after_indent (json_quote k @ '':'') st)"
    using 11 by (simp add: after_indent_append outside_quote outside_step split: prod.split)
  have "met_inside s (json_Marshal v @ ?tail) (after_indent (json_quote k @ '':'') st)"
  proof (cases "s \<in> strings_of v")
    case True
    with 11 pre show ?thesis by (intro met_inside_append 11(1)) auto
  next
    case False
    then have "s \<in> strings_membs ms" "ms \<noteq> []" using 11 by auto
    with 11(2) [OF _ _ outside_Marshal_comma [OF _ pre]] 11(3,5) show ?thesis using met_inside_prepend by fastforce
  qed
  from met_inside_memb [OF 11(4) this] show ?case by simp
qed auto

end
