(* ===== verification/Go_Time.thy ===== *)
theory Go_Time
  imports Json_Print
begin

text \<open>
  The part of package \<^verbatim>\<open>time\<close> that dates need: the civil calendar and the form of RFC 3339 in which
  \<open>time.Time\<close> is written to JSON and read back. An instant is a number of nanoseconds since 1970 in UTC;
  every time the sources write was turned to UTC first.
\<close>

section \<open>The calendar\<close>

text \<open>
  The civil date of a day number counted from 1970-01-01 (proleptic Gregorian, as Go's
  \<open>time.Time.Date\<close> gives it for UTC), and the day number of a date.
\<close>

definition civil_of_days :: "int \<Rightarrow> int \<times> int \<times> int" where
  "civil_of_days n =
     (let z = n + 719468;
          era = z div 146097;
          doe = z mod 146097;
          yoe = (doe - doe div 1460 + doe div 36524 - doe div 146096) div 365;
          doy = doe - (365 * yoe + yoe div 4 - yoe div 100);
          mp = (5 * doy + 2) div 153;
          d = doy - (153 * mp + 2) div 5 + 1;
          m = (if mp < 10 then mp + 3 else mp - 9);
          y = yoe + era * 400 + (if m \<le> 2 then 1 else 0)
      in (y, m, d))"

definition leap :: "int \<Rightarrow> bool" where
  "leap y \<longleftrightarrow> y mod 4 = 0 \<and> (y mod 100 \<noteq> 0 \<or> y mod 400 = 0)"

definition days_in :: "int \<Rightarrow> int \<Rightarrow> int" where
  "days_in m y = (if m = 2 then (if leap y then 29 else 28) else if m \<in> {4, 6, 9, 11} then 30 else 31)"

definition days_of_civil :: "int \<Rightarrow> int \<Rightarrow> int \<Rightarrow> int" where
  "days_of_civil y m d =
     (let y' = (if m \<le> 2 then y - 1 else y);
          era = y' div 400;
          yoe = y' mod 400;
          doy = (153 * (if m > 2 then m - 3 else m + 9) + 2) div 5 + d - 1;
          doe = yoe * 365 + yoe div 4 - yoe div 100 + doy
      in era * 146097 + doe - 719468)"

text \<open>The year of a cycle of 400 years: centuries, blocks of four years, years.\<close>

lemma year_of_era:
  fixes doe :: int
  assumes "0 \<le> doe" and "doe < 146096"
  obtains c q t s where "0 \<le> c" "c \<le> 3" "0 \<le> q" "q \<le> 24" "0 \<le> t" "t \<le> 3" "365 * t \<le> s" "s \<le> 1460"
    "t < 3 \<longrightarrow> s < 365 * t + 365" "q = 24 \<longrightarrow> s < 1460"
    "(doe - doe div 1460 + doe div 36524 - doe div 146096) div 365 = 100 * c + 4 * q + t"
    "doe = 36524 * c + 1461 * q + s"
proof -
  define c r q s where "c = doe div 36524" and "r = doe mod 36524" and "q = r div 1461" and "s = r mod 1461"
  define t where "t = min 3 (s div 365)"
  have c: "0 \<le> c" "c \<le> 3" using assms by (auto simp: c_def)
  have r: "0 \<le> r" "r < 36524" by (auto simp: r_def)
  then have q: "0 \<le> q" "q \<le> 24" by (auto simp: q_def)
  have s: "0 \<le> s" "s \<le> 1460" by (auto simp: s_def)
  have rq: "r = 1461 * q + s" by (simp add: q_def s_def)
  have doe: "doe = 36524 * c + 1461 * q + s" using rq mult_div_mod_eq [of 36524 doe] unfolding c_def r_def by linarith
  have qs: "q = 24 \<longrightarrow> s < 1460" using r rq by simp
  have t: "0 \<le> t" "t \<le> 3" "365 * t \<le> s" using s by (auto simp: t_def min_def)
  have ts: "t < 3 \<longrightarrow> s < 365 * t + 365" by (auto simp: t_def min_def)
  define e where "e = (24 * c + q + s) div 1460"
  have e: "e = (if 24 * c + q + s < 1460 then 0 else 1)"
    using c q s by (auto simp: e_def)
  have "doe = (24 * c + q + s) + 1460 * (25 * c + q)" by (simp add: doe)
  then have d1: "doe div 1460 = 25 * c + q + e" by (simp add: e_def)
  have d2: "doe div 146096 = 0" using assms by simp
  have "doe - doe div 1460 + doe div 36524 - doe div 146096 = (s - e) + 365 * (100 * c + 4 * q)"
    unfolding d1 d2 c_def [symmetric] by (simp add: doe)
  then have "(doe - doe div 1460 + doe div 36524 - doe div 146096) div 365 = 100 * c + 4 * q + (s - e) div 365"
    by simp
  moreover have "(s - e) div 365 = t"
  proof -
    have "365 * t \<le> s - e" "s - e < 365 * t + 365" using e t ts c q s by (auto split: if_splits)
    then show ?thesis by (intro int_div_pos_eq [of _ _ _ "s - e - 365 * t"]) auto
  qed
  ultimately show thesis using that [OF c q t(1,2,3) s(2) ts qs] doe by simp
qed

lemma day_of_year:
  assumes "0 \<le> doe" and "doe < 146097"
    and "yoe = (doe - doe div 1460 + doe div 36524 - doe div 146096) div 365"
    and "doy = doe - (365 * yoe + yoe div 4 - yoe div 100)"
  shows "0 \<le> yoe \<and> yoe < 400 \<and> 0 \<le> doy \<and> doy \<le> 365 \<and> (doy = 365 \<longrightarrow> leap (yoe + 1))"
proof (cases "doe = 146096")
  case True
  then show ?thesis using assms(3,4) by (simp add: leap_def)
next
  case False
  then have "doe < 146096" using assms(2) by simp
  then obtain c q t s where b: "0 \<le> c" "c \<le> 3" "0 \<le> q" "q \<le> 24" "0 \<le> t" "t \<le> 3" "365 * t \<le> s" "s \<le> 1460"
    "t < 3 \<longrightarrow> s < 365 * t + 365" "q = 24 \<longrightarrow> s < 1460" "yoe = 100 * c + 4 * q + t" "doe = 36524 * c + 1461 * q + s"
    unfolding assms(3) by (rule year_of_era [OF assms(1)])
  have "yoe div 4 = 25 * c + q" using b(5,6,11) by (intro int_div_pos_eq [of _ _ _ t]) auto
  moreover have "yoe div 100 = c" using b(3-6,11) by (intro int_div_pos_eq [of _ _ _ "4 * q + t"]) auto
  ultimately have doy: "doy = s - 365 * t" using b assms(4) by simp
  have "leap (yoe + 1)" if "doy = 365"
  proof -
    have "t = 3" "q \<le> 23" using b doy that by (cases "q = 24", auto)+
    then have y4: "yoe + 1 = 4 * (25 * c + q + 1)" and y100: "yoe + 1 = (4 * q + 4) + 100 * c" using b(11) by simp_all
    have "(yoe + 1) mod 4 = 0" unfolding y4 by simp
    moreover have "(yoe + 1) mod 100 = (4 * q + 4) mod 100" unfolding y100 by (simp only: mod_mult_self2)
    moreover have "(4 * q + 4) mod 100 = 4 * q + 4" using b(3) \<open>q \<le> 23\<close> by simp
    ultimately show ?thesis using b(3) by (simp add: leap_def)
  qed
  with doy b show ?thesis by (cases "t = 3") auto
qed

lemma leap_era: "leap (y + era * 400) = leap y"
proof -
  have "(y + 4 * (100 * era)) mod 4 = y mod 4" "(y + 100 * (4 * era)) mod 100 = y mod 100"
    by (simp_all only: mod_mult_self2)
  then show ?thesis by (simp add: leap_def mult.commute)
qed

lemma civil_round_trip:
  assumes "civil_of_days n = (y, m, d)"
  shows "days_of_civil y m d = n \<and> 1 \<le> m \<and> m \<le> 12 \<and> 1 \<le> d \<and> d \<le> days_in m y"
proof -
  define era doe where "era = (n + 719468) div 146097" and "doe = (n + 719468) mod 146097"
  define yoe where "yoe = (doe - doe div 1460 + doe div 36524 - doe div 146096) div 365"
  define doy where "doy = doe - (365 * yoe + yoe div 4 - yoe div 100)"
  define mp where "mp = (5 * doy + 2) div 153"
  have n: "n = era * 146097 + doe - 719468" by (simp add: era_def doe_def)
  have b: "0 \<le> yoe" "yoe < 400" "0 \<le> doy" "doy \<le> 365" "doy = 365 \<Longrightarrow> leap (yoe + 1)"
    using day_of_year [OF _ _ yoe_def doy_def] unfolding doe_def by simp_all
  define M where "M = (if mp < 10 then mp + 3 else mp - 9)"
  have "civil_of_days n = (yoe + era * 400 + (if M \<le> 2 then 1 else 0), M, doy - (153 * mp + 2) div 5 + 1)"
    unfolding civil_of_days_def Let_def era_def [symmetric] doe_def [symmetric] yoe_def [symmetric] doy_def [symmetric]
      mp_def [symmetric] M_def [symmetric] ..
  then have m: "m = (if mp < 10 then mp + 3 else mp - 9)" and d: "d = doy - (153 * mp + 2) div 5 + 1"
    and y: "y = yoe + era * 400 + (if m \<le> 2 then 1 else 0)"
    using assms by (auto simp: M_def)
  have mp: "0 \<le> mp" "mp \<le> 11" using b by (auto simp: mp_def)
  have "(if m > 2 then m - 3 else m + 9) = mp" using m mp by auto
  moreover have y': "(if m \<le> 2 then y - 1 else y) = yoe + era * 400" using y by simp
  moreover have "(yoe + era * 400) div 400 = era" "(yoe + era * 400) mod 400 = yoe" using b by auto
  ultimately have inv: "days_of_civil y m d = n"
    unfolding days_of_civil_def Let_def by (simp add: d n doy_def)
  have "mp \<in> {0, 1, 2, 3, 4, 5, 6, 7, 8, 9, 10, 11}" using mp by simp presburger
  moreover have "doy \<le> 364" if "mp = 11" "\<not> leap y"
  proof -
    have "y = yoe + 1 + era * 400" using that y m by simp
    then have "doy \<noteq> 365" using b(5) that leap_era [of "yoe + 1" era] by auto
    then show ?thesis using b(4) by simp
  qed
  moreover have "153 * mp \<le> 5 * doy + 2" "5 * doy + 2 < 153 * mp + 153" by (auto simp: mp_def)
  ultimately have "1 \<le> d \<and> d \<le> days_in m y"
    unfolding insert_iff empty_iff using b(4) m d by (elim disjE) (simp_all add: days_in_def)
  with inv m mp show ?thesis by auto
qed

section \<open>RFC 3339\<close>

text \<open>\<open>time.Time.MarshalJSON\<close> fails for a year outside 0 to 9999.\<close>

definition time_ok :: "time \<Rightarrow> bool" where
  "time_ok t \<longleftrightarrow> - 62167219200 * Second \<le> t \<and> t < 253402300800 * Second"

definition pad_year :: "int \<Rightarrow> string" where
  "pad_year y =
     (let n = nat \<bar>y\<bar>; s = (if n < 10000 then pad_nat 4 n else nat_str n)
      in if y < 0 then CHR ''-'' # s else s)"

definition rfc3339 :: "time \<Rightarrow> string" where
  "rfc3339 t =
     (let s = t div Second;
          sod = s mod 86400;
          (y, m, d) = civil_of_days (s div 86400)
      in pad_year y @ ''-'' @ pad_nat 2 (nat m) @ ''-'' @ pad_nat 2 (nat d) @ ''T'' @
         pad_nat 2 (nat (sod div 3600)) @ '':'' @ pad_nat 2 (nat (sod mod 3600 div 60)) @ '':'' @
         pad_nat 2 (nat (sod mod 60)) @ frac_str 9 (nat (t mod Second)) @ ''Z'')"

text \<open>
  \<open>parseRFC3339\<close>: numbers of fixed width within their range, an optional fraction of which nine digits
  count, and \<open>Z\<close> or an offset.
\<close>

definition parse_uint :: "int \<Rightarrow> int \<Rightarrow> string \<Rightarrow> int option" where
  "parse_uint lo hi s =
     (let n = int (digits_nat s) in if list_all is_digit s \<and> lo \<le> n \<and> n \<le> hi then Some n else None)"

definition parse_zone :: "string \<Rightarrow> int option" where
  "parse_zone z =
     (if z = ''Z'' then Some 0
      else if length z = 6 \<and> (hd z = CHR ''+'' \<or> hd z = CHR ''-'') \<and> z ! 3 = CHR '':'' then
        (case (parse_uint 0 23 (take 2 (drop 1 z)), parse_uint 0 59 (drop 4 z)) of
           (Some hr, Some mm) \<Rightarrow> Some ((if hd z = CHR ''-'' then - 1 else 1) * (hr * 60 + mm) * 60)
         | _ \<Rightarrow> None)
      else None)"

definition parse_frac :: "string \<Rightarrow> int \<times> string" where
  "parse_frac r =
     (if 2 \<le> length r \<and> hd r = CHR ''.'' \<and> is_digit (r ! 1)
      then (int (digits_nat (take 9 (takeWhile is_digit (tl r) @ replicate 9 (CHR ''0'')))), dropWhile is_digit (tl r))
      else (0, r))"

definition parse_rfc3339 :: "string \<Rightarrow> time option" where
  "parse_rfc3339 s =
     (if length s < 19 then None
      else
        (case (parse_uint 0 9999 (take 4 s), parse_uint 1 12 (take 2 (drop 5 s))) of
           (Some y, Some m) \<Rightarrow>
             (case (parse_uint 1 (days_in m y) (take 2 (drop 8 s)), parse_uint 0 23 (take 2 (drop 11 s)),
                    parse_uint 0 59 (take 2 (drop 14 s)), parse_uint 0 59 (take 2 (drop 17 s))) of
                (Some d, Some hh, Some mm, Some ss) \<Rightarrow>
                  if s ! 4 = CHR ''-'' \<and> s ! 7 = CHR ''-'' \<and> s ! 10 = CHR ''T'' \<and> s ! 13 = CHR '':'' \<and>
                     s ! 16 = CHR '':''
                  then
                    (case parse_frac (drop 19 s) of
                       (ns, z) \<Rightarrow>
                         map_option
                           (\<lambda>off. (days_of_civil y m d * 86400 + hh * 3600 + mm * 60 + ss - off) * Second + ns)
                           (parse_zone z))
                  else None
              | _ \<Rightarrow> None)
         | _ \<Rightarrow> None))"

section \<open>What is written is read back\<close>

lemma length_pad_nat [simp]: "length (pad_nat k n) = k"
  by (induction k arbitrary: n) auto

lemma pad_nat_digits [simp]: "list_all is_digit (pad_nat k n)"
  by (induction k arbitrary: n) auto

lemma digits_nat_pad: "digits_nat (pad_nat k n) = n mod 10 ^ k"
proof (induction k arbitrary: n)
  case (Suc k)
  have "digits_nat (pad_nat (Suc k) n) = digits_nat (pad_nat k (n div 10)) * 10 + n mod 10"
    by (simp add: digits_nat_def digit_code)
  also have "\<dots> = n mod 10 ^ Suc k" by (simp add: Suc mod_mult2_eq mult.commute)
  finally show ?case .
qed (simp add: digits_nat_def)

lemma parse_uint_pad: "lo \<le> n \<Longrightarrow> n \<le> hi \<Longrightarrow> 0 \<le> n \<Longrightarrow> n < 10 ^ k \<Longrightarrow> parse_uint lo hi (pad_nat k (nat n)) = Some n"
  by (simp add: parse_uint_def digits_nat_pad Let_def nat_less_iff)

lemma strip_zeros: "\<exists>k. xs = rev (dropWhile (\<lambda>c. c = z) (rev xs)) @ replicate k z"
proof -
  have "takeWhile (\<lambda>c. c = z) (rev xs) = replicate (length (takeWhile (\<lambda>c. c = z) (rev xs))) z"
    by (rule replicate_eqI) (auto dest: set_takeWhileD)
  moreover have "xs = rev (dropWhile (\<lambda>c. c = z) (rev xs)) @ rev (takeWhile (\<lambda>c. c = z) (rev xs))"
    by (metis rev_append rev_rev_ident takeWhile_dropWhile_id)
  ultimately show ?thesis by (metis rev_replicate)
qed

lemma parse_frac_str: "n < 10 ^ 9 \<Longrightarrow> parse_frac (frac_str 9 n @ ''Z'') = (int n, ''Z'')"
proof -
  assume n: "n < 10 ^ 9"
  define ds where "ds = rev (dropWhile (\<lambda>c. c = CHR ''0'') (rev (pad_nat 9 n)))"
  obtain k where k: "pad_nat 9 n = ds @ replicate k (CHR ''0'')" using strip_zeros [of "pad_nat 9 n" "CHR ''0''"] unfolding ds_def by (elim exE) auto
  have digs: "list_all is_digit ds" using pad_nat_digits [of 9 n] unfolding k by simp
  have notZ: "\<not> is_digit (CHR ''Z'')" by code_simp
  have len: "length ds + k = 9" using length_pad_nat [of 9 n] unfolding k by simp
  have val: "digits_nat (ds @ replicate k (CHR ''0'')) = n" using digits_nat_pad [of 9 n] n unfolding k by simp
  show ?thesis
  proof (cases ds)
    case Nil
    then have "frac_str 9 n = []" by (simp add: frac_str_def ds_def [symmetric])
    moreover have "digits_nat (replicate k (CHR ''0'')) = 0" for k
      by (induction k) (simp_all add: digits_nat_def)
    then have "n = 0" using val Nil by simp
    ultimately show ?thesis by (simp add: parse_frac_def)
  next
    case (Cons c cs)
    then have "frac_str 9 n = CHR ''.'' # ds" by (simp add: frac_str_def ds_def [symmetric])
    moreover have "take 9 (ds @ replicate 9 (CHR ''0'')) = ds @ replicate k (CHR ''0'')"
      using len by (simp add: min_def)
    moreover have "takeWhile is_digit (ds @ ''Z'') = ds" "dropWhile is_digit (ds @ ''Z'') = ''Z''"
      using digs notZ by (simp_all add: list_all_iff)
    ultimately show ?thesis using val digs Cons by (simp add: parse_frac_def)
  qed
qed

text \<open>The instants that can be written lie in the years 0 to 9999.\<close>

lemma civil_year_bounds:
  assumes "civil_of_days n = (y, m, d)" and "- 719528 \<le> n" and "n \<le> 2932896"
  shows "0 \<le> y \<and> y \<le> 9999"
proof -
  have c: "days_of_civil y m d = n" "1 \<le> m" "m \<le> 12" "1 \<le> d" "d \<le> 31"
    using civil_round_trip [OF assms(1)] by (auto simp: days_in_def split: if_splits)
  define y' where "y' = (if m \<le> 2 then y - 1 else y)"
  define k where "k = (if m > 2 then m - 3 else m + 9)"
  define era yoe where "era = y' div 400" and "yoe = y' mod 400"
  have yoe: "0 \<le> yoe" "yoe < 400" "y' = 400 * era + yoe" by (auto simp: era_def yoe_def)
  have k: "0 \<le> k" "k \<le> 11" "m \<le> 2 \<longleftrightarrow> 10 \<le> k" using c by (auto simp: k_def)
  have n: "n = era * 146097 + (yoe * 365 + yoe div 4 - yoe div 100 + ((153 * k + 2) div 5 + d - 1)) - 719468"
    using c(1) unfolding days_of_civil_def Let_def y'_def [symmetric] k_def [symmetric] era_def [symmetric] yoe_def [symmetric]
    by simp
  define j w h where "j = (153 * k + 2) div 5" and "w = yoe div 4" and "h = yoe div 100"
  have j: "0 \<le> j" "j \<le> 337" "k \<le> 9 \<Longrightarrow> j \<le> 275" "10 \<le> k \<Longrightarrow> 306 \<le> j"
    using k(1,2) by (auto simp: j_def)
  have wh: "4 * w \<le> yoe" "yoe < 4 * w + 4" "100 * h \<le> yoe" "yoe < 100 * h + 100" "0 \<le> h" "h \<le> 3"
    using yoe(1,2) by (auto simp: w_def h_def)
  have n: "n = era * 146097 + yoe * 365 + w - h + j + d - 719469" using n by (simp add: j_def w_def h_def)
  have y: "y = (if m \<le> 2 then y' + 1 else y')" by (simp add: y'_def)
  have era: "- 1 \<le> era" "era \<le> 24" using n assms(2,3) wh yoe j(1,2) c(4,5) by linarith+
  have low: "10 \<le> k \<and> yoe = 399" if "era = - 1"
  proof -
    have "yoe = 399" using n assms(2) wh yoe j(1,2) c(5) that by linarith
    moreover have "\<not> k \<le> 9" using n assms(2) wh yoe j(3) c(5) that \<open>yoe = 399\<close> by auto
    ultimately show ?thesis by simp
  qed
  have high: "k \<le> 9" if "era = 24" "yoe = 399"
    using n assms(3) wh j(4) c(4) that by (cases "10 \<le> k") auto
  have "0 \<le> y"
  proof (cases "era = - 1")
    case True
    with low yoe y k show ?thesis by simp
  qed (use era yoe y in auto)
  moreover have "y \<le> 9999"
  proof (cases "era = 24 \<and> yoe = 399")
    case True
    with high yoe y k show ?thesis by simp
  qed (use era yoe y in auto)
  ultimately show ?thesis ..
qed

text \<open>What is written is read back as the same instant, to the nanosecond.\<close>

lemma rfc3339_round_trip:
  assumes "time_ok t"
  shows "parse_rfc3339 (rfc3339 t) = Some t"
proof -
  define s where "s = t div Second"
  define sod where "sod = s mod 86400"
  define day where "day = s div 86400"
  define hh mm ss where "hh = sod div 3600" and "mm = sod mod 3600 div 60" and "ss = sod mod 60"
  define ns where "ns = t mod Second"
  obtain y m d where c: "civil_of_days day = (y, m, d)" by (rule prod_cases3)
  have sod: "0 \<le> sod" "sod < 86400" by (auto simp: sod_def)
  have hms: "0 \<le> hh" "hh \<le> 23" "0 \<le> mm" "mm \<le> 59" "0 \<le> ss" "ss \<le> 59" "sod = hh * 3600 + mm * 60 + ss"
  proof -
    have "ss = sod mod 3600 mod 60" by (simp add: ss_def mod_mod_cancel)
    then have "sod = 3600 * hh + (60 * mm + ss)" by (simp add: hh_def mm_def)
    then show "sod = hh * 3600 + mm * 60 + ss" by simp
  qed (use sod in \<open>auto simp: hh_def mm_def ss_def\<close>)
  have day: "- 719528 \<le> day" "day \<le> 2932896"
    using assms by (auto simp: time_ok_def day_def s_def)
  have ns: "0 \<le> ns" "ns < 10 ^ 9" by (auto simp: ns_def)
  note y = civil_year_bounds [OF c day]
  have md: "days_of_civil y m d = day" "1 \<le> m" "m \<le> 12" "1 \<le> d" "d \<le> days_in m y" "d < 100"
    using civil_round_trip [OF c] by (auto simp: days_in_def split: if_splits)
  have t: "t = (day * 86400 + hh * 3600 + mm * 60 + ss) * Second + ns"
  proof -
    have "t = s * Second + ns" "s = day * 86400 + sod" by (simp_all add: s_def ns_def day_def sod_def)
    with hms(7) show ?thesis by simp
  qed
  let ?Y = "pad_nat 4 (nat y)" and ?M = "pad_nat 2 (nat m)" and ?D = "pad_nat 2 (nat d)"
    and ?h = "pad_nat 2 (nat hh)" and ?m = "pad_nat 2 (nat mm)" and ?s = "pad_nat 2 (nat ss)"
  have "rfc3339 t = ?Y @ CHR ''-'' # ?M @ CHR ''-'' # ?D @ CHR ''T'' # ?h @ CHR '':'' # ?m @ CHR '':'' # ?s @
      frac_str 9 (nat ns) @ ''Z''"
    using c y unfolding rfc3339_def s_def [symmetric] Let_def
    by (simp add: day_def sod_def hh_def mm_def ss_def ns_def pad_year_def nat_less_iff)
  moreover have "parse_uint 0 9999 ?Y = Some y" "parse_uint 1 12 ?M = Some m" "parse_uint 1 (days_in m y) ?D = Some d"
    "parse_uint 0 23 ?h = Some hh" "parse_uint 0 59 ?m = Some mm" "parse_uint 0 59 ?s = Some ss"
    using y md hms by (simp_all add: parse_uint_pad)
  moreover have "parse_frac (frac_str 9 (nat ns) @ ''Z'') = (ns, ''Z'')"
    using parse_frac_str [of "nat ns"] ns by (simp add: nat_less_iff)
  ultimately show ?thesis
    by (simp add: parse_rfc3339_def nth_append nth_Cons' parse_zone_def md(1) t)
qed

end
