(* ===== verification/Operation.thy ===== *)
theory Operation
  imports Go_Time
begin

text \<open>
  \<^verbatim>\<open>internal/operation/operation.go\<close>: the record of a lifecycle operation and of its steps, and
  \<open>New\<close>, with the part of \<open>time.Format\<close> its identifier uses.
\<close>

section \<open>Types and states\<close>

type_synonym op_type = string
type_synonym op_state = string

definition OpPowerOn :: op_type where "OpPowerOn = ''power-on''"
definition OpDrainShutdown :: op_type where "OpDrainShutdown = ''drain-shutdown''"
definition OpCordon :: op_type where "OpCordon = ''cordon''"
definition OpUncordon :: op_type where "OpUncordon = ''uncordon''"
definition OpReserve :: op_type where "OpReserve = ''reserve''"
definition OpRelease :: op_type where "OpRelease = ''release''"

definition Pending :: op_state where "Pending = ''pending''"
definition Running :: op_state where "Running = ''running''"
definition Succeeded :: op_state where "Succeeded = ''succeeded''"
definition Failed :: op_state where "Failed = ''failed''"
definition Cancelled :: op_state where "Cancelled = ''cancelled''"

text \<open>
  A step. \<open>Details\<close> is nil or a map of one key to one string everywhere in the sources; it is the
  list of its entries here.
\<close>

record step =
  step_Name :: string
  step_Succeeded :: bool
  step_Message :: string
  step_Details :: "(string \<times> string) list"
  step_At :: time

record operation =
  op_ID :: string
  op_Type :: op_type
  op_Node :: string
  op_State :: op_state
  op_Actor :: string
  op_LockID :: string
  op_Steps :: "step list"
  op_Error :: string
  op_CreatedAt :: time
  op_UpdatedAt :: time

section \<open>The time layout of the identifier\<close>

text \<open>\<open>t.UTC().Format("20060102-150405")\<close>.\<close>

definition format_op_time :: "time \<Rightarrow> string" where
  "format_op_time t =
     (let s = t div Second;
          sod = s mod 86400;
          (y, m, d) = civil_of_days (s div 86400)
      in pad_year y @ pad_nat 2 (nat m) @ pad_nat 2 (nat d) @ ''-'' @
         pad_nat 2 (nat (sod div 3600)) @ pad_nat 2 (nat (sod mod 3600 div 60)) @
         pad_nat 2 (nat (sod mod 60)))"

definition operation_New :: "op_type \<Rightarrow> string \<Rightarrow> string \<Rightarrow> time \<Rightarrow> operation" where
  "operation_New typ node actor now =
     \<lparr>op_ID = ''op-'' @ format_op_time now @ ''-'' @ node @ ''-'' @ typ,
      op_Type = typ,
      op_Node = node,
      op_State = Pending,
      op_Actor = actor,
      op_LockID = [],
      op_Steps = [],
      op_Error = [],
      op_CreatedAt = now,
      op_UpdatedAt = now\<rparr>"

lemma operation_New_ID_nonempty: "op_ID (operation_New typ node actor now) \<noteq> []"
  by (simp add: operation_New_def)

text \<open>The identifier is only as fine as the second.\<close>

lemma operation_New_same_second:
  "t div Second = t' div Second \<Longrightarrow>
   op_ID (operation_New typ node actor t) = op_ID (operation_New typ node actor' t')"
  by (simp add: operation_New_def format_op_time_def)

end
