(* ===== verification/Bmc.thy ===== *)
theory Bmc
  imports Go_Runtime
begin

text \<open>
  \<^verbatim>\<open>internal/bmc/bmc.go\<close> and \<^verbatim>\<open>internal/bmc/factory.go\<close>: power states, the result of a BMC
  call, the \<open>Adapter\<close> interface as a record of calls, and the driver registry. The locale
  \<open>power_reader\<close> is the contract of \<open>GetPowerState\<close> that the rest of the system relies on.
\<close>

section \<open>Power states and results\<close>

text \<open>\<open>BmcUnset\<close> is the zero value of the Go string type.\<close>

datatype bmc_power = BmcOn | BmcOff | BmcUnknown | BmcUnset

fun bmc_power_str :: "bmc_power \<Rightarrow> string" where
  "bmc_power_str BmcOn = ''on''"
| "bmc_power_str BmcOff = ''off''"
| "bmc_power_str BmcUnknown = ''unknown''"
| "bmc_power_str BmcUnset = []"

record bmc_result =
  res_OK :: bool
  res_PowerState :: bmc_power
  res_Error :: string
  res_Raw :: string

definition ErrorResult :: "err \<Rightarrow> bmc_result" where
  "ErrorResult e = \<lparr>res_OK = False, res_PowerState = BmcUnknown, res_Error = Error e, res_Raw = []\<rparr>"

record 'w bmc_adapter =
  bmc_GetPowerState :: "('w, bmc_result) prim"
  bmc_PowerOn :: "('w, bmc_result) prim"
  bmc_SoftOff :: "('w, bmc_result) prim"
  bmc_HardOff :: "('w, bmc_result) prim"
  bmc_Reset :: "('w, bmc_result) prim"

section \<open>The driver registry\<close>

type_synonym 'w bmc_factory = "string \<Rightarrow> string \<Rightarrow> string \<Rightarrow> 'w bmc_adapter"
type_synonym 'w drivers = "string \<rightharpoonup> 'w bmc_factory"

text \<open>\<open>Register\<close>: a panic is \<open>Inl\<close> of its message; a nil factory is \<open>None\<close>.\<close>

definition bmc_Register ::
  "string \<Rightarrow> 'w bmc_factory option \<Rightarrow> 'w drivers \<Rightarrow> string + 'w drivers" where
  "bmc_Register typ f drivers =
     (case f of
        None \<Rightarrow> Inl ''bmc: Register factory is nil''
      | Some g \<Rightarrow>
          if drivers typ \<noteq> None then Inl (''bmc: Register called twice for type '' @ typ)
          else Inr (drivers(typ \<mapsto> g)))"

definition bmc_New ::
  "'w drivers \<Rightarrow> string \<Rightarrow> string \<Rightarrow> string \<Rightarrow> string \<Rightarrow> err + 'w bmc_adapter" where
  "bmc_New drivers typ host username password =
     (case drivers typ of
        None \<Rightarrow> Inl (Err (''bmc: type '' @ Quote typ @ '' not supported''))
      | Some f \<Rightarrow> Inr (f host username password))"

lemma bmc_Register_lookup:
  "bmc_Register typ f d = Inr d' \<Longrightarrow> \<exists>g. f = Some g \<and> d typ = None \<and> d' = d(typ \<mapsto> g)"
  by (auto simp: bmc_Register_def split: option.splits if_splits)

lemma bmc_New_Inr_iff:
  "(\<exists>a. bmc_New d typ h u p = Inr a) \<longleftrightarrow> typ \<in> dom d"
  by (auto simp: bmc_New_def split: option.splits)

section \<open>The contract of a power reading\<close>

text \<open>
  What a driver promises of \<open>GetPowerState\<close>: a successful reading is \<open>on\<close> or \<open>off\<close>, a failed one
  reports \<open>unknown\<close>. \<open>waitPowerOff\<close> looks at the state alone, so a driver that reported \<open>off\<close>
  next to an error would end the wait on a guess.
\<close>

locale power_reader =
  fixes get :: "('w, bmc_result) prim"
  assumes ok_known: "get c t s = (r, dt, s') \<Longrightarrow> res_OK r \<Longrightarrow> res_PowerState r \<in> {BmcOn, BmcOff}"
    and failed_unknown: "get c t s = (r, dt, s') \<Longrightarrow> \<not> res_OK r \<Longrightarrow> res_PowerState r = BmcUnknown"
begin

lemma off_is_ok: "get c t s = (r, dt, s') \<Longrightarrow> res_PowerState r = BmcOff \<Longrightarrow> res_OK r"
  using failed_unknown by fastforce

lemma on_is_ok: "get c t s = (r, dt, s') \<Longrightarrow> res_PowerState r = BmcOn \<Longrightarrow> res_OK r"
  using failed_unknown by fastforce

end

end
