(* ===== verification/K8s.thy ===== *)
theory K8s
  imports Go_Runtime
begin

text \<open>
  \<^verbatim>\<open>internal/k8s/client.go\<close>: the node checks, cordon and uncordon, and the drain, as calls on a
  clientset. The clientset (\<^verbatim>\<open>client-go\<close>) and the drain helper (\<^verbatim>\<open>kubectl/pkg/drain\<close>) are
  third-party: they are the parameters \<open>cs\<close> and \<open>run_drain\<close> of the definitions. The predicates
  \<open>patch_visible\<close> and \<open>get_reads\<close> state the documented behaviour of the API server's node resource
  that the cordon/uncordon pair relies on; they are hypotheses where they are used.
\<close>

section \<open>Objects\<close>

text \<open>
  The fields of \<open>corev1.Node\<close> the client reads: the conditions as (type, status) in order, the
  allocatable quantities, and \<open>spec.unschedulable\<close>.
\<close>

record k8s_node =
  node_Conditions :: "(string \<times> string) list"
  node_Allocatable :: "string \<rightharpoonup> int"
  node_Unschedulable :: bool

record k8s_pod =
  pod_NodeName :: string
  pod_DeletionTimestamp :: "time option"
  pod_Phase :: string

text \<open>\<open>kubedrain.MakePodDeleteStatusSkip\<close> and \<open>MakePodDeleteStatusOkay\<close>.\<close>

datatype pod_delete_status = PodSkip | PodOkay

record 'w clientset =
  cs_GetNode :: "string \<Rightarrow> ('w, err + k8s_node) prim"
  cs_PatchNode :: "string \<Rightarrow> string \<Rightarrow> ('w, err option) prim"

record drain_options =
  do_GracePeriodSeconds :: "int option"
  do_PollInterval :: duration
  do_Timeout :: duration

text \<open>The fields of \<open>kubedrain.Helper\<close> the client sets, its client and writers aside.\<close>

record drain_helper =
  dh_Force :: bool
  dh_GracePeriodSeconds :: int
  dh_IgnoreAllDaemonSets :: bool
  dh_Timeout :: duration
  dh_DeleteEmptyDirData :: bool
  dh_EvictErrorRetryDelay :: duration
  dh_AdditionalFilters :: "(k8s_pod \<Rightarrow> pod_delete_status) list"
  dh_SkipWaitForDeleteTimeoutSeconds :: int

section \<open>Operations\<close>

fun ready_condition :: "(string \<times> string) list \<Rightarrow> bool" where
  "ready_condition [] = False"
| "ready_condition ((typ, status) # conds) =
     (if typ = ''Ready'' then status = ''True'' else ready_condition conds)"

definition k8s_IsNodeReady :: "'w clientset \<Rightarrow> string \<Rightarrow> ('w, err + bool) prim" where
  "k8s_IsNodeReady cs name c t s =
     (case cs_GetNode cs name c t s of
        (Inl e, dt, s') \<Rightarrow> (Inl e, dt, s')
      | (Inr node, dt, s') \<Rightarrow> (Inr (ready_condition (node_Conditions node)), dt, s'))"

definition gpuResources :: "string list" where
  "gpuResources = [''nvidia.com/gpu'', ''nvidia.com/gpumem'']"

definition has_gpu :: "k8s_node \<Rightarrow> bool" where
  "has_gpu node =
     list_ex (\<lambda>r. case node_Allocatable node r of None \<Rightarrow> False | Some q \<Rightarrow> q \<noteq> 0) gpuResources"

definition k8s_NodeHasGPUCapacity :: "'w clientset \<Rightarrow> string \<Rightarrow> ('w, err + bool) prim" where
  "k8s_NodeHasGPUCapacity cs name c t s =
     (case cs_GetNode cs name c t s of
        (Inl e, dt, s') \<Rightarrow> (Inl e, dt, s')
      | (Inr node, dt, s') \<Rightarrow> (Inr (has_gpu node), dt, s'))"

definition k8s_IsNodeSchedulable :: "'w clientset \<Rightarrow> string \<Rightarrow> ('w, err + bool) prim" where
  "k8s_IsNodeSchedulable cs name c t s =
     (case cs_GetNode cs name c t s of
        (Inl e, dt, s') \<Rightarrow> (Inl e, dt, s')
      | (Inr node, dt, s') \<Rightarrow> (Inr (\<not> node_Unschedulable node), dt, s'))"

definition unschedulable_patch :: "bool \<Rightarrow> string" where
  \<open>unschedulable_patch v = ''{"spec":{"unschedulable":'' @ bool_str v @ ''}}''\<close>

definition k8s_setUnschedulable :: "'w clientset \<Rightarrow> string \<Rightarrow> bool \<Rightarrow> ('w, err option) prim" where
  "k8s_setUnschedulable cs name v = cs_PatchNode cs name (unschedulable_patch v)"

definition k8s_Cordon :: "'w clientset \<Rightarrow> string \<Rightarrow> ('w, err option) prim" where
  "k8s_Cordon cs name = k8s_setUnschedulable cs name True"

definition k8s_Uncordon :: "'w clientset \<Rightarrow> string \<Rightarrow> ('w, err option) prim" where
  "k8s_Uncordon cs name = k8s_setUnschedulable cs name False"

definition sameNodeFilter :: "string \<Rightarrow> k8s_pod \<Rightarrow> pod_delete_status" where
  "sameNodeFilter node pod = (if pod_NodeName pod \<noteq> node then PodSkip else PodOkay)"

definition skipTerminalOrTerminatingPod :: "k8s_pod \<Rightarrow> pod_delete_status" where
  "skipTerminalOrTerminatingPod pod =
     (if pod_DeletionTimestamp pod \<noteq> None \<or> pod_Phase pod = ''Succeeded'' \<or> pod_Phase pod = ''Failed''
      then PodSkip else PodOkay)"

text \<open>The helper \<open>Drain\<close> assembles from its options.\<close>

definition drain_helper_for :: "string \<Rightarrow> drain_options \<Rightarrow> drain_helper" where
  "drain_helper_for node opts =
     (let poll = (if do_PollInterval opts \<le> 0 then 2 * Second else do_PollInterval opts);
          timeout = (if do_Timeout opts \<le> 0 then 5 * Minute else do_Timeout opts);
          grace = (case do_GracePeriodSeconds opts of None \<Rightarrow> - 1 | Some g \<Rightarrow> g)
      in \<lparr>dh_Force = True,
          dh_GracePeriodSeconds = grace,
          dh_IgnoreAllDaemonSets = True,
          dh_Timeout = timeout,
          dh_DeleteEmptyDirData = True,
          dh_EvictErrorRetryDelay = poll,
          dh_AdditionalFilters = [sameNodeFilter node, skipTerminalOrTerminatingPod],
          dh_SkipWaitForDeleteTimeoutSeconds = 0\<rparr>)"

type_synonym 'w run_drain = "'w clientset \<Rightarrow> drain_helper \<Rightarrow> string \<Rightarrow> ('w, err option) prim"

definition k8s_Drain ::
  "'w run_drain \<Rightarrow> 'w clientset \<Rightarrow> string \<Rightarrow> drain_options \<Rightarrow> ('w, err option) prim" where
  "k8s_Drain run_drain cs node opts c t s =
     (case run_drain cs (drain_helper_for node opts) node c t s of
        (Some e, dt, s') \<Rightarrow> (Some (wrap (''drain '' @ node @ '': '') e), dt, s')
      | (None, dt, s') \<Rightarrow> (None, dt, s'))"

section \<open>Building the client\<close>

text \<open>
  \<^verbatim>\<open>internal/k8s/config.go\<close>: the loading rules of \<^verbatim>\<open>clientcmd\<close> (given the explicit path, if any), the
  in-cluster configuration and \<open>kubernetes.NewForConfig\<close> are third-party.
\<close>

record ('w, 'rc) kube_lib =
  kl_ClientConfig :: "string option \<Rightarrow> ('w, err + 'rc) prim"
  kl_InClusterConfig :: "('w, err + 'rc) prim"
  kl_NewForConfig :: "'rc \<Rightarrow> ('w, err + 'w clientset) prim"

definition k8s_restConfig :: "('w, 'rc) kube_lib \<Rightarrow> string \<Rightarrow> ('w, err + 'rc) prim" where
  "k8s_restConfig lib path =
     pbind (kl_ClientConfig lib (if path \<noteq> [] then Some path else None)) (\<lambda>r. case r of
         Inr cfg \<Rightarrow> pret (Inr cfg)
       | Inl e \<Rightarrow>
           pmap (\<lambda>r. case r of
               Inr ic \<Rightarrow> Inr ic
             | Inl _ \<Rightarrow> Inl (wrap (''kubeconfig (path '' @ Quote path @ ''): '') e))
             (kl_InClusterConfig lib))"

definition k8s_NewFromKubeconfig :: "('w, 'rc) kube_lib \<Rightarrow> string \<Rightarrow> ('w, err + 'w clientset) prim" where
  "k8s_NewFromKubeconfig lib path =
     pbind (k8s_restConfig lib path) (\<lambda>r. case r of
         Inl e \<Rightarrow> pret (Inl e)
       | Inr cfg \<Rightarrow>
           pmap (\<lambda>r. case r of Inl e \<Rightarrow> Inl (wrap ''kube clientset: '' e) | Inr cs \<Rightarrow> Inr cs)
             (kl_NewForConfig lib cfg))"

section \<open>Facts\<close>

text \<open>The first \<open>Ready\<close> condition decides; a node without one is not ready.\<close>

lemma ready_condition_iff:
  "ready_condition conds \<longleftrightarrow>
   (case find (\<lambda>cond. fst cond = ''Ready'') conds of
      None \<Rightarrow> False
    | Some cond \<Rightarrow> snd cond = ''True'')"
  by (induction conds rule: ready_condition.induct) auto

lemma has_gpu_iff:
  "has_gpu node \<longleftrightarrow>
   (\<exists>q. q \<noteq> 0 \<and> (node_Allocatable node ''nvidia.com/gpu'' = Some q \<or>
                  node_Allocatable node ''nvidia.com/gpumem'' = Some q))"
  by (auto simp: has_gpu_def gpuResources_def split: option.splits)

text \<open>The pods both filters let through: on the node, not terminal and not terminating.\<close>

lemma drain_filters_okay_iff:
  "(\<forall>f \<in> set (dh_AdditionalFilters (drain_helper_for node opts)). f pod = PodOkay) \<longleftrightarrow>
   pod_NodeName pod = node \<and> pod_DeletionTimestamp pod = None \<and>
   pod_Phase pod \<notin> {''Succeeded'', ''Failed''}"
  by (auto simp: drain_helper_for_def Let_def sameNodeFilter_def skipTerminalOrTerminatingPod_def)

lemma drain_helper_positive:
  "0 < dh_Timeout (drain_helper_for node opts) \<and> 0 < dh_EvictErrorRetryDelay (drain_helper_for node opts)"
  by (simp add: drain_helper_for_def Let_def)

section \<open>The node resource of the API server\<close>

text \<open>
  Documented behaviour of the node resource, a hypothesis of the facts below: a strategic-merge
  patch of \<open>spec.unschedulable\<close> that the server accepts is what a later read shows, and reads
  change nothing a read can see. \<open>live\<close> maps the outside state to the nodes the server holds.
\<close>

definition patch_visible :: "'w clientset \<Rightarrow> ('w \<Rightarrow> string \<rightharpoonup> k8s_node) \<Rightarrow> bool" where
  "patch_visible cs live \<longleftrightarrow>
     (\<forall>name v c t s dt s'. cs_PatchNode cs name (unschedulable_patch v) c t s = (None, dt, s') \<longrightarrow>
        (\<exists>n. live s name = Some n \<and> live s' = (live s)(name \<mapsto> n\<lparr>node_Unschedulable := v\<rparr>)))"

definition get_reads :: "'w clientset \<Rightarrow> ('w \<Rightarrow> string \<rightharpoonup> k8s_node) \<Rightarrow> bool" where
  "get_reads cs live \<longleftrightarrow>
     (\<forall>name c t s n dt s'. cs_GetNode cs name c t s = (Inr n, dt, s') \<longrightarrow>
        live s name = Some n \<and> live s' = live s)"

lemma setUnschedulable_live:
  assumes "patch_visible cs live" and "k8s_setUnschedulable cs name v c t s = (None, dt, s1)"
  obtains n where "live s name = Some n" and "live s1 = (live s)(name \<mapsto> n\<lparr>node_Unschedulable := v\<rparr>)"
  using assms unfolding patch_visible_def k8s_setUnschedulable_def by blast

lemma IsNodeSchedulable_live:
  assumes "get_reads cs live" and "k8s_IsNodeSchedulable cs name c t s = (Inr b, dt, s')"
  shows "\<exists>n. live s name = Some n \<and> b = (\<not> node_Unschedulable n) \<and> live s' = live s"
  using assms unfolding get_reads_def k8s_IsNodeSchedulable_def
  by (fastforce split: sum.splits prod.splits)

lemma IsNodeReady_live:
  assumes "get_reads cs live" and "k8s_IsNodeReady cs name c t s = (Inr b, dt, s')"
  shows "\<exists>n. live s name = Some n \<and> b = ready_condition (node_Conditions n) \<and> live s' = live s"
  using assms unfolding get_reads_def k8s_IsNodeReady_def
  by (fastforce split: sum.splits prod.splits)

lemma setUnschedulable_then_read:
  assumes "patch_visible cs live" and "get_reads cs live"
    and "k8s_setUnschedulable cs name v c t s = (None, dt, s1)"
    and "k8s_IsNodeSchedulable cs m c' t' s1 = (Inr b, dt', s2)"
  shows "if m = name then b = (\<not> v) else \<exists>n. live s m = Some n \<and> b = (\<not> node_Unschedulable n)"
proof -
  obtain n where n: "live s1 = (live s)(name \<mapsto> n\<lparr>node_Unschedulable := v\<rparr>)"
    using setUnschedulable_live [OF assms(1,3)] by blast
  obtain k where "live s1 m = Some k" "b = (\<not> node_Unschedulable k)"
    using IsNodeSchedulable_live [OF assms(2,4)] by blast
  with n show ?thesis by (cases "m = name") auto
qed

end
