(* ===== verification/Lifecycle.thy ===== *)
theory Lifecycle
  imports Operation Bmc K8s
begin

text \<open>
  \<^verbatim>\<open>internal/lifecycle/drainshutdown.go\<close> and \<^verbatim>\<open>poweron.go\<close>: the two node-lifecycle state
  machines. The backends they drive are the interfaces of the package, as records of calls; the
  log of the world records every call with its reply, so that what is done, and in which order, can
  be stated. The relations \<open>drain_spec\<close> and \<open>wake_spec\<close> say which logs, which steps and which
  outcomes a run may have, without clock, messages or backends; both machines are proved to
  implement them, and the safety properties are read off the relations.
\<close>

section \<open>Backends, options, the log\<close>

record 'w node_controller =
  nc_Cordon :: "string \<Rightarrow> ('w, err option) prim"
  nc_Drain :: "string \<Rightarrow> drain_options \<Rightarrow> ('w, err option) prim"

record 'w node_gater =
  ng_IsNodeReady :: "string \<Rightarrow> ('w, err + bool) prim"
  ng_NodeHasGPUCapacity :: "string \<Rightarrow> ('w, err + bool) prim"
  ng_IsNodeSchedulable :: "string \<Rightarrow> ('w, err + bool) prim"
  ng_Uncordon :: "string \<Rightarrow> ('w, err option) prim"

type_synonym 'w talos_shutdown = "string \<Rightarrow> ('w, err option) prim"
type_synonym 'w talos_reachable = "string \<Rightarrow> ('w, bool) prim"
type_synonym 'w storage_gate = "duration \<Rightarrow> ('w, err option) prim"

text \<open>
  \<open>Power\<close> is any \<open>bmc.Adapter\<close>; a nil \<open>Storage\<close>, \<open>Talos\<close> probe or clock is \<open>None\<close>. An injected
  clock is a function of the instant at which it is read.
\<close>

record 'w drain_deps =
  ds_Nodes :: "'w node_controller"
  ds_Talos :: "'w talos_shutdown"
  ds_Power :: "'w bmc_adapter"
  ds_Storage :: "'w storage_gate option"
  ds_Now :: "(time \<Rightarrow> time) option"

record drain_opts =
  ds_TalosEndpoint :: string
  ds_DrainTimeout :: duration
  ds_StorageTimeout :: duration
  ds_PowerOffTimeout :: duration
  ds_PollInterval :: duration
  ds_ForceBMCOff :: bool

record 'w wake_deps =
  po_Power :: "'w bmc_adapter"
  po_Talos :: "'w talos_reachable option"
  po_Nodes :: "'w node_gater"
  po_Now :: "(time \<Rightarrow> time) option"

record wake_opts =
  po_TalosEndpoint :: string
  po_ExpectGPU :: bool
  po_ReachableTimeout :: duration
  po_ReadyTimeout :: duration
  po_GPUTimeout :: duration
  po_PollInterval :: duration

text \<open>
  Next to the calls of the state machines the log has those of the layers above them: the assembly
  of the backends and their release (\<^verbatim>\<open>internal/operate\<close>, \<^verbatim>\<open>internal/controller\<close>), and the operator's
  reads of its object and updates of its status, with the phase written.
\<close>

datatype event =
    EvCordon string "err option"
  | EvDrain string "err option"
  | EvWaitDetached duration "err option"
  | EvShutdown string "err option"
  | EvGetPowerState bmc_result
  | EvHardOff bmc_result
  | EvPowerOn bmc_result
  | EvSoftOff bmc_result
  | EvReset bmc_result
  | EvReachable string bool
  | EvIsNodeReady string "err + bool"
  | EvNodeHasGPU string "err + bool"
  | EvIsNodeSchedulable string "err + bool"
  | EvUncordon string "err option"
  | EvBuild "err option"
  | EvClose
  | EvGetObject "err option"
  | EvUpdateStatus string "err option"

type_synonym 'w lworld = "('w, event) world"

section \<open>The waits\<close>

definition errMsg :: "err option \<Rightarrow> string" where
  "errMsg e = (case e of None \<Rightarrow> [] | Some e \<Rightarrow> Error e)"

definition waitPowerOff ::
  "'w bmc_adapter \<Rightarrow> duration \<Rightarrow> duration \<Rightarrow> ctx \<Rightarrow> 'w lworld \<Rightarrow> err option \<times> 'w lworld" where
  "waitPowerOff pw timeout poll c w =
     (let poll = (if poll \<le> 0 then 3 * Second else poll);
          timeout = (if timeout \<le> 0 then 5 * Minute else timeout)
      in case ctx_err c (w_clock w) of
           Some e \<Rightarrow> (Some e, w)
         | None \<Rightarrow>
             (case poll_loop EvGetPowerState (bmc_GetPowerState pw)
                     (\<lambda>res. if res_PowerState res = BmcOff then Some () else None)
                     c (w_clock w + timeout) poll w of
                (Inl _, w') \<Rightarrow> (None, w')
              | (Inr (res, e), w') \<Rightarrow>
                  (Some (wrap (''power still '' @ bmc_power_str (res_PowerState res) @ '' after '' @
                               duration_str timeout @ '': '') e), w')))"

definition waitUntil ::
  "duration \<Rightarrow> duration \<Rightarrow> string \<Rightarrow> (err + bool \<Rightarrow> event) \<Rightarrow> ('w, err + bool) prim \<Rightarrow>
   ctx \<Rightarrow> 'w lworld \<Rightarrow> err option \<times> 'w lworld" where
  "waitUntil timeout poll desc ev check c w =
     (let poll = (if poll \<le> 0 then 3 * Second else poll);
          timeout = (if timeout \<le> 0 then 5 * Minute else timeout)
      in case ctx_err c (w_clock w) of
           Some e \<Rightarrow> (Some e, w)
         | None \<Rightarrow>
             (case poll_loop ev check
                     (\<lambda>r. case r of
                        Inl e \<Rightarrow> Some (Some (wrap (desc @ '': '') e))
                      | Inr ok \<Rightarrow> if ok then Some None else None)
                     c (w_clock w + timeout) poll w of
                (Inl res, w') \<Rightarrow> (res, w')
              | (Inr (_, e), w') \<Rightarrow>
                  (Some (if errors_Is e DeadlineExceeded
                         then Err (desc @ '' not satisfied within '' @ duration_str timeout)
                         else wrap (desc @ '' wait cancelled: '') e), w')))"

section \<open>Drain and shut down\<close>

definition record_step ::
  "(time \<Rightarrow> time) option \<Rightarrow> string \<Rightarrow> err option \<Rightarrow> (string \<times> string) list \<Rightarrow> 'w lworld \<Rightarrow> step" where
  "record_step now name e details w =
     \<lparr>step_Name = name, step_Succeeded = (e = None), step_Message = errMsg e,
      step_Details = details,
      step_At = (case now of None \<Rightarrow> w_clock w | Some f \<Rightarrow> f (w_clock w))\<rparr>"

text \<open>
  The tail of \<open>DrainShutdown\<close>, from the wait for power-off on: without power-off, and when
  \<open>ForceBMCOff\<close> asks for it, the BMC forces the node off and the wait is repeated.
\<close>

definition confirm_off ::
  "ctx \<Rightarrow> string \<Rightarrow> 'w drain_deps \<Rightarrow> drain_opts \<Rightarrow> step list \<Rightarrow> 'w lworld \<Rightarrow>
   (step list \<times> err option) \<times> 'w lworld" where
  "confirm_off c node deps opts steps w =
     (let rec = record_step (ds_Now deps);
          wait = waitPowerOff (ds_Power deps) (ds_PowerOffTimeout opts) (ds_PollInterval opts) c;
          (offErr, w5) = wait w;
          steps = steps @ [rec ''wait-power-off'' offErr [] w5]
      in case offErr of
           None \<Rightarrow> ((steps, None), w5)
         | Some oe \<Rightarrow>
             if \<not> ds_ForceBMCOff opts
             then ((steps, Some (wrap (node @ '' did not power off after graceful shutdown: '') oe)), w5)
             else
               (let (res, w6) = invoke EvHardOff (bmc_HardOff (ds_Power deps)) c w5
                in if \<not> res_OK res
                   then (let e = Err (''bmc hard-off failed: '' @ res_Error res)
                         in ((steps @ [rec ''bmc-hard-off'' (Some e) [] w6], Some e), w6))
                   else
                     (let steps = steps @ [rec ''bmc-hard-off'' None [] w6];
                          (e7, w7) = wait w6;
                          steps = steps @ [rec ''wait-power-off-after-hardoff'' e7 [] w7]
                      in case e7 of
                           Some e \<Rightarrow> ((steps, Some (wrap (node @ '' still on after hard-off: '') e)), w7)
                         | None \<Rightarrow> ((steps, None), w7))))"

definition DrainShutdown ::
  "ctx \<Rightarrow> string \<Rightarrow> 'w drain_deps \<Rightarrow> drain_opts \<Rightarrow> 'w lworld \<Rightarrow>
   (step list \<times> err option) \<times> 'w lworld" where
  "DrainShutdown c node deps opts w =
     (let rec = record_step (ds_Now deps);
          (e1, w1) = invoke (EvCordon node) (nc_Cordon (ds_Nodes deps) node) c w;
          steps = [rec ''cordon'' e1 [] w1]
      in case e1 of
           Some e \<Rightarrow> ((steps, Some (wrap (''cordon '' @ node @ '': '') e)), w1)
         | None \<Rightarrow>
     (let drainOpts = \<lparr>do_GracePeriodSeconds = None, do_PollInterval = ds_PollInterval opts,
                       do_Timeout = ds_DrainTimeout opts\<rparr>;
          (e2, w2) = invoke (EvDrain node) (nc_Drain (ds_Nodes deps) node drainOpts) c w1;
          steps = steps @ [rec ''drain'' e2 [] w2]
      in case e2 of
           Some e \<Rightarrow> ((steps, Some (wrap (''drain '' @ node @ '': '') e)), w2)
         | None \<Rightarrow>
     (let (e3, details, w3) =
            (case ds_Storage deps of
               Some gate \<Rightarrow>
                 (case invoke (EvWaitDetached (ds_StorageTimeout opts))
                         (gate (ds_StorageTimeout opts)) c w2 of
                    (e, w') \<Rightarrow> (e, [], w'))
             | None \<Rightarrow> (None, [(''skipped'', ''no storage gate configured'')], w2));
          steps = steps @ [rec ''storage-gate'' e3 details w3]
      in case e3 of
           Some e \<Rightarrow> ((steps, Some (wrap (''storage gate '' @ node @ '': '') e)), w3)
         | None \<Rightarrow>
     (let (e4, w4) = invoke (EvShutdown (ds_TalosEndpoint opts))
                       (ds_Talos deps (ds_TalosEndpoint opts)) c w3;
          steps = steps @ [rec ''talos-shutdown'' e4 [] w4]
      in case e4 of
           Some e \<Rightarrow> ((steps, Some (wrap (''talos shutdown '' @ node @ '': '') e)), w4)
         | None \<Rightarrow> confirm_off c node deps opts steps w4))))"

section \<open>Power on\<close>

definition PowerOn ::
  "ctx \<Rightarrow> string \<Rightarrow> 'w wake_deps \<Rightarrow> wake_opts \<Rightarrow> 'w lworld \<Rightarrow>
   (step list \<times> err option) \<times> 'w lworld" where
  "PowerOn c node deps opts w =
     (let rec = record_step (po_Now deps);
          until = (\<lambda>timeout. waitUntil timeout (po_PollInterval opts));
          (state, w0) = invoke EvGetPowerState (bmc_GetPowerState (po_Power deps)) c w;
          (e1, details, w1) =
            (if res_OK state \<and> res_PowerState state = BmcOn
             then (None, [(''already'', ''on'')], w0)
             else (case invoke EvPowerOn (bmc_PowerOn (po_Power deps)) c w0 of
                     (res, w') \<Rightarrow>
                       if \<not> res_OK res
                       then (Some (Err (''bmc power-on failed: '' @ res_Error res)), [], w')
                       else (None, [], w')));
          steps = [rec ''bmc-power-on'' e1 details w1]
      in case e1 of
           Some e \<Rightarrow> ((steps, Some e), w1)
         | None \<Rightarrow>
     (let (e2, details, w2) =
            (case po_Talos deps of
               None \<Rightarrow> (None, [(''skipped'', ''talos reachability unavailable'')], w1)
             | Some reachable \<Rightarrow>
                 (case until (po_ReachableTimeout opts) ''talos reachable''
                         (\<lambda>r. EvReachable (po_TalosEndpoint opts) (r = Inr True))
                         (\<lambda>c t s. case reachable (po_TalosEndpoint opts) c t s of
                                    (b, dt, s') \<Rightarrow> (Inr b, dt, s')) c w1 of
                    (e, w') \<Rightarrow> (e, [], w')));
          steps = steps @ [rec ''wait-talos-reachable'' e2 details w2]
      in case e2 of
           Some e \<Rightarrow> ((steps, Some (wrap (node @ '': '') e)), w2)
         | None \<Rightarrow>
     (let (e3, w3) = until (po_ReadyTimeout opts) ''node ready'' (EvIsNodeReady node)
                       (ng_IsNodeReady (po_Nodes deps) node) c w2;
          steps = steps @ [rec ''wait-node-ready'' e3 [] w3]
      in case e3 of
           Some e \<Rightarrow> ((steps, Some (wrap (node @ '': '') e)), w3)
         | None \<Rightarrow>
     (let (e4, details, w4) =
            (if po_ExpectGPU opts
             then (case until (po_GPUTimeout opts) ''gpu registered'' (EvNodeHasGPU node)
                           (ng_NodeHasGPUCapacity (po_Nodes deps) node) c w3 of
                     (e, w') \<Rightarrow> (e, [], w'))
             else (None, [(''skipped'', ''node not GPU-bearing'')], w3));
          steps = steps @ [rec ''wait-gpu-registered'' e4 details w4]
      in case e4 of
           Some e \<Rightarrow> ((steps, Some (wrap (node @ '': '') e)), w4)
         | None \<Rightarrow>
     (let (e5, w5) = invoke (EvUncordon node) (ng_Uncordon (po_Nodes deps) node) c w4;
          steps = steps @ [rec ''uncordon'' e5 [] w5]
      in case e5 of
           Some e \<Rightarrow> ((steps, Some (wrap (''uncordon '' @ node @ '': '') e)), w5)
         | None \<Rightarrow> ((steps, None), w5))))))"

end
