(* ===== verification/Lifecycle_Spec.thy ===== *)
theory Lifecycle_Spec
  imports Lifecycle
begin

text \<open>
  The abstract specification of the two lifecycle state machines of \<open>Lifecycle\<close>, and the lemmas
  that the machines implement it: what the waits log (\<open>waitPowerOff_trace\<close>, \<open>waitUntil_trace\<close>),
  the relations \<open>drain_spec\<close> and \<open>wake_spec\<close> of allowed runs, and \<open>DrainShutdown_trace\<close> and
  \<open>PowerOn_trace\<close>.
\<close>

section \<open>The waits\<close>

text \<open>Readings of the BMC of which none, respectively only the last, reports power-off.\<close>

definition never_off :: "event list \<Rightarrow> bool" where
  "never_off evs \<longleftrightarrow>
     (\<exists>rs. evs = map EvGetPowerState rs \<and> (\<forall>r \<in> set rs. res_PowerState r \<noteq> BmcOff))"

definition polled_off :: "event list \<Rightarrow> bool" where
  "polled_off evs \<longleftrightarrow>
     (\<exists>rs r. evs = map EvGetPowerState rs @ [EvGetPowerState r] \<and>
        (\<forall>x \<in> set rs. res_PowerState x \<noteq> BmcOff) \<and> res_PowerState r = BmcOff)"

lemma waitPowerOff_trace:
  assumes "waitPowerOff pw timeout poll c w = (e, w')"
  shows "\<exists>evs. w_trace w' = w_trace w @ evs \<and>
           (case e of None \<Rightarrow> polled_off evs | Some _ \<Rightarrow> never_off evs)"
proof (cases "ctx_err c (w_clock w)")
  case (Some e')
  with assms have "w' = w" and "e = Some e'" by (simp_all add: waitPowerOff_def Let_def)
  then show ?thesis by (simp add: never_off_def)
next
  case None
  let ?poll = "if poll \<le> 0 then 3 * Second else poll"
  let ?dl = "w_clock w + (if timeout \<le> 0 then 5 * Minute else timeout)"
  let ?stop = "\<lambda>res. if res_PowerState res = BmcOff then Some () else None"
  obtain res w1 where loop:
    "poll_loop EvGetPowerState (bmc_GetPowerState pw) ?stop c ?dl ?poll w = (res, w1)"
    by (rule prod.exhaust)
  obtain rs r where tr: "w_trace w1 = w_trace w @ map EvGetPowerState rs @ [EvGetPowerState r]"
    and rs: "\<forall>x \<in> set rs. ?stop x = None" and fin: "poll_ended ?stop c ?dl r res (w_clock w1)"
    using poll_loop_trace [OF loop] by blast
  from rs have rs': "\<forall>x \<in> set rs. res_PowerState x \<noteq> BmcOff" by (auto split: if_splits)
  show ?thesis
  proof (cases res)
    case (Inl u)
    with assms None loop have "e = None" and "w' = w1"
      by (simp_all add: waitPowerOff_def Let_def)
    moreover from fin Inl have "res_PowerState r = BmcOff"
      by (simp add: poll_ended_def split: if_splits)
    ultimately show ?thesis using tr rs' by (auto simp: polled_off_def)
  next
    case (Inr p)
    with assms None loop have "e \<noteq> None" and "w' = w1"
      by (auto simp: waitPowerOff_def Let_def split: prod.splits)
    moreover from fin Inr have "res_PowerState r \<noteq> BmcOff"
      by (auto simp: poll_ended_def split: if_splits prod.splits)
    ultimately show ?thesis
      using tr rs' by (auto simp: never_off_def intro!: exI [of _ "rs @ [r]"])
  qed
qed

text \<open>
  \<open>waitUntil\<close>: success needs a check that answered true; before it, and on every failure by
  timeout, all checks answered false; a check that failed ends the wait at once.
\<close>

definition polled_until :: "(err + bool \<Rightarrow> event) \<Rightarrow> err option \<Rightarrow> event list \<Rightarrow> bool" where
  "polled_until ev e evs \<longleftrightarrow>
     (\<exists>n r. evs = replicate n (ev (Inr False)) @ r \<and>
        (case e of
           None \<Rightarrow> r = [ev (Inr True)]
         | Some _ \<Rightarrow> r = [] \<or> (\<exists>e'. r = [ev (Inl e')])))"

lemma polled_untilI:
  assumes "\<forall>x \<in> set rs. x = Inr False"
    and "case e of None \<Rightarrow> r = Inr True | Some _ \<Rightarrow> r = Inr False \<or> isl r"
  shows "polled_until ev e (map ev rs @ [ev r])"
proof -
  have reps: "map ev rs = replicate (length rs) (ev (Inr False))"
    using assms(1) by (intro replicate_eqI) auto
  show ?thesis
  proof (cases "r = Inr False")
    case True
    then have "map ev rs @ [ev r] = replicate (Suc (length rs)) (ev (Inr False)) @ []"
      using reps by (simp add: replicate_append_same [symmetric])
    moreover have "e \<noteq> None" using True assms(2) by (cases e) auto
    ultimately show ?thesis unfolding polled_until_def
      by (intro exI [of _ "Suc (length rs)"] exI [of _ "[]"]) (auto split: option.splits)
  next
    case False
    then have "case e of None \<Rightarrow> [ev r] = [ev (Inr True)] | Some _ \<Rightarrow> \<exists>e'. [ev r] = [ev (Inl e')]"
      using assms(2) by (cases r) (auto split: option.splits)
    then show ?thesis unfolding polled_until_def reps
      by (intro exI [of _ "length rs"] exI [of _ "[ev r]"]) (auto split: option.splits)
  qed
qed

lemma waitUntil_trace:
  assumes "waitUntil timeout poll desc ev check c w = (e, w')"
  shows "\<exists>evs. w_trace w' = w_trace w @ evs \<and> polled_until ev e evs"
proof (cases "ctx_err c (w_clock w)")
  case (Some e')
  with assms have "w' = w" and "e = Some e'" by (simp_all add: waitUntil_def Let_def)
  then show ?thesis by (auto simp: polled_until_def)
next
  case None
  let ?poll = "if poll \<le> 0 then 3 * Second else poll"
  let ?dl = "w_clock w + (if timeout \<le> 0 then 5 * Minute else timeout)"
  let ?stop = "\<lambda>r. case r of Inl e \<Rightarrow> Some (Some (wrap (desc @ '': '') e))
                 | Inr ok \<Rightarrow> if ok then Some None else None"
  obtain res w1 where loop: "poll_loop ev check ?stop c ?dl ?poll w = (res, w1)"
    by (rule prod.exhaust)
  obtain rs r where tr: "w_trace w1 = w_trace w @ map ev rs @ [ev r]"
    and rs: "\<forall>x \<in> set rs. ?stop x = None" and fin: "poll_ended ?stop c ?dl r res (w_clock w1)"
    using poll_loop_trace [OF loop] by blast
  have stop: "x = Inr False" if "?stop x = None" for x
    using that by (cases x) (auto split: if_splits)
  have w': "w' = w1" and e: "case res of Inl a \<Rightarrow> e = a | Inr _ \<Rightarrow> e \<noteq> None"
    using assms None loop by (auto simp: waitUntil_def Let_def split: sum.splits prod.splits)
  have "case e of None \<Rightarrow> r = Inr True | Some _ \<Rightarrow> r = Inr False \<or> isl r"
  proof (cases res)
    case (Inl a)
    with e fin have "?stop r = Some e" by (simp add: poll_ended_def)
    then show ?thesis by (cases r) (auto split: if_splits option.splits)
  next
    case (Inr p)
    with fin have "r = Inr False" by (intro stop) (auto simp: poll_ended_def split: prod.splits)
    then show ?thesis using Inr e by (auto split: option.splits)
  qed
  with tr rs stop show ?thesis unfolding w' by (metis polled_untilI)
qed

section \<open>The abstract drain\<close>

text \<open>
  \<open>drain_spec gate force node endpoint evs steps ok\<close>: a run may log \<open>evs\<close>, record the steps
  \<open>steps\<close> (names and verdicts) and succeed iff \<open>ok\<close>. \<open>gate\<close> is the time-out of the storage gate,
  when there is one.
\<close>

definition gate_log :: "duration option \<Rightarrow> event list" where
  "gate_log gate = (case gate of None \<Rightarrow> [] | Some d \<Rightarrow> [EvWaitDetached d None])"

definition detached_log :: "duration option \<Rightarrow> string \<Rightarrow> event list" where
  "detached_log gate node = [EvCordon node None, EvDrain node None] @ gate_log gate"

abbreviation detached_steps :: "(string \<times> bool) list" where
  "detached_steps \<equiv> [(''cordon'', True), (''drain'', True), (''storage-gate'', True)]"

inductive drain_spec ::
  "duration option \<Rightarrow> bool \<Rightarrow> string \<Rightarrow> string \<Rightarrow> event list \<Rightarrow> (string \<times> bool) list \<Rightarrow> bool \<Rightarrow> bool"
  for gate force node endpoint
where
  cordon_fails:
    "drain_spec gate force node endpoint [EvCordon node (Some e)] [(''cordon'', False)] False"
| drain_fails:
    "drain_spec gate force node endpoint [EvCordon node None, EvDrain node (Some e)]
       [(''cordon'', True), (''drain'', False)] False"
| gate_fails:
    "gate = Some d \<Longrightarrow>
     drain_spec gate force node endpoint
       [EvCordon node None, EvDrain node None, EvWaitDetached d (Some e)]
       [(''cordon'', True), (''drain'', True), (''storage-gate'', False)] False"
| shutdown_fails:
    "drain_spec gate force node endpoint (detached_log gate node @ [EvShutdown endpoint (Some e)])
       (detached_steps @ [(''talos-shutdown'', False)]) False"
| powers_off:
    "polled_off evs \<Longrightarrow>
     drain_spec gate force node endpoint (detached_log gate node @ [EvShutdown endpoint None] @ evs)
       (detached_steps @ [(''talos-shutdown'', True), (''wait-power-off'', True)]) True"
| stays_on:
    "\<not> force \<Longrightarrow> never_off evs \<Longrightarrow>
     drain_spec gate force node endpoint (detached_log gate node @ [EvShutdown endpoint None] @ evs)
       (detached_steps @ [(''talos-shutdown'', True), (''wait-power-off'', False)]) False"
| hard_off_fails:
    "force \<Longrightarrow> never_off evs \<Longrightarrow> \<not> res_OK r \<Longrightarrow>
     drain_spec gate force node endpoint
       (detached_log gate node @ [EvShutdown endpoint None] @ evs @ [EvHardOff r])
       (detached_steps @ [(''talos-shutdown'', True), (''wait-power-off'', False),
          (''bmc-hard-off'', False)]) False"
| forced_off:
    "force \<Longrightarrow> never_off evs \<Longrightarrow> res_OK r \<Longrightarrow> polled_off evs' \<Longrightarrow>
     drain_spec gate force node endpoint
       (detached_log gate node @ [EvShutdown endpoint None] @ evs @ [EvHardOff r] @ evs')
       (detached_steps @ [(''talos-shutdown'', True), (''wait-power-off'', False),
          (''bmc-hard-off'', True), (''wait-power-off-after-hardoff'', True)]) True"
| still_on:
    "force \<Longrightarrow> never_off evs \<Longrightarrow> res_OK r \<Longrightarrow> never_off evs' \<Longrightarrow>
     drain_spec gate force node endpoint
       (detached_log gate node @ [EvShutdown endpoint None] @ evs @ [EvHardOff r] @ evs')
       (detached_steps @ [(''talos-shutdown'', True), (''wait-power-off'', False),
          (''bmc-hard-off'', True), (''wait-power-off-after-hardoff'', False)]) False"

definition step_verdicts :: "step list \<Rightarrow> (string \<times> bool) list" where
  "step_verdicts = map (\<lambda>s. (step_Name s, step_Succeeded s))"

lemma step_verdicts_simps [simp]:
  "step_verdicts [] = []"
  "step_verdicts (xs @ ys) = step_verdicts xs @ step_verdicts ys"
  "step_verdicts (record_step now name e d w # xs) = (name, e = None) # step_verdicts xs"
  by (simp_all add: step_verdicts_def record_step_def)

definition gate_of :: "'w drain_deps \<Rightarrow> drain_opts \<Rightarrow> duration option" where
  "gate_of deps opts = (case ds_Storage deps of None \<Rightarrow> None | Some _ \<Rightarrow> Some (ds_StorageTimeout opts))"

text \<open>The escalation: from a node that stayed on to the end of the run.\<close>

lemma hard_off_trace:
  assumes force: "force" and off: "never_off evs"
    and pre: "w_trace w = log @ detached_log gate node @ [EvShutdown endpoint None] @ evs"
    and w6: "invoke EvHardOff (bmc_HardOff pw) c w = (r, w6)"
    and w7: "waitPowerOff pw timeout poll c w6 = (e7, w7)"
  shows "\<exists>evs'. w_trace (if res_OK r then w7 else w6) = log @ evs' \<and>
    drain_spec gate force node endpoint evs'
      (detached_steps @ [(''talos-shutdown'', True), (''wait-power-off'', False), (''bmc-hard-off'', res_OK r)] @
       (if res_OK r then [(''wait-power-off-after-hardoff'', e7 = None)] else [])) (res_OK r \<and> e7 = None)"
proof -
  have t6: "w_trace w6 = log @ detached_log gate node @ [EvShutdown endpoint None] @ evs @ [EvHardOff r]"
    using w_trace_invoke [OF w6] pre by simp
  obtain evs2 where evs2: "w_trace w7 = w_trace w6 @ evs2"
    and off2: "case e7 of None \<Rightarrow> polled_off evs2 | Some _ \<Rightarrow> never_off evs2"
    using waitPowerOff_trace [OF w7] by blast
  show ?thesis
  proof (cases "res_OK r")
    case False
    with t6 drain_spec.hard_off_fails [OF force off False, of gate node endpoint] show ?thesis by auto
  next
    case ok: True
    show ?thesis
      using t6 evs2 off2 ok drain_spec.forced_off [OF force off ok, of evs2 gate node endpoint]
        drain_spec.still_on [OF force off ok, of evs2 gate node endpoint]
      by (cases e7) auto
  qed
qed

lemma confirm_off_trace:
  assumes run: "confirm_off c node deps opts steps w = ((steps', err), w')"
    and pre: "w_trace w = log @ detached_log gate node @ [EvShutdown endpoint None]"
    and vs: "step_verdicts steps = detached_steps @ [(''talos-shutdown'', True)]"
  shows "\<exists>evs. w_trace w' = log @ evs \<and>
    drain_spec gate (ds_ForceBMCOff opts) node endpoint evs (step_verdicts steps') (err = None)"
proof -
  let ?force = "ds_ForceBMCOff opts"
  let ?wait = "waitPowerOff (ds_Power deps) (ds_PowerOffTimeout opts) (ds_PollInterval opts) c"
  obtain e5 w5 where w5: "?wait w = (e5, w5)" by (rule prod.exhaust)
  obtain r w6 where w6: "invoke EvHardOff (bmc_HardOff (ds_Power deps)) c w5 = (r, w6)"
    by (rule prod.exhaust)
  obtain e7 w7 where w7: "?wait w6 = (e7, w7)" by (rule prod.exhaust)
  obtain evs where evs: "w_trace w5 = w_trace w @ evs"
    and off: "case e5 of None \<Rightarrow> polled_off evs | Some _ \<Rightarrow> never_off evs"
    using waitPowerOff_trace [OF w5] by blast
  note run' = run [unfolded confirm_off_def Let_def w5 w6 w7 prod.case]
  consider "e5 = None" | e where "e5 = Some e" "\<not> ?force" | e where "e5 = Some e" ?force by (cases e5) auto
  then show ?thesis
  proof cases
    case 1
    with run' evs off pre vs drain_spec.powers_off [of evs gate ?force node endpoint] show ?thesis by (auto simp: w7)
  next
    case 2
    with run' evs off pre vs drain_spec.stays_on [of ?force evs gate node endpoint] show ?thesis by auto
  next
    case 3
    have t5: "w_trace w5 = log @ detached_log gate node @ [EvShutdown endpoint None] @ evs" using evs pre by simp
    have "never_off evs" using 3 off by simp
    from hard_off_trace [OF 3(2) this t5 w6 w7] show ?thesis
      using 3 run' vs by (cases "res_OK r"; cases e7) (auto simp: w7 Let_def)
  qed
qed

text \<open>The storage gate, and everything from the shutdown of the operating system on.\<close>

lemma storage_stage_trace:
  assumes "(case ds_Storage deps of
        Some gate \<Rightarrow> (case invoke (EvWaitDetached (ds_StorageTimeout opts)) (gate (ds_StorageTimeout opts)) c w of
                        (e, w') \<Rightarrow> (e, [], w'))
      | None \<Rightarrow> (None, skipped, w)) = (e, d, w')"
  shows "w_trace w' = w_trace w @ (case gate_of deps opts of None \<Rightarrow> [] | Some d \<Rightarrow> [EvWaitDetached d e]) \<and>
    (gate_of deps opts = None \<longrightarrow> e = None)"
  using assms by (auto simp: gate_of_def w_trace_invoke split: option.splits prod.splits)

lemma shutdown_stage_trace:
  assumes run: "(case e of
        Some e \<Rightarrow> ((steps, Some (wrap msg e)), w4)
      | None \<Rightarrow> confirm_off c node deps opts steps w4) = ((steps', err), w')"
    and w4: "invoke (EvShutdown endpoint) shutdown c w = (e, w4)"
    and pre: "w_trace w = log @ detached_log gate node"
    and vs: "step_verdicts steps = detached_steps @ [(''talos-shutdown'', e = None)]"
  shows "\<exists>evs. w_trace w' = log @ evs \<and>
    drain_spec gate (ds_ForceBMCOff opts) node endpoint evs (step_verdicts steps') (err = None)"
proof (cases e)
  case (Some e')
  with run pre vs w_trace_invoke [OF w4] drain_spec.shutdown_fails [of gate _ node endpoint e'] show ?thesis by auto
next
  case None
  with run have "confirm_off c node deps opts steps w4 = ((steps', err), w')" by simp
  then show ?thesis by (rule confirm_off_trace) (use None pre vs w_trace_invoke [OF w4] in simp_all)
qed

lemma DrainShutdown_trace:
  assumes run: "DrainShutdown c node deps opts w = ((steps, err), w')"
  shows "\<exists>evs. w_trace w' = w_trace w @ evs \<and>
    drain_spec (gate_of deps opts) (ds_ForceBMCOff opts) node (ds_TalosEndpoint opts) evs
      (step_verdicts steps) (err = None)"
proof -
  let ?ep = "ds_TalosEndpoint opts" and ?st = "ds_StorageTimeout opts" and ?gate = "gate_of deps opts"
  let ?drain = "\<lparr>do_GracePeriodSeconds = None, do_PollInterval = ds_PollInterval opts, do_Timeout = ds_DrainTimeout opts\<rparr>"
  obtain e1 w1 where w1: "invoke (EvCordon node) (nc_Cordon (ds_Nodes deps) node) c w = (e1, w1)" by (rule prod.exhaust)
  obtain e2 w2 where w2: "invoke (EvDrain node) (nc_Drain (ds_Nodes deps) node ?drain) c w1 = (e2, w2)" by (rule prod.exhaust)
  obtain e3 d3 w3 where w3: "(case ds_Storage deps of
        Some gate \<Rightarrow> (case invoke (EvWaitDetached ?st) (gate ?st) c w2 of (e, w') \<Rightarrow> (e, [], w'))
      | None \<Rightarrow> (None, [(''skipped'', ''no storage gate configured'')], w2)) = (e3, d3, w3)" by (rule prod_cases3)
  obtain e4 w4 where w4: "invoke (EvShutdown ?ep) (ds_Talos deps ?ep) c w3 = (e4, w4)" by (rule prod.exhaust)
  note run' = run [unfolded DrainShutdown_def Let_def w1 w2 w3 w4 prod.case]
  note t1 = w_trace_invoke [OF w1] and t2 = w_trace_invoke [OF w2] and t3 = storage_stage_trace [OF w3]
  consider e where "e1 = Some e" | e where "e1 = None" "e2 = Some e" | e where "e1 = None" "e2 = None" "e3 = Some e"
    | "e1 = None" "e2 = None" "e3 = None" by (metis not_None_eq)
  then show ?thesis
  proof cases
    case (1 e)
    with run' t1 show ?thesis by (auto intro: drain_spec.cordon_fails)
  next
    case (2 e)
    with run' t1 t2 show ?thesis by (auto simp: w2 intro: drain_spec.drain_fails)
  next
    case (3 e)
    then obtain d where "?gate = Some d" using t3 by fastforce
    with 3 run' t1 t2 t3 drain_spec.gate_fails [of ?gate d _ node] show ?thesis by (auto simp: w2 w3)
  next
    case 4
    have pre: "w_trace w3 = w_trace w @ detached_log ?gate node"
      using 4 t1 t2 t3 by (auto simp: detached_log_def gate_log_def split: option.splits)
    from run' 4 show ?thesis
      by (intro shutdown_stage_trace [OF _ w4 pre]) (simp add: w2 w3 w4, simp)
  qed
qed

section \<open>The abstract wake\<close>

text \<open>
  \<open>wake_spec probe gpu node endpoint evs steps ok\<close>: the same for \<open>PowerOn\<close>; \<open>probe\<close> says that a
  Talos reachability probe is wired, \<open>gpu\<close> that the wake waits for the GPU.
\<close>

definition reads_on :: "bmc_result \<Rightarrow> bool" where
  "reads_on s \<longleftrightarrow> res_OK s \<and> res_PowerState s = BmcOn"

definition powered_log :: "event list \<Rightarrow> bool" where
  "powered_log evs \<longleftrightarrow>
     (\<exists>s. evs = [EvGetPowerState s] \<and> reads_on s) \<or>
     (\<exists>s r. evs = [EvGetPowerState s, EvPowerOn r] \<and> \<not> reads_on s \<and> res_OK r)"

definition waited :: "bool \<Rightarrow> (err + bool \<Rightarrow> event) \<Rightarrow> event list \<Rightarrow> bool" where
  "waited needed ev evs \<longleftrightarrow> (if needed then polled_until ev None evs else evs = [])"

abbreviation reach_ev :: "string \<Rightarrow> err + bool \<Rightarrow> event" where
  "reach_ev endpoint \<equiv> \<lambda>r. EvReachable endpoint (r = Inr True)"

inductive wake_spec ::
  "bool \<Rightarrow> bool \<Rightarrow> string \<Rightarrow> string \<Rightarrow> event list \<Rightarrow> (string \<times> bool) list \<Rightarrow> bool \<Rightarrow> bool"
  for probe gpu node endpoint
where
  power_on_fails:
    "\<not> reads_on s \<Longrightarrow> \<not> res_OK r \<Longrightarrow>
     wake_spec probe gpu node endpoint [EvGetPowerState s, EvPowerOn r] [(''bmc-power-on'', False)] False"
| unreachable:
    "powered_log a \<Longrightarrow> probe \<Longrightarrow> polled_until (reach_ev endpoint) (Some e) b \<Longrightarrow>
     wake_spec probe gpu node endpoint (a @ b)
       [(''bmc-power-on'', True), (''wait-talos-reachable'', False)] False"
| not_ready:
    "powered_log a \<Longrightarrow> waited probe (reach_ev endpoint) b \<Longrightarrow>
     polled_until (EvIsNodeReady node) (Some e) d \<Longrightarrow>
     wake_spec probe gpu node endpoint (a @ b @ d)
       [(''bmc-power-on'', True), (''wait-talos-reachable'', True), (''wait-node-ready'', False)] False"
| no_gpu:
    "powered_log a \<Longrightarrow> waited probe (reach_ev endpoint) b \<Longrightarrow>
     waited True (EvIsNodeReady node) d \<Longrightarrow> gpu \<Longrightarrow>
     polled_until (EvNodeHasGPU node) (Some e) g \<Longrightarrow>
     wake_spec probe gpu node endpoint (a @ b @ d @ g)
       [(''bmc-power-on'', True), (''wait-talos-reachable'', True), (''wait-node-ready'', True),
        (''wait-gpu-registered'', False)] False"
| uncordons:
    "powered_log a \<Longrightarrow> waited probe (reach_ev endpoint) b \<Longrightarrow>
     waited True (EvIsNodeReady node) d \<Longrightarrow> waited gpu (EvNodeHasGPU node) g \<Longrightarrow>
     wake_spec probe gpu node endpoint (a @ b @ d @ g @ [EvUncordon node u])
       [(''bmc-power-on'', True), (''wait-talos-reachable'', True), (''wait-node-ready'', True),
        (''wait-gpu-registered'', True), (''uncordon'', u = None)] (u = None)"

definition wait_log :: "bool \<Rightarrow> (err + bool \<Rightarrow> event) \<Rightarrow> err option \<Rightarrow> event list \<Rightarrow> bool" where
  "wait_log needed ev e evs \<longleftrightarrow> (if needed then polled_until ev e evs else e = None \<and> evs = [])"

lemma wait_log_None [simp]: "wait_log needed ev None evs = waited needed ev evs"
  by (simp add: wait_log_def waited_def)

lemma wait_log_Some [simp]: "wait_log needed ev (Some e) evs = (needed \<and> polled_until ev (Some e) evs)"
  by (simp add: wait_log_def)

lemma optional_wait_trace:
  assumes "(case po of
      None \<Rightarrow> (None, skipped, w)
    | Some x \<Rightarrow> (case waitUntil timeout poll desc ev (check x) c w of (e, w') \<Rightarrow> (e, [], w'))) = (e, d, w')"
  shows "\<exists>evs. w_trace w' = w_trace w @ evs \<and> wait_log (po \<noteq> None) ev e evs"
proof (cases po)
  case None
  with assms show ?thesis by (simp add: wait_log_def)
next
  case (Some x)
  with assms have "waitUntil timeout poll desc ev (check x) c w = (e, w')"
    by (simp split: prod.splits)
  from waitUntil_trace [OF this] Some show ?thesis by (simp add: wait_log_def)
qed

text \<open>The first stage: a reading, and power-on when it is not \<open>on\<close>.\<close>

definition powered_or_failed :: "err option \<Rightarrow> event list \<Rightarrow> bool" where
  "powered_or_failed e evs \<longleftrightarrow>
     (if e = None then powered_log evs
      else (\<exists>s r. evs = [EvGetPowerState s, EvPowerOn r] \<and> \<not> reads_on s \<and> \<not> res_OK r))"

lemma power_stage_trace:
  assumes w0: "invoke EvGetPowerState getPower c w = (s, w0)"
    and w1: "(if res_OK s \<and> res_PowerState s = BmcOn then (None, already, w0)
      else (case invoke EvPowerOn powerOn c w0 of
              (res, w') \<Rightarrow> if \<not> res_OK res then (Some (failed res), [], w') else (None, [], w'))) = (e1, d1, w1)"
  shows "\<exists>a. w_trace w1 = w_trace w @ a \<and> powered_or_failed e1 a"
proof (cases "reads_on s")
  case True
  with w1 have "e1 = None" and "w1 = w0" by (auto simp: reads_on_def)
  with True w_trace_invoke [OF w0] show ?thesis by (auto simp: powered_or_failed_def powered_log_def)
next
  case False
  obtain r wp where wp: "invoke EvPowerOn powerOn c w0 = (r, wp)" by (rule prod.exhaust)
  have "w_trace wp = w_trace w @ [EvGetPowerState s, EvPowerOn r]"
    using w_trace_invoke [OF w0] w_trace_invoke [OF wp] by simp
  moreover have "w1 = wp" and "e1 = None \<longleftrightarrow> res_OK r"
    using w1 False by (auto simp: wp reads_on_def split: if_splits)
  ultimately show ?thesis using False
    by (intro exI [of _ "[EvGetPowerState s, EvPowerOn r]"]) (simp add: powered_or_failed_def powered_log_def)
qed

text \<open>
  The log and the verdicts of a wake whose five stages ended with \<open>e1\<close> to \<open>e5\<close> and would log \<open>a\<close>, \<open>b\<close>, \<open>d\<close>, \<open>g\<close> and
  the uncordon: up to the first stage that failed.
\<close>

definition wake_log :: "err option list \<Rightarrow> event list list \<Rightarrow> event list" where
  "wake_log es logs = concat (take (Suc (length (takeWhile (\<lambda>e. e = None) es))) logs)"

definition wake_verdicts :: "err option list \<Rightarrow> (string \<times> bool) list" where
  "wake_verdicts es =
     take (Suc (length (takeWhile (\<lambda>e. e = None) es)))
       (zip [''bmc-power-on'', ''wait-talos-reachable'', ''wait-node-ready'', ''wait-gpu-registered'', ''uncordon'']
          (map (\<lambda>e. e = None) es))"

lemma wake_spec_stages:
  assumes "powered_or_failed e1 a" and "wait_log probe (reach_ev endpoint) e2 b"
    and "wait_log True (EvIsNodeReady node) e3 d" and "wait_log gpu (EvNodeHasGPU node) e4 g"
  shows "wake_spec probe gpu node endpoint (wake_log [e1, e2, e3, e4, e5] [a, b, d, g, [EvUncordon node e5]])
    (wake_verdicts [e1, e2, e3, e4, e5]) (list_all (\<lambda>e. e = None) [e1, e2, e3, e4, e5])"
proof -
  note eval = wake_log_def wake_verdicts_def powered_or_failed_def
  consider "e1 \<noteq> None" | "e1 = None" "e2 \<noteq> None" | "e1 = None" "e2 = None" "e3 \<noteq> None"
    | "e1 = None" "e2 = None" "e3 = None" "e4 \<noteq> None"
    | "e1 = None" "e2 = None" "e3 = None" "e4 = None"
    by blast
  then show ?thesis
  proof cases
    case 1
    then show ?thesis using assms by (auto simp: eval intro: wake_spec.power_on_fails)
  next
    case 2
    then show ?thesis using assms by (auto simp: eval intro: wake_spec.unreachable)
  next
    case 3
    then show ?thesis using assms by (auto simp: eval intro: wake_spec.not_ready)
  next
    case 4
    then show ?thesis using assms by (auto simp: eval intro: wake_spec.no_gpu)
  next
    case 5
    then show ?thesis using assms wake_spec.uncordons [of a probe endpoint b node d gpu g e5]
      by (cases e5) (simp_all add: eval)
  qed
qed

lemma PowerOn_trace:
  assumes run: "PowerOn c node deps opts w = ((steps, err), w')"
  shows "\<exists>evs. w_trace w' = w_trace w @ evs \<and>
    wake_spec (po_Talos deps \<noteq> None) (po_ExpectGPU opts) node (po_TalosEndpoint opts) evs
      (step_verdicts steps) (err = None)"
proof -
  let ?ep = "po_TalosEndpoint opts" and ?until = "\<lambda>timeout. waitUntil timeout (po_PollInterval opts)"
  obtain s w0 where w0: "invoke EvGetPowerState (bmc_GetPowerState (po_Power deps)) c w = (s, w0)" by (rule prod.exhaust)
  obtain e1 d1 w1 where w1: "(if res_OK s \<and> res_PowerState s = BmcOn then (None, [(''already'', ''on'')], w0)
      else (case invoke EvPowerOn (bmc_PowerOn (po_Power deps)) c w0 of
              (res, w') \<Rightarrow> if \<not> res_OK res then (Some (Err (''bmc power-on failed: '' @ res_Error res)), [], w')
                          else (None, [], w'))) = (e1, d1, w1)" by (rule prod_cases3)
  obtain e2 d2 w2 where w2: "(case po_Talos deps of
        None \<Rightarrow> (None, [(''skipped'', ''talos reachability unavailable'')], w1)
      | Some reachable \<Rightarrow>
          (case ?until (po_ReachableTimeout opts) ''talos reachable'' (reach_ev ?ep)
                  (\<lambda>c t s. case reachable ?ep c t s of (b, dt, s') \<Rightarrow> (Inr b, dt, s')) c w1 of
             (e, w') \<Rightarrow> (e, [], w'))) = (e2, d2, w2)" by (rule prod_cases3)
  obtain e3 w3 where w3: "?until (po_ReadyTimeout opts) ''node ready'' (EvIsNodeReady node)
    (ng_IsNodeReady (po_Nodes deps) node) c w2 = (e3, w3)" by (rule prod.exhaust)
  obtain e4 d4 w4 where w4: "(if po_ExpectGPU opts
      then (case ?until (po_GPUTimeout opts) ''gpu registered'' (EvNodeHasGPU node)
                    (ng_NodeHasGPUCapacity (po_Nodes deps) node) c w3 of (e, w') \<Rightarrow> (e, [], w'))
      else (None, [(''skipped'', ''node not GPU-bearing'')], w3)) = (e4, d4, w4)" by (rule prod_cases3)
  obtain e5 w5 where w5: "invoke (EvUncordon node) (ng_Uncordon (po_Nodes deps) node) c w4 = (e5, w5)" by (rule prod.exhaust)
  obtain a where a: "w_trace w1 = w_trace w @ a" "powered_or_failed e1 a" using power_stage_trace [OF w0 w1] by blast
  obtain b where b: "w_trace w2 = w_trace w1 @ b" "wait_log (po_Talos deps \<noteq> None) (reach_ev ?ep) e2 b"
    using optional_wait_trace [OF w2] by blast
  obtain d where d: "w_trace w3 = w_trace w2 @ d" "wait_log True (EvIsNodeReady node) e3 d"
    using waitUntil_trace [OF w3] by (auto simp: wait_log_def)
  obtain g where g: "w_trace w4 = w_trace w3 @ g" "wait_log (po_ExpectGPU opts) (EvNodeHasGPU node) e4 g"
    using w4 waitUntil_trace by (cases "po_ExpectGPU opts") (fastforce simp: wait_log_def split: prod.splits)+
  let ?es = "[e1, e2, e3, e4, e5]" and ?logs = "[a, b, d, g, [EvUncordon node e5]]"
  note run' = run [unfolded PowerOn_def Let_def w0 w1 w2 w3 w4 w5 prod.case]
  note traces = a(1) b(1) d(1) g(1) w_trace_invoke [OF w5] and eval = wake_log_def wake_verdicts_def w2 w3 w4 w5
  consider x where "e1 = Some x" | x where "e1 = None" "e2 = Some x" | x where "e1 = None" "e2 = None" "e3 = Some x"
    | x where "e1 = None" "e2 = None" "e3 = None" "e4 = Some x" | "e1 = None" "e2 = None" "e3 = None" "e4 = None"
    by (metis not_None_eq)
  then have "w_trace w' = w_trace w @ wake_log ?es ?logs \<and> step_verdicts steps = wake_verdicts ?es \<and>
      (err = None) = list_all (\<lambda>e. e = None) ?es"
  proof cases
    case 5
    with run' traces show ?thesis by (cases e5) (auto simp: eval)
  qed (use run' traces in \<open>auto simp: eval\<close>)
  note end_state = this
  show ?thesis
    unfolding end_state [THEN conjunct2, THEN conjunct1] end_state [THEN conjunct2, THEN conjunct2]
    using end_state wake_spec_stages [OF a(2) b(2) d(2) g(2)] by blast
qed

end
