(* ===== verification/Lab.thy ===== *)
theory Lab
  imports Lifecycle
begin

text \<open>
  A concrete machine for the witnesses: the in-memory world of the repository's own tests
  (\<open>fakeWorld\<close> in \<^verbatim>\<open>internal/controller/elasticnode_controller_test.go\<close> and the fakes of
  \<^verbatim>\<open>internal/lifecycle/drainshutdown_test.go\<close>). Every call takes a millisecond; a shutdown of the OS
  powers the machine off unless it hangs.
\<close>

record lab =
  lab_on :: bool
  lab_powerErr :: bool
  lab_cordoned :: bool
  lab_attached :: bool
  lab_hangs :: bool

definition lab_ms :: nat where "lab_ms = 1000000"

definition lab_GetPowerState :: "(lab, bmc_result) prim" where
  "lab_GetPowerState c t s =
     ((if lab_powerErr s
       then \<lparr>res_OK = False, res_PowerState = BmcUnknown, res_Error = ''bmc unavailable'', res_Raw = []\<rparr>
       else \<lparr>res_OK = True, res_PowerState = (if lab_on s then BmcOn else BmcOff),
             res_Error = [], res_Raw = []\<rparr>), lab_ms, s)"

definition lab_off :: "(lab, bmc_result) prim" where
  "lab_off c t s =
     (\<lparr>res_OK = True, res_PowerState = BmcOff, res_Error = [], res_Raw = []\<rparr>, lab_ms,
      s\<lparr>lab_on := False\<rparr>)"

definition lab_turn_on :: "(lab, bmc_result) prim" where
  "lab_turn_on c t s =
     (\<lparr>res_OK = True, res_PowerState = BmcOn, res_Error = [], res_Raw = []\<rparr>, lab_ms,
      s\<lparr>lab_on := True\<rparr>)"

definition lab_adapter :: "lab bmc_adapter" where
  "lab_adapter =
     \<lparr>bmc_GetPowerState = lab_GetPowerState, bmc_PowerOn = lab_turn_on, bmc_SoftOff = lab_off,
      bmc_HardOff = lab_off, bmc_Reset = lab_turn_on\<rparr>"

definition lab_nodes :: "lab node_controller" where
  "lab_nodes =
     \<lparr>nc_Cordon = (\<lambda>n c t s. (None, lab_ms, s\<lparr>lab_cordoned := True\<rparr>)),
      nc_Drain = (\<lambda>n opts c t s. (None, lab_ms, s\<lparr>lab_attached := False\<rparr>))\<rparr>"

definition lab_gater :: "lab node_gater" where
  "lab_gater =
     \<lparr>ng_IsNodeReady = (\<lambda>n c t s. (Inr (lab_on s), lab_ms, s)),
      ng_NodeHasGPUCapacity = (\<lambda>n c t s. (Inr (lab_on s), lab_ms, s)),
      ng_IsNodeSchedulable = (\<lambda>n c t s. (Inr (\<not> lab_cordoned s), lab_ms, s)),
      ng_Uncordon = (\<lambda>n c t s. (None, lab_ms, s\<lparr>lab_cordoned := False\<rparr>))\<rparr>"

definition lab_gate :: "lab storage_gate" where
  "lab_gate timeout c t s =
     (if lab_attached s then Some (Err ''sessions still present'') else None, lab_ms, s)"

definition lab_shutdown :: "lab talos_shutdown" where
  "lab_shutdown endpoint c t s = (None, lab_ms, if lab_hangs s then s else s\<lparr>lab_on := False\<rparr>)"

definition lab_reachable :: "lab talos_reachable" where
  "lab_reachable endpoint c t s = (lab_on s, lab_ms, s)"

definition lab_drain_deps :: "lab drain_deps" where
  "lab_drain_deps =
     \<lparr>ds_Nodes = lab_nodes, ds_Talos = lab_shutdown, ds_Power = lab_adapter,
      ds_Storage = Some lab_gate, ds_Now = None\<rparr>"

definition lab_wake_deps :: "lab wake_deps" where
  "lab_wake_deps =
     \<lparr>po_Power = lab_adapter, po_Talos = Some lab_reachable, po_Nodes = lab_gater, po_Now = None\<rparr>"

definition lab_drain_opts :: "bool \<Rightarrow> drain_opts" where
  "lab_drain_opts force =
     \<lparr>ds_TalosEndpoint = ''192.0.2.10'', ds_DrainTimeout = Second, ds_StorageTimeout = Second,
      ds_PowerOffTimeout = 3 * Millisecond, ds_PollInterval = Millisecond, ds_ForceBMCOff = force\<rparr>"

definition lab_wake_opts :: wake_opts where
  "lab_wake_opts =
     \<lparr>po_TalosEndpoint = ''192.0.2.10'', po_ExpectGPU = True, po_ReachableTimeout = Second,
      po_ReadyTimeout = Second, po_GPUTimeout = Second, po_PollInterval = Millisecond\<rparr>"

definition lab_running :: lab where
  "lab_running =
     \<lparr>lab_on = True, lab_powerErr = False, lab_cordoned = False, lab_attached = True, lab_hangs = False\<rparr>"

definition lab_asleep :: lab where
  "lab_asleep = lab_running\<lparr>lab_on := False, lab_cordoned := True, lab_attached := False\<rparr>"

definition lab_world :: "lab \<Rightarrow> lab lworld" where
  "lab_world s = \<lparr>w_env = s, w_clock = 0, w_trace = []\<rparr>"

lemmas lab_defs =
  lab_ms_def lab_GetPowerState_def lab_off_def lab_turn_on_def lab_adapter_def lab_nodes_def
  lab_gater_def lab_gate_def lab_shutdown_def lab_reachable_def lab_drain_deps_def
  lab_wake_deps_def lab_drain_opts_def lab_wake_opts_def lab_running_def lab_asleep_def
  lab_world_def

text \<open>The equations that run the machines on a closed world.\<close>

lemmas run_defs =
  poll_loop.simps invoke_def waitPowerOff_def waitUntil_def confirm_off_def DrainShutdown_def
  PowerOn_def record_step_def errMsg_def Let_def select_done_def done_at_def WithDeadline_def
  background_def ctx_err_def done_cause_def sleep_def

end
