(* ===== verification/Lifecycle_Safety.thy ===== *)
theory Lifecycle_Safety
  imports Lifecycle_Spec Lab
begin

text \<open>
  The safety and functional properties of \<open>DrainShutdown\<close> and \<open>PowerOn\<close>, read off the abstract
  runs of \<open>Lifecycle_Spec\<close> by case analysis, each with a run on the machine of \<open>Lab\<close> as witness.
\<close>

section \<open>Properties of the drain\<close>

inductive_cases drain_specE: "drain_spec gate force node endpoint evs steps ok"
inductive_cases wake_specE: "wake_spec probe gpu node endpoint evs steps ok"

text \<open>The calls that take the node down.\<close>

fun cuts_power :: "event \<Rightarrow> bool" where
  "cuts_power (EvShutdown _ _) = True"
| "cuts_power (EvHardOff _) = True"
| "cuts_power (EvSoftOff _) = True"
| "cuts_power (EvReset _) = True"
| "cuts_power _ = False"

fun is_hard_off :: "event \<Rightarrow> bool" where
  "is_hard_off (EvHardOff _) = True"
| "is_hard_off _ = False"

fun is_reading :: "event \<Rightarrow> bool" where
  "is_reading (EvGetPowerState _) = True"
| "is_reading _ = False"

lemma readings_of_polls:
  "never_off evs \<Longrightarrow> x \<in> set evs \<Longrightarrow> is_reading x"
  "polled_off evs \<Longrightarrow> x \<in> set evs \<Longrightarrow> is_reading x"
  by (auto simp: never_off_def polled_off_def)

lemma reading_not_cut: "is_reading x \<Longrightarrow> \<not> cuts_power x \<and> \<not> is_hard_off x"
  by (cases x) auto

text \<open>In every run of the specification, what precedes the first power cut is the detached log.\<close>

lemma drain_spec_cut:
  assumes "drain_spec gate force node endpoint evs steps ok" and "x \<in> set evs" and "cuts_power x"
  shows "\<exists>rest. evs = detached_log gate node @ rest \<and>
    (\<forall>y \<in> set (detached_log gate node). \<not> cuts_power y)"
proof -
  have "\<forall>y \<in> set (detached_log gate node). \<not> cuts_power y"
    by (auto simp: detached_log_def gate_log_def split: option.splits)
  with assms show ?thesis by (cases rule: drain_spec.cases) auto
qed

lemma drain_spec_hard_off:
  assumes "drain_spec gate force node endpoint (pre @ EvHardOff r # post) steps ok"
  shows "force \<and> (\<exists>before readings.
    pre = before @ [EvShutdown endpoint None] @ readings \<and> never_off readings)"
proof -
  have front: "\<exists>mid. pre = xs @ mid" if "xs @ ys = pre @ EvHardOff r # post" "\<forall>y \<in> set xs. \<not> is_hard_off y"
    for xs ys
    using append_first_split [where P = is_hard_off, OF that] by simp
  have log: "\<forall>y \<in> set (detached_log gate node). \<not> is_hard_off y"
    by (auto simp: detached_log_def gate_log_def split: option.splits)
  have here: "pre = detached_log gate node @ [EvShutdown endpoint None] @ evs"
    if "pre @ EvHardOff r # post = detached_log gate node @ [EvShutdown endpoint None] @ evs @ EvHardOff q # evs'"
      and "never_off evs" and "\<forall>y \<in> set evs'. \<not> is_hard_off y" for evs q evs'
  proof -
    let ?xs = "detached_log gate node @ [EvShutdown endpoint None] @ evs"
    have no: "\<forall>y \<in> set ?xs. \<not> is_hard_off y"
      using log readings_of_polls(1) [OF that(2)] reading_not_cut by auto
    have "?xs @ (EvHardOff q # evs') = pre @ EvHardOff r # post" using that(1) by simp
    from front [OF this no] obtain mid where "pre = ?xs @ mid" by blast
    with that(1,3) show ?thesis by (cases mid) auto
  qed
  have none: "\<not> is_hard_off (EvHardOff r)" if "\<forall>y \<in> set (pre @ EvHardOff r # post). \<not> is_hard_off y"
    using that by simp
  note polls = readings_of_polls [THEN reading_not_cut]
  from assms show ?thesis
  proof (cases rule: drain_spec.cases)
    case (hard_off_fails evs q)
    with here [of evs q "[]"] show ?thesis by auto
  next
    case (forced_off evs q evs')
    with here [of evs q evs'] polls(2) show ?thesis by auto
  next
    case (still_on evs q evs')
    with here [of evs q evs'] polls(1) show ?thesis by auto
  qed (use none log polls in \<open>fastforce simp: append_eq_Cons_conv\<close>)+
qed

text \<open>
  C3 (refinement). \<open>DrainShutdown\<close> implements the abstract drain: whatever the backends answer and
  however long they take, the calls it makes, the steps it records and whether it succeeds are a
  run of \<open>drain_spec\<close>: cordon, drain, storage gate (when configured), OS shutdown, wait for
  power-off, and only then, when forced, BMC hard-off and a second wait; it stops at the first
  failure.
\<close>

theorem drain_shutdown_refines_spec:
  "case DrainShutdown c node deps opts w of
     ((steps, err), w') \<Rightarrow>
       \<exists>evs. w_trace w' = w_trace w @ evs \<and>
         drain_spec (gate_of deps opts) (ds_ForceBMCOff opts) node (ds_TalosEndpoint opts) evs
           (step_verdicts steps) (err = None)"
  using DrainShutdown_trace by (auto split: prod.splits)

text \<open>
  C1 (safety, data-safety barrier R5). Before \<open>DrainShutdown\<close> issues any call that takes the node
  down, an OS shutdown or a BMC hard-off, it has cordoned the node and drained it with success,
  and the storage gate, when there is one, has reported the volumes detached.
\<close>

theorem drain_gate_before_power_cut:
  assumes "DrainShutdown c node deps opts w = (res, w')"
    and "w_trace w' = w_trace w @ pre @ x # post"
    and "cuts_power x"
  shows "EvCordon node None \<in> set pre \<and> EvDrain node None \<in> set pre \<and>
    (ds_Storage deps \<noteq> None \<longrightarrow> EvWaitDetached (ds_StorageTimeout opts) None \<in> set pre)"
proof -
  obtain steps err where res: "res = (steps, err)" by (cases res)
  from DrainShutdown_trace [OF assms(1) [unfolded res]] assms(2)
  have "drain_spec (gate_of deps opts) (ds_ForceBMCOff opts) node (ds_TalosEndpoint opts)
      (pre @ x # post) (step_verdicts steps) (err = None)" by auto
  from drain_spec_cut [OF this _ assms(3)] obtain rest where
    "detached_log (gate_of deps opts) node @ rest = pre @ x # post"
    and "\<forall>y \<in> set (detached_log (gate_of deps opts) node). \<not> cuts_power y" by auto
  from append_first_split [where P = cuts_power, OF this assms(3)] obtain mid where
    "pre = detached_log (gate_of deps opts) node @ mid" by blast
  then show ?thesis
    by (auto simp: detached_log_def gate_log_def gate_of_def split: option.splits)
qed

theorem drain_gate_before_power_cut_witness:
  "\<exists>res w' pre post.
     DrainShutdown background ''node-1'' lab_drain_deps (lab_drain_opts False) (lab_world lab_running)
       = (res, w') \<and>
     w_trace w' = w_trace (lab_world lab_running) @ pre @ EvShutdown ''192.0.2.10'' None # post \<and>
     EvCordon ''node-1'' None \<in> set pre \<and> EvDrain ''node-1'' None \<in> set pre \<and>
     EvWaitDetached Second None \<in> set pre"
proof -
  let ?w = "lab_world lab_running"
  let ?r = "DrainShutdown background ''node-1'' lab_drain_deps (lab_drain_opts False) ?w"
  let ?pre = "[EvCordon ''node-1'' None, EvDrain ''node-1'' None, EvWaitDetached Second None]"
  let ?post = "[EvGetPowerState \<lparr>res_OK = True, res_PowerState = BmcOff, res_Error = [], res_Raw = []\<rparr>]"
  have log: "w_trace (snd ?r) = w_trace ?w @ ?pre @ EvShutdown ''192.0.2.10'' None # ?post"
    by (simp add: run_defs lab_defs)
  have cut: "cuts_power (EvShutdown ''192.0.2.10'' None)" by simp
  have "ds_Storage lab_drain_deps \<noteq> None" and "ds_StorageTimeout (lab_drain_opts False) = Second"
    by (simp_all add: lab_defs)
  with drain_gate_before_power_cut [OF prod.collapse [symmetric] log cut]
  have "EvCordon ''node-1'' None \<in> set ?pre \<and> EvDrain ''node-1'' None \<in> set ?pre \<and>
    EvWaitDetached Second None \<in> set ?pre" by simp
  with log show ?thesis by (metis prod.collapse)
qed

text \<open>
  A gate that does not open stops the drain: the run fails and nothing takes the node down. \<open>live\<close> is
  what the gate relies on; cordon and eviction keep it.
\<close>

lemma drain_stopped_by_gate:
  assumes run: "DrainShutdown c node deps opts w = ((steps, err), w')"
    and gate: "ds_Storage deps = Some gate" and "live (w_env w)"
    and closed: "\<And>c t s. live s \<Longrightarrow> fst (gate (ds_StorageTimeout opts) c t s) \<noteq> None"
    and cordon: "\<And>c t s. live s \<Longrightarrow> live (snd (snd (nc_Cordon (ds_Nodes deps) node c t s)))"
    and drain: "\<And>o' c t s. live s \<Longrightarrow> live (snd (snd (nc_Drain (ds_Nodes deps) node o' c t s)))"
  shows "err \<noteq> None \<and> (\<exists>evs. w_trace w' = w_trace w @ evs \<and> filter cuts_power evs = [])"
proof -
  let ?drain = "\<lparr>do_GracePeriodSeconds = None, do_PollInterval = ds_PollInterval opts, do_Timeout = ds_DrainTimeout opts\<rparr>"
  obtain e1 w1 where w1: "invoke (EvCordon node) (nc_Cordon (ds_Nodes deps) node) c w = (e1, w1)" by (rule prod.exhaust)
  obtain e2 w2 where w2: "invoke (EvDrain node) (nc_Drain (ds_Nodes deps) node ?drain) c w1 = (e2, w2)" by (rule prod.exhaust)
  obtain e3 w3 where w3: "invoke (EvWaitDetached (ds_StorageTimeout opts)) (gate (ds_StorageTimeout opts)) c w2 = (e3, w3)"
    by (rule prod.exhaust)
  have "live (w_env w1)" using invoke_reply(2) [OF w1] cordon assms(3) by simp
  then have "live (w_env w2)" using invoke_reply(2) [OF w2] drain by simp
  then obtain e where "e3 = Some e" using invoke_reply(1) [OF w3] closed by fastforce
  then show ?thesis
    using run w_trace_invoke [OF w1] w_trace_invoke [OF w2] w_trace_invoke [OF w3]
    by (cases e1; cases e2) (auto simp: DrainShutdown_def Let_def w1 w2 w3 gate)
qed

text \<open>
  C5 (safety, last resort). A BMC hard-off is issued only when \<open>ForceBMCOff\<close> asked for it, after
  the OS shutdown was accepted and after every BMC reading since then has shown the node not off.
\<close>

theorem drain_hard_off_last_resort:
  assumes "DrainShutdown c node deps opts w = (res, w')"
    and "w_trace w' = w_trace w @ pre @ EvHardOff r # post"
  shows "ds_ForceBMCOff opts \<and>
    (\<exists>before readings.
       pre = before @ [EvShutdown (ds_TalosEndpoint opts) None] @ readings \<and> never_off readings)"
proof -
  obtain steps err where res: "res = (steps, err)" by (cases res)
  from DrainShutdown_trace [OF assms(1) [unfolded res]] assms(2)
  have "drain_spec (gate_of deps opts) (ds_ForceBMCOff opts) node (ds_TalosEndpoint opts)
      (pre @ EvHardOff r # post) (step_verdicts steps) (err = None)" by auto
  then show ?thesis by (rule drain_spec_hard_off)
qed

theorem drain_hard_off_last_resort_witness:
  "\<exists>res w' pre r post.
     DrainShutdown background ''node-1'' lab_drain_deps (lab_drain_opts True)
       (lab_world (lab_running\<lparr>lab_hangs := True\<rparr>)) = (res, w') \<and>
     w_trace w' = [] @ pre @ EvHardOff r # post \<and>
     (\<exists>before readings.
        pre = before @ [EvShutdown ''192.0.2.10'' None] @ readings \<and> never_off readings)"
proof -
  let ?w = "lab_world (lab_running\<lparr>lab_hangs := True\<rparr>)"
  let ?r = "DrainShutdown background ''node-1'' lab_drain_deps (lab_drain_opts True) ?w"
  let ?on = "EvGetPowerState \<lparr>res_OK = True, res_PowerState = BmcOn, res_Error = [], res_Raw = []\<rparr>"
  let ?off = "\<lparr>res_OK = True, res_PowerState = BmcOff, res_Error = [], res_Raw = []\<rparr>"
  let ?pre = "[EvCordon ''node-1'' None, EvDrain ''node-1'' None, EvWaitDetached Second None,
    EvShutdown ''192.0.2.10'' None, ?on, ?on]"
  have log: "w_trace (snd ?r) = w_trace ?w @ ?pre @ EvHardOff ?off # [EvGetPowerState ?off]"
    by (simp add: run_defs lab_defs)
  have "\<exists>before readings.
      ?pre = before @ [EvShutdown (ds_TalosEndpoint (lab_drain_opts True)) None] @ readings \<and>
      never_off readings"
    using drain_hard_off_last_resort [OF prod.collapse [symmetric] log] by blast
  moreover have "ds_TalosEndpoint (lab_drain_opts True) = ''192.0.2.10''" and "w_trace ?w = []"
    by (simp_all add: lab_defs)
  ultimately show ?thesis using log by (metis prod.collapse)
qed

text \<open>
  C6 (functional). A drain that reports success ends on a BMC reading of power-off: the node is
  confirmed off, not assumed off.
\<close>

theorem drain_success_confirms_off:
  assumes "DrainShutdown c node deps opts w = ((steps, None), w')"
  shows "\<exists>evs r. w_trace w' = w_trace w @ evs @ [EvGetPowerState r] \<and> res_PowerState r = BmcOff"
proof -
  from DrainShutdown_trace [OF assms] obtain evs where evs: "w_trace w' = w_trace w @ evs"
    and "drain_spec (gate_of deps opts) (ds_ForceBMCOff opts) node (ds_TalosEndpoint opts) evs
      (step_verdicts steps) True" by auto
  from this(2) have "\<exists>a b. evs = a @ b \<and> polled_off b"
  proof (cases rule: drain_spec.cases)
    case (powers_off evs')
    then show ?thesis by (metis append.assoc)
  next
    case (forced_off evs' r evs'')
    then show ?thesis by (metis append.assoc)
  qed simp_all
  with evs show ?thesis by (fastforce simp: polled_off_def)
qed

theorem drain_success_confirms_off_witness:
  "\<exists>steps w' evs r.
     DrainShutdown background ''node-1'' lab_drain_deps (lab_drain_opts False) (lab_world lab_running)
       = ((steps, None), w') \<and>
     w_trace w' = w_trace (lab_world lab_running) @ evs @ [EvGetPowerState r] \<and> res_PowerState r = BmcOff"
proof -
  let ?r = "DrainShutdown background ''node-1'' lab_drain_deps (lab_drain_opts False) (lab_world lab_running)"
  have "snd (fst ?r) = None" by (simp add: run_defs lab_defs)
  then have run: "?r = ((fst (fst ?r), None), snd ?r)" by (metis prod.collapse)
  from drain_success_confirms_off [OF run] run show ?thesis by blast
qed

fun returns_to_service :: "event \<Rightarrow> bool" where
  "returns_to_service (EvUncordon _ _) = True"
| "returns_to_service (EvPowerOn _) = True"
| "returns_to_service _ = False"

lemma reading_not_return: "is_reading x \<Longrightarrow> \<not> returns_to_service x"
  by (cases x) auto

lemma drain_spec_no_return:
  assumes "drain_spec gate force node endpoint evs steps ok"
  shows "filter returns_to_service evs = []"
proof -
  have log: "\<forall>y \<in> set (detached_log gate node). \<not> returns_to_service y"
    by (auto simp: detached_log_def gate_log_def split: option.splits)
  note polls = readings_of_polls [THEN reading_not_return]
  from assms show ?thesis
    by (cases rule: drain_spec.cases) (use log polls in \<open>auto simp: filter_empty_conv\<close>)
qed

lemma DrainShutdown_no_return:
  assumes "DrainShutdown c node deps opts w = (res, w')"
  shows "\<exists>evs. w_trace w' = w_trace w @ evs \<and> filter returns_to_service evs = []"
proof -
  obtain steps err where "res = (steps, err)" by (cases res)
  with assms DrainShutdown_trace obtain evs where "w_trace w' = w_trace w @ evs"
    and "drain_spec (gate_of deps opts) (ds_ForceBMCOff opts) node (ds_TalosEndpoint opts) evs
      (step_verdicts steps) (err = None)" by blast
  then show ?thesis using drain_spec_no_return by blast
qed

text \<open>
  A drain never brings a node back: it issues neither an uncordon nor a power-on, so
  a drain that stops half-way leaves the node out of service.
\<close>

theorem drain_never_returns_to_service:
  "case DrainShutdown c node deps opts w of
     (res, w') \<Rightarrow> \<exists>evs. w_trace w' = w_trace w @ evs \<and> filter returns_to_service evs = []"
  using DrainShutdown_no_return by (auto split: prod.splits)

definition drain_phases :: "string list" where
  "drain_phases = [''cordon'', ''drain'', ''storage-gate'', ''talos-shutdown'', ''wait-power-off'',
     ''bmc-hard-off'', ''wait-power-off-after-hardoff'']"

lemma drain_spec_steps:
  assumes "drain_spec gate force node endpoint evs steps ok"
  shows "steps \<noteq> [] \<and> take (length steps) drain_phases = map fst steps \<and> ok = snd (last steps)"
  using assms by (cases rule: drain_spec.cases) (simp_all add: drain_phases_def)

lemma step_verdicts_map:
  "map fst (step_verdicts steps) = map step_Name steps"
  "length (step_verdicts steps) = length steps"
  "step_verdicts steps = [] \<longleftrightarrow> steps = []"
  "steps \<noteq> [] \<Longrightarrow> snd (last (step_verdicts steps)) = step_Succeeded (last steps)"
  by (simp_all add: step_verdicts_def last_map)

lemma DrainShutdown_steps:
  assumes "DrainShutdown c node deps opts w = ((steps, err), w')"
  shows "steps \<noteq> [] \<and> take (length steps) drain_phases = map step_Name steps \<and>
    (err = None) = step_Succeeded (last steps)"
  using DrainShutdown_trace [OF assms] drain_spec_steps step_verdicts_map by metis

text \<open>
  C7 (functional, audit trail). Every drain records at least one step; the steps are the phases in
  their order, without a gap; and the drain reports success exactly when its last step succeeded.
\<close>

theorem drain_steps_audit:
  "case DrainShutdown c node deps opts w of
     ((steps, err), w') \<Rightarrow>
       steps \<noteq> [] \<and> take (length steps) drain_phases = map step_Name steps \<and>
       (err = None) = step_Succeeded (last steps)"
proof -
  obtain steps err w' where run: "DrainShutdown c node deps opts w = ((steps, err), w')"
    by (metis surj_pair)
  from DrainShutdown_steps [OF run] run show ?thesis by simp
qed

section \<open>Properties of the wake\<close>

text \<open>
  C4 (refinement). \<open>PowerOn\<close> implements the abstract wake: BMC on (unless it reads on already),
  Talos reachable (when a probe is wired), node ready, GPU registered (when expected), uncordon;
  it stops at the first failure.
\<close>

theorem power_on_refines_spec:
  "case PowerOn c node deps opts w of
     ((steps, err), w') \<Rightarrow>
       \<exists>evs. w_trace w' = w_trace w @ evs \<and>
         wake_spec (po_Talos deps \<noteq> None) (po_ExpectGPU opts) node (po_TalosEndpoint opts) evs
           (step_verdicts steps) (err = None)"
  using PowerOn_trace by (auto split: prod.splits)

text \<open>What a wait that succeeded, or was not needed, has logged.\<close>

lemma waited_set:
  "waited needed ev evs \<Longrightarrow> x \<in> set evs \<Longrightarrow> x = ev (Inr False) \<or> x = ev (Inr True)"
  by (auto simp: waited_def polled_until_def split: if_splits)

lemma waited_True: "waited True ev evs \<Longrightarrow> ev (Inr True) \<in> set evs"
  by (auto simp: waited_def polled_until_def)

lemma polled_until_set:
  "polled_until ev e evs \<Longrightarrow> x \<in> set evs \<Longrightarrow> \<exists>r. x = ev r"
  by (auto simp: polled_until_def split: option.splits)

fun is_uncordon :: "event \<Rightarrow> bool" where
  "is_uncordon (EvUncordon _ _) = True"
| "is_uncordon _ = False"

lemma powered_log_no_uncordon: "powered_log a \<Longrightarrow> x \<in> set a \<Longrightarrow> \<not> is_uncordon x"
  by (auto simp: powered_log_def)

lemma wake_spec_uncordon:
  assumes "wake_spec probe gpu node endpoint evs steps ok" and "EvUncordon n u \<in> set evs"
  shows "\<exists>a b d g. evs = (a @ b @ d @ g) @ [EvUncordon node u] \<and> n = node \<and> ok = (u = None) \<and>
    powered_log a \<and> waited probe (reach_ev endpoint) b \<and> waited True (EvIsNodeReady node) d \<and>
    waited gpu (EvNodeHasGPU node) g \<and> (\<forall>x \<in> set (a @ b @ d @ g). \<not> is_uncordon x)"
proof -
  have no: "\<not> is_uncordon x" if "polled_until ev e evs" "x \<in> set evs" "\<forall>r. \<not> is_uncordon (ev r)" for ev e evs x
    using polled_until_set [OF that(1,2)] that(3) by blast
  have w: "\<not> is_uncordon x" if "waited needed ev evs" "x \<in> set evs" "\<forall>r. \<not> is_uncordon (ev r)" for needed ev evs x
    using waited_set [OF that(1,2)] that(3) by blast
  note quiet = powered_log_no_uncordon no w
  from assms(1) show ?thesis
  proof (cases rule: wake_spec.cases)
    case (uncordons a b d g u')
    then have none: "\<forall>x \<in> set (a @ b @ d @ g). \<not> is_uncordon x" by (auto dest: quiet)
    then have "EvUncordon n u \<notin> set (a @ b @ d @ g)" by force
    with assms(2) uncordons(1) have "n = node" "u' = u" by auto
    with none show ?thesis using uncordons by auto
  qed (use assms(2) in \<open>auto dest: quiet\<close>)
qed

text \<open>
  C2 (safety). A node is uncordoned only as the last call of a wake, and only after the node read
  Ready, after its GPU was seen registered when one is expected, after Talos answered when a probe
  is wired, and after the BMC either read on or accepted the power-on.
\<close>

theorem wake_uncordon_verified:
  assumes "PowerOn c node deps opts w = (res, w')"
    and "w_trace w' = w_trace w @ pre @ EvUncordon n u # post"
  shows "post = [] \<and> n = node \<and> EvIsNodeReady node (Inr True) \<in> set pre \<and>
    (po_ExpectGPU opts \<longrightarrow> EvNodeHasGPU node (Inr True) \<in> set pre) \<and>
    (po_Talos deps \<noteq> None \<longrightarrow> EvReachable (po_TalosEndpoint opts) True \<in> set pre) \<and>
    (\<exists>r. EvGetPowerState r \<in> set pre \<and> reads_on r \<or> EvPowerOn r \<in> set pre \<and> res_OK r)"
proof -
  obtain steps err where "res = (steps, err)" by (cases res)
  with PowerOn_trace assms have
    "wake_spec (po_Talos deps \<noteq> None) (po_ExpectGPU opts) node (po_TalosEndpoint opts)
      (pre @ EvUncordon n u # post) (step_verdicts steps) (err = None)" by fastforce
  from wake_spec_uncordon [OF this, of n u] obtain a b d g where
    eq: "(a @ b @ d @ g) @ [EvUncordon node u] = pre @ EvUncordon n u # post"
    and n: "n = node" and a: "powered_log a"
    and b: "waited (po_Talos deps \<noteq> None) (reach_ev (po_TalosEndpoint opts)) b"
    and d: "waited True (EvIsNodeReady node) d" and g: "waited (po_ExpectGPU opts) (EvNodeHasGPU node) g"
    and no: "\<forall>x \<in> set (a @ b @ d @ g). \<not> is_uncordon x" by auto
  from append_first_split [where P = is_uncordon, OF eq no] obtain mid where "pre = (a @ b @ d @ g) @ mid"
    by auto
  with eq have "pre = a @ b @ d @ g" and "post = []" by (cases mid; simp)+
  moreover have "\<exists>r. EvGetPowerState r \<in> set a \<and> reads_on r \<or> EvPowerOn r \<in> set a \<and> res_OK r"
    using a by (auto simp: powered_log_def)
  moreover have "EvReachable (po_TalosEndpoint opts) True \<in> set b" if "po_Talos deps \<noteq> None"
    using b that waited_True [of "reach_ev (po_TalosEndpoint opts)" b] by simp
  moreover have "EvNodeHasGPU node (Inr True) \<in> set g" if "po_ExpectGPU opts"
    using g that by (simp add: waited_True)
  ultimately show ?thesis using n waited_True [OF d] by auto
qed

theorem wake_uncordon_verified_witness:
  "\<exists>res w' pre.
     PowerOn background ''node-1'' lab_wake_deps lab_wake_opts (lab_world lab_asleep) = (res, w') \<and>
     w_trace w' = w_trace (lab_world lab_asleep) @ pre @ EvUncordon ''node-1'' None # [] \<and>
     EvIsNodeReady ''node-1'' (Inr True) \<in> set pre \<and> EvNodeHasGPU ''node-1'' (Inr True) \<in> set pre \<and>
     EvReachable ''192.0.2.10'' True \<in> set pre"
proof -
  let ?w = "lab_world lab_asleep"
  let ?r = "PowerOn background ''node-1'' lab_wake_deps lab_wake_opts ?w"
  let ?res = "\<lambda>p. \<lparr>res_OK = True, res_PowerState = p, res_Error = [], res_Raw = []\<rparr>"
  let ?pre = "[EvGetPowerState (?res BmcOff), EvPowerOn (?res BmcOn), EvReachable ''192.0.2.10'' True,
    EvIsNodeReady ''node-1'' (Inr True), EvNodeHasGPU ''node-1'' (Inr True)]"
  have log: "w_trace (snd ?r) = w_trace ?w @ ?pre @ EvUncordon ''node-1'' None # []"
    by (simp add: run_defs lab_defs)
  have "po_ExpectGPU lab_wake_opts" "po_Talos lab_wake_deps \<noteq> None"
    "po_TalosEndpoint lab_wake_opts = ''192.0.2.10''"
    by (simp_all add: lab_defs)
  with wake_uncordon_verified [OF prod.collapse [symmetric] log]
  have "EvIsNodeReady ''node-1'' (Inr True) \<in> set ?pre \<and> EvNodeHasGPU ''node-1'' (Inr True) \<in> set ?pre \<and>
     EvReachable ''192.0.2.10'' True \<in> set ?pre" by simp
  with log show ?thesis by (metis prod.collapse)
qed

lemma PowerOn_spec_obtains:
  obtains steps err w' evs where "PowerOn c node deps opts w = ((steps, err), w')"
    and "w_trace w' = w_trace w @ evs"
    and "wake_spec (po_Talos deps \<noteq> None) (po_ExpectGPU opts) node (po_TalosEndpoint opts) evs
      (step_verdicts steps) (err = None)"
  using PowerOn_trace by (metis surj_pair)

lemma wake_spec_ok_iff:
  assumes "wake_spec probe gpu node endpoint evs steps ok"
  shows "ok = (EvUncordon node None \<in> set evs)"
proof
  assume ok
  with assms show "EvUncordon node None \<in> set evs" by (cases rule: wake_spec.cases) auto
next
  assume "EvUncordon node None \<in> set evs"
  from wake_spec_uncordon [OF assms this] show ok by auto
qed

text \<open>
  A wake reports success exactly when it has uncordoned the node: a node that did not
  come up cleanly stays out of service.
\<close>

lemma wake_success_iff_uncordoned:
  "case PowerOn c node deps opts w of
     ((steps, err), w') \<Rightarrow>
       \<exists>evs. w_trace w' = w_trace w @ evs \<and> (err = None) = (EvUncordon node None \<in> set evs)"
proof -
  obtain steps err w' evs where "PowerOn c node deps opts w = ((steps, err), w')"
    and "w_trace w' = w_trace w @ evs"
    and "wake_spec (po_Talos deps \<noteq> None) (po_ExpectGPU opts) node (po_TalosEndpoint opts) evs
      (step_verdicts steps) (err = None)"
    by (rule PowerOn_spec_obtains)
  with wake_spec_ok_iff [OF this(3)] show ?thesis by auto
qed

fun is_power_on :: "event \<Rightarrow> bool" where
  "is_power_on (EvPowerOn _) = True"
| "is_power_on _ = False"

lemma wake_spec_power_on:
  assumes "wake_spec probe gpu node endpoint evs steps ok"
  shows "\<exists>r rest. evs = EvGetPowerState r # rest \<and> list_ex is_power_on rest = (\<not> reads_on r)"
proof -
  have quiet: "\<not> list_ex is_power_on evs" if "polled_until ev e evs" "\<forall>r. \<not> is_power_on (ev r)" for ev e evs
    using polled_until_set [OF that(1)] that(2) by (auto simp: list_ex_iff)
  have quiet': "\<not> list_ex is_power_on evs" if "waited needed ev evs" "\<forall>r. \<not> is_power_on (ev r)" for needed ev evs
    using waited_set [OF that(1)] that(2) by (auto simp: list_ex_iff)
  have front: "\<exists>r rest. a @ x = EvGetPowerState r # rest \<and> list_ex is_power_on rest = (\<not> reads_on r)"
    if "powered_log a" "\<not> list_ex is_power_on x" for a x
    using that by (auto simp: powered_log_def)
  from assms show ?thesis
  proof (cases rule: wake_spec.cases)
    case (unreachable a e b)
    then show ?thesis using front [of a b] quiet by simp
  next
    case (not_ready a b e d)
    then show ?thesis using front [of a "b @ d"] quiet quiet' by simp
  next
    case (no_gpu a b d e g)
    then show ?thesis using front [of a "b @ d @ g"] quiet quiet' by simp
  next
    case (uncordons a b d g u)
    then show ?thesis using front [of a "b @ d @ g @ [EvUncordon node u]"] quiet quiet' by simp
  qed auto
qed

text \<open>
  A wake first reads the BMC, and sends a power-on exactly when
  that reading is not a successful "on".
\<close>

theorem wake_power_on_iff_not_on:
  "case PowerOn c node deps opts w of
     (res, w') \<Rightarrow>
       \<exists>r rest. w_trace w' = w_trace w @ EvGetPowerState r # rest \<and>
         list_ex is_power_on rest = (\<not> reads_on r)"
proof -
  obtain steps err w' evs where "PowerOn c node deps opts w = ((steps, err), w')"
    and "w_trace w' = w_trace w @ evs"
    and "wake_spec (po_Talos deps \<noteq> None) (po_ExpectGPU opts) node (po_TalosEndpoint opts) evs
      (step_verdicts steps) (err = None)"
    by (rule PowerOn_spec_obtains)
  with wake_spec_power_on [OF this(3)] show ?thesis by auto
qed

definition wake_phases :: "string list" where
  "wake_phases = [''bmc-power-on'', ''wait-talos-reachable'', ''wait-node-ready'',
     ''wait-gpu-registered'', ''uncordon'']"

lemma wake_spec_steps:
  assumes "wake_spec probe gpu node endpoint evs steps ok"
  shows "steps \<noteq> [] \<and> take (length steps) wake_phases = map fst steps \<and> ok = snd (last steps)"
  using assms by (cases rule: wake_spec.cases) (simp_all add: wake_phases_def)

lemma PowerOn_steps:
  assumes "PowerOn c node deps opts w = ((steps, err), w')"
  shows "steps \<noteq> [] \<and> take (length steps) wake_phases = map step_Name steps \<and>
    (err = None) = step_Succeeded (last steps)"
  using PowerOn_trace [OF assms] wake_spec_steps step_verdicts_map by metis

end
