(* ===== verification/Lifecycle_Time.thy ===== *)
theory Lifecycle_Time
  imports Lifecycle_Spec Lab
begin

text \<open>
  How long the waits and the drain can take, and what a context that has already ended does.
\<close>

section \<open>Time\<close>

definition takes_at_most :: "('w, 'r) prim \<Rightarrow> nat \<Rightarrow> bool" where
  "takes_at_most f D \<longleftrightarrow> (\<forall>c t s. fst (snd (f c t s)) \<le> D)"

definition positive_or :: "duration \<Rightarrow> duration \<Rightarrow> duration" where
  "positive_or dflt d = (if d \<le> 0 then dflt else d)"

lemma invoke_clock:
  assumes "invoke ev f c w = (r, w')" and "takes_at_most f D"
  shows "w_clock w' \<le> w_clock w + int D"
proof -
  have "fst (snd (f c (w_clock w) (w_env w))) \<le> D"
    using assms(2) by (simp add: takes_at_most_def)
  with assms(1) show ?thesis by (auto simp: invoke_def split: prod.splits)
qed

lemma waitPowerOff_clock:
  assumes run: "waitPowerOff pw timeout poll c w = (e, w')"
    and D: "takes_at_most (bmc_GetPowerState pw) D"
  shows "w_clock w' \<le> w_clock w + positive_or (5 * Minute) timeout + int D"
proof (cases "ctx_err c (w_clock w)")
  case (Some e')
  with run show ?thesis by (simp add: waitPowerOff_def Let_def positive_or_def)
next
  case None
  let ?poll = "if poll \<le> 0 then 3 * Second else poll"
  let ?dl = "w_clock w + (if timeout \<le> 0 then 5 * Minute else timeout)"
  let ?stop = "\<lambda>res. if res_PowerState res = BmcOff then Some () else None"
  obtain res w1 where loop:
    "poll_loop EvGetPowerState (bmc_GetPowerState pw) ?stop c ?dl ?poll w = (res, w1)"
    by (rule prod.exhaust)
  have "w_clock w1 \<le> max (w_clock w) ?dl + int D"
    using poll_loop_deadline [OF loop] D by (simp add: takes_at_most_def)
  moreover from run None loop have "w' = w1"
    by (simp add: waitPowerOff_def Let_def split: sum.splits prod.splits)
  ultimately show ?thesis by (auto simp: positive_or_def max_def split: if_splits)
qed

lemma waitUntil_clock:
  assumes run: "waitUntil timeout poll desc ev check c w = (e, w')"
    and D: "takes_at_most check D"
  shows "w_clock w' \<le> w_clock w + positive_or (5 * Minute) timeout + int D"
proof (cases "ctx_err c (w_clock w)")
  case (Some e')
  with run show ?thesis by (simp add: waitUntil_def Let_def positive_or_def)
next
  case None
  let ?poll = "if poll \<le> 0 then 3 * Second else poll"
  let ?dl = "w_clock w + (if timeout \<le> 0 then 5 * Minute else timeout)"
  let ?stop = "\<lambda>r. case r of Inl e \<Rightarrow> Some (Some (wrap (desc @ '': '') e))
                 | Inr ok \<Rightarrow> if ok then Some None else None"
  obtain res w1 where loop: "poll_loop ev check ?stop c ?dl ?poll w = (res, w1)"
    by (rule prod.exhaust)
  have "w_clock w1 \<le> max (w_clock w) ?dl + int D"
    using poll_loop_deadline [OF loop] D by (simp add: takes_at_most_def)
  moreover from run None loop have "w' = w1"
    by (simp add: waitUntil_def Let_def split: sum.splits prod.splits)
  ultimately show ?thesis by (auto simp: positive_or_def max_def split: if_splits)
qed

text \<open>
  Bounds on the calls of a drain: \<open>D\<close> for the short ones (cordon, OS shutdown, BMC), \<open>Dd\<close> for the
  eviction of the pods, \<open>Dg\<close> for the storage gate.
\<close>

definition drain_calls_within ::
  "'w drain_deps \<Rightarrow> string \<Rightarrow> drain_opts \<Rightarrow> nat \<Rightarrow> nat \<Rightarrow> nat \<Rightarrow> bool" where
  "drain_calls_within deps node opts D Dd Dg \<longleftrightarrow>
     takes_at_most (nc_Cordon (ds_Nodes deps) node) D \<and>
     (\<forall>o'. takes_at_most (nc_Drain (ds_Nodes deps) node o') Dd) \<and>
     (\<forall>gate. ds_Storage deps = Some gate \<longrightarrow> takes_at_most (gate (ds_StorageTimeout opts)) Dg) \<and>
     takes_at_most (ds_Talos deps (ds_TalosEndpoint opts)) D \<and>
     takes_at_most (bmc_GetPowerState (ds_Power deps)) D \<and>
     takes_at_most (bmc_HardOff (ds_Power deps)) D"

lemma confirm_off_clock:
  assumes run: "confirm_off c node deps opts steps w = (res, w')"
    and D: "takes_at_most (bmc_GetPowerState (ds_Power deps)) D"
      "takes_at_most (bmc_HardOff (ds_Power deps)) D"
  shows "w_clock w' \<le> w_clock w + 2 * positive_or (5 * Minute) (ds_PowerOffTimeout opts) + 3 * int D"
proof -
  let ?T = "positive_or (5 * Minute) (ds_PowerOffTimeout opts)"
  let ?wait = "waitPowerOff (ds_Power deps) (ds_PowerOffTimeout opts) (ds_PollInterval opts) c"
  obtain e5 w5 where w5: "?wait w = (e5, w5)" by (rule prod.exhaust)
  obtain r w6 where w6: "invoke EvHardOff (bmc_HardOff (ds_Power deps)) c w5 = (r, w6)"
    by (rule prod.exhaust)
  obtain e7 w7 where w7: "?wait w6 = (e7, w7)" by (rule prod.exhaust)
  have T: "0 \<le> ?T" by (simp add: positive_or_def)
  note b = waitPowerOff_clock [OF w5 D(1)] invoke_clock [OF w6 D(2)] waitPowerOff_clock [OF w7 D(1)]
  have "w' \<in> {w5, w6, w7}"
    using run by (auto simp: confirm_off_def Let_def w5 w6 w7 split: option.splits if_splits)
  with b T show ?thesis by auto
qed

lemma DrainShutdown_clock:
  assumes run: "DrainShutdown c node deps opts w = (res, w')"
    and within: "drain_calls_within deps node opts D Dd Dg"
  shows "w_clock w' \<le> w_clock w + int Dd + int Dg +
    2 * positive_or (5 * Minute) (ds_PowerOffTimeout opts) + 5 * int D"
proof -
  let ?T = "positive_or (5 * Minute) (ds_PowerOffTimeout opts)"
  let ?ep = "ds_TalosEndpoint opts" and ?st = "ds_StorageTimeout opts"
  let ?drain = "\<lparr>do_GracePeriodSeconds = None, do_PollInterval = ds_PollInterval opts,
    do_Timeout = ds_DrainTimeout opts\<rparr>"
  note D = within [unfolded drain_calls_within_def]
  obtain e1 w1 where w1: "invoke (EvCordon node) (nc_Cordon (ds_Nodes deps) node) c w = (e1, w1)"
    by (rule prod.exhaust)
  obtain e2 w2 where w2:
    "invoke (EvDrain node) (nc_Drain (ds_Nodes deps) node ?drain) c w1 = (e2, w2)"
    by (rule prod.exhaust)
  obtain e3 d3 w3 where w3:
    "(case ds_Storage deps of
        Some gate \<Rightarrow> (case invoke (EvWaitDetached ?st) (gate ?st) c w2 of (e, w') \<Rightarrow> (e, [], w'))
      | None \<Rightarrow> (None, [(''skipped'', ''no storage gate configured'')], w2)) = (e3, d3, w3)"
    by (rule prod_cases3)
  obtain e4 w4 where w4: "invoke (EvShutdown ?ep) (ds_Talos deps ?ep) c w3 = (e4, w4)"
    by (rule prod.exhaust)
  have c1: "w_clock w1 \<le> w_clock w + int D" using invoke_clock [OF w1] D by blast
  have c2: "w_clock w2 \<le> w_clock w1 + int Dd" using invoke_clock [OF w2] D by blast
  have c3: "w_clock w3 \<le> w_clock w2 + int Dg"
    using w3 D by (auto split: option.splits prod.splits dest!: invoke_clock)
  have c4: "w_clock w4 \<le> w_clock w3 + int D" using invoke_clock [OF w4] D by blast
  have T: "0 \<le> ?T" by (simp add: positive_or_def)
  have "w' \<in> {w1, w2, w3, w4} \<or> (\<exists>steps. confirm_off c node deps opts steps w4 = (res, w'))"
    using run by (auto simp: DrainShutdown_def Let_def w1 w2 w3 w4 split: option.splits)
  then show ?thesis
  proof
    assume "w' \<in> {w1, w2, w3, w4}"
    with c1 c2 c3 c4 T show ?thesis by auto
  next
    assume "\<exists>steps. confirm_off c node deps opts steps w4 = (res, w')"
    then have "w_clock w' \<le> w_clock w4 + 2 * ?T + 3 * int D"
      using confirm_off_clock D by blast
    with c1 c2 c3 c4 show ?thesis by simp
  qed
qed

lemma lab_within:
  "drain_calls_within lab_drain_deps node (lab_drain_opts force) lab_ms lab_ms lab_ms"
  by (simp add: drain_calls_within_def takes_at_most_def lab_defs)

text \<open>
  C8 (bounds). The waits end: a wait whose checks take at most \<open>D\<close> returns at most \<open>D\<close> after its
  time-out, five minutes where none is set.
\<close>

theorem waits_return_in_time:
  assumes "takes_at_most (bmc_GetPowerState pw) D" and "takes_at_most check D"
  shows "w_clock (snd (waitPowerOff pw timeout poll c w)) \<le>
           w_clock w + positive_or (5 * Minute) timeout + int D \<and>
         w_clock (snd (waitUntil timeout poll desc ev check c w)) \<le>
           w_clock w + positive_or (5 * Minute) timeout + int D"
  using waitPowerOff_clock [OF prod.collapse [symmetric] assms(1)]
    waitUntil_clock [OF prod.collapse [symmetric] assms(2)] by simp

theorem waits_return_in_time_witness:
  "w_clock (snd (waitPowerOff lab_adapter Second Millisecond background (lab_world lab_running))) \<le> 1001000000 \<and>
   w_clock (snd (waitUntil 0 0 ''node ready'' (EvIsNodeReady ''node-1'')
     (ng_IsNodeReady lab_gater ''node-1'') background (lab_world lab_asleep))) \<le> 300001000000"
proof -
  have "takes_at_most (bmc_GetPowerState lab_adapter) lab_ms"
    and "takes_at_most (ng_IsNodeReady lab_gater ''node-1'') lab_ms"
    by (simp_all add: takes_at_most_def lab_defs)
  note within = waits_return_in_time [OF this]
  have "int lab_ms = 1000000" and "w_clock (lab_world lab_running) = 0" and "w_clock (lab_world lab_asleep) = 0"
    by (simp_all add: lab_defs)
  with within [of Second Millisecond background "lab_world lab_running"]
    within [of 0 0 background "lab_world lab_asleep"]
  show ?thesis by (simp add: positive_or_def)
qed

text \<open>
  C9 (bounds). A whole drain ends: its duration is bounded by the eviction, the storage gate,
  twice the power-off time-out and five short calls.
\<close>

theorem drain_shutdown_duration:
  assumes "drain_calls_within deps node opts D Dd Dg"
  shows "w_clock (snd (DrainShutdown c node deps opts w)) \<le>
    w_clock w + int Dd + int Dg + 2 * positive_or (5 * Minute) (ds_PowerOffTimeout opts) + 5 * int D"
  using DrainShutdown_clock [OF prod.collapse [symmetric] assms] .

theorem drain_shutdown_duration_witness:
  "w_clock (snd (DrainShutdown background ''node-1'' lab_drain_deps (lab_drain_opts True)
     (lab_world (lab_running\<lparr>lab_hangs := True\<rparr>)))) \<le> 13 * Millisecond"
  using drain_shutdown_duration [OF lab_within, of background "''node-1''" True
      "lab_world (lab_running\<lparr>lab_hangs := True\<rparr>)"]
  by (simp add: positive_or_def lab_ms_def lab_drain_opts_def lab_world_def)

text \<open>
  Under a context that has already ended, the waits return its error at once, without
  a call to a backend.
\<close>

theorem waits_honour_ended_context:
  assumes "ctx_err c (w_clock w) = Some e"
  shows "waitPowerOff pw timeout poll c w = (Some e, w) \<and>
    waitUntil timeout poll desc ev check c w = (Some e, w)"
  using assms by (simp add: waitPowerOff_def waitUntil_def Let_def)

theorem waits_honour_ended_context_witness:
  "waitPowerOff lab_adapter Second Second (background\<lparr>ctx_cancel := Some 0\<rparr>) (lab_world lab_running) =
     (Some Canceled, lab_world lab_running)"
proof -
  have "ctx_err (background\<lparr>ctx_cancel := Some 0\<rparr>) (w_clock (lab_world lab_running)) = Some Canceled"
    by (simp add: ctx_err_def done_at_def done_cause_def background_def lab_world_def)
  from waits_honour_ended_context [OF this] show ?thesis by blast
qed

end
