(* ===== verification/Inventory.thy ===== *)
theory Inventory
  imports Go_Runtime
begin

text \<open>
  \<^verbatim>\<open>internal/inventory/inventory.go\<close>: the node inventory, its validation and the BMC credentials
  taken from the environment. The YAML decoder (\<^verbatim>\<open>gopkg.in/yaml.v3\<close>) is third-party: it is the
  parameter \<open>unmarshal\<close>. The node map is the list of its entries, with distinct keys, in the order
  in which \<open>range\<close> visits them; Go leaves that order open, and no fact below depends on it except
  which of several invalid nodes an error names.
\<close>

section \<open>Data\<close>

record bmc_config =
  bmc_Type :: string
  bmc_Host :: string
  bmc_Username :: string
  bmc_Password :: string

record node_spec =
  ns_ElasticEligible :: bool
  ns_Role :: string
  ns_TalosEndpoint :: string
  ns_KubeNodeName :: string
  ns_BMC :: bmc_config
  ns_WakePolicy :: "(string \<times> string) list"
  ns_Labels :: "(string \<times> string) list"
  ns_GPUs :: "string list"
  ns_ISCSIInitiatorAddr :: string

record inventory =
  inv_Nodes :: "(string \<times> node_spec) list"

definition inv_node :: "inventory \<Rightarrow> string \<rightharpoonup> node_spec" where
  "inv_node iv = map_of (inv_Nodes iv)"

section \<open>Loading\<close>

definition validateNode :: "string \<Rightarrow> node_spec \<Rightarrow> err option" where
  "validateNode name node =
     (if name = [] then Some (Err ''node name is empty'')
      else if ns_TalosEndpoint node = [] then Some (Err (''node '' @ name @ '': talos_endpoint is required''))
      else if ns_KubeNodeName node = [] then Some (Err (''node '' @ name @ '': kube_node_name is required''))
      else if bmc_Host (ns_BMC node) = [] then Some (Err (''node '' @ name @ '': bmc.host is required''))
      else if bmc_Type (ns_BMC node) \<in> {''amt'', ''idrac'', ''redfish''} then None
      else Some (Err (''node '' @ name @ '': unsupported bmc.type '' @ Quote (bmc_Type (ns_BMC node)))))"

fun validate_all :: "(string \<times> node_spec) list \<Rightarrow> err option" where
  "validate_all [] = None"
| "validate_all ((name, node) # nodes) =
     (case validateNode name node of Some e \<Rightarrow> Some e | None \<Rightarrow> validate_all nodes)"

definition Load :: "(string \<Rightarrow> err + inventory) \<Rightarrow> string \<Rightarrow> err + inventory" where
  "Load unmarshal data =
     (case unmarshal data of
        Inl e \<Rightarrow> Inl e
      | Inr iv \<Rightarrow>
          if length (inv_Nodes iv) = 0 then Inl (Err ''inventory has no nodes'')
          else (case validate_all (inv_Nodes iv) of Some e \<Rightarrow> Inl e | None \<Rightarrow> Inr iv))"

definition LoadFile ::
  "(string \<Rightarrow> err + string) \<Rightarrow> (string \<Rightarrow> err + inventory) \<Rightarrow> string \<Rightarrow> err + inventory" where
  "LoadFile readFile unmarshal path =
     (case readFile path of Inl e \<Rightarrow> Inl e | Inr b \<Rightarrow> Load unmarshal b)"

definition ElasticNodes :: "inventory \<Rightarrow> (string \<times> node_spec) list" where
  "ElasticNodes iv = filter (\<lambda>(name, node). ns_ElasticEligible node) (inv_Nodes iv)"

section \<open>Credentials\<close>

definition is_letter_or_digit :: "char \<Rightarrow> bool" where
  "is_letter_or_digit c \<longleftrightarrow>
     (let n = (of_char c :: nat) in 48 \<le> n \<and> n \<le> 57 \<or> 65 \<le> n \<and> n \<le> 90 \<or> 97 \<le> n \<and> n \<le> 122)"

text \<open>For ASCII names, as Kubernetes and inventory node names are.\<close>

definition envNodeName :: "string \<Rightarrow> string" where
  "envNodeName name = map (\<lambda>r. if is_letter_or_digit r then upper_char r else CHR ''_'') name"

text \<open>\<open>os.Getenv\<close> is a function of the variable's name; an unset variable reads as the empty string.\<close>

definition env_or :: "(string \<Rightarrow> string) \<Rightarrow> string \<Rightarrow> string \<Rightarrow> string" where
  "env_or getenv var dflt = (if getenv var \<noteq> [] then getenv var else dflt)"

definition with_env_creds :: "(string \<Rightarrow> string) \<Rightarrow> string \<Rightarrow> node_spec \<Rightarrow> node_spec" where
  "with_env_creds getenv name node =
     (let prefix = ''NIGHTWATCH_BMC_'' @ envNodeName name @ ''_''
      in node\<lparr>ns_BMC := (ns_BMC node)
           \<lparr>bmc_Username := env_or getenv (prefix @ ''USERNAME'') (getenv ''NIGHTWATCH_BMC_USERNAME''),
            bmc_Password := env_or getenv (prefix @ ''PASSWORD'') (getenv ''NIGHTWATCH_BMC_PASSWORD'')\<rparr>\<rparr>)"

definition ApplyBMCCredentialsFromEnv :: "(string \<Rightarrow> string) \<Rightarrow> inventory \<Rightarrow> inventory" where
  "ApplyBMCCredentialsFromEnv getenv iv =
     iv\<lparr>inv_Nodes := map (\<lambda>(name, node). (name, with_env_creds getenv name node)) (inv_Nodes iv)\<rparr>"

section \<open>What a loaded inventory satisfies\<close>

text \<open>The invariant of a node that passed validation.\<close>

definition valid_node :: "string \<Rightarrow> node_spec \<Rightarrow> bool" where
  "valid_node name node \<longleftrightarrow>
     name \<noteq> [] \<and> ns_TalosEndpoint node \<noteq> [] \<and> ns_KubeNodeName node \<noteq> [] \<and>
     bmc_Host (ns_BMC node) \<noteq> [] \<and> bmc_Type (ns_BMC node) \<in> {''amt'', ''idrac'', ''redfish''}"

definition valid_inventory :: "inventory \<Rightarrow> bool" where
  "valid_inventory iv \<longleftrightarrow>
     inv_Nodes iv \<noteq> [] \<and> list_all (\<lambda>(name, node). valid_node name node) (inv_Nodes iv)"

lemma validateNode_None_iff: "validateNode name node = None \<longleftrightarrow> valid_node name node"
  by (simp add: validateNode_def valid_node_def)

lemma validate_all_None_iff:
  "validate_all nodes = None \<longleftrightarrow> list_all (\<lambda>(name, node). valid_node name node) nodes"
  by (induction nodes rule: validate_all.induct)
     (auto simp: validateNode_None_iff [symmetric] split: option.splits)

lemma Load_Inr_iff:
  "Load unmarshal data = Inr iv \<longleftrightarrow> unmarshal data = Inr iv \<and> valid_inventory iv"
  by (auto simp: Load_def valid_inventory_def validate_all_None_iff [symmetric]
      split: sum.splits option.splits)

lemma valid_inventory_node:
  "valid_inventory iv \<Longrightarrow> inv_node iv name = Some node \<Longrightarrow> valid_node name node"
  unfolding valid_inventory_def inv_node_def
  by (auto simp: list_all_iff dest!: map_of_SomeD)

text \<open>Credentials change nothing else, so they keep the invariant.\<close>

lemma with_env_creds_keeps:
  "ns_TalosEndpoint (with_env_creds g name node) = ns_TalosEndpoint node"
  "ns_KubeNodeName (with_env_creds g name node) = ns_KubeNodeName node"
  "ns_ElasticEligible (with_env_creds g name node) = ns_ElasticEligible node"
  "ns_GPUs (with_env_creds g name node) = ns_GPUs node"
  "ns_ISCSIInitiatorAddr (with_env_creds g name node) = ns_ISCSIInitiatorAddr node"
  "bmc_Type (ns_BMC (with_env_creds g name node)) = bmc_Type (ns_BMC node)"
  "bmc_Host (ns_BMC (with_env_creds g name node)) = bmc_Host (ns_BMC node)"
  "valid_node name' (with_env_creds g name node) = valid_node name' node"
  by (simp_all add: with_env_creds_def Let_def valid_node_def)

lemma inv_node_ApplyBMCCredentialsFromEnv:
  "inv_node (ApplyBMCCredentialsFromEnv g iv) name =
   map_option (with_env_creds g name) (inv_node iv name)"
proof -
  have "map_of (map (\<lambda>(name, node). (name, f name node)) nodes) name = map_option (f name) (map_of nodes name)"
    for f :: "string \<Rightarrow> node_spec \<Rightarrow> node_spec" and nodes
    by (induction nodes) auto
  then show ?thesis by (simp add: inv_node_def ApplyBMCCredentialsFromEnv_def)
qed

lemma valid_inventory_ApplyBMCCredentialsFromEnv:
  "valid_inventory (ApplyBMCCredentialsFromEnv g iv) = valid_inventory iv"
  by (auto simp: valid_inventory_def ApplyBMCCredentialsFromEnv_def list_all_iff with_env_creds_keeps)

lemma ElasticNodes_iff:
  assumes "distinct (map fst (inv_Nodes iv))"
  shows "map_of (ElasticNodes iv) name =
    (case inv_node iv name of Some node \<Rightarrow> if ns_ElasticEligible node then Some node else None | None \<Rightarrow> None)"
proof -
  have "map_of (filter (\<lambda>(name, node). ns_ElasticEligible node) nodes) name =
      (case map_of nodes name of Some node \<Rightarrow> if ns_ElasticEligible node then Some node else None | None \<Rightarrow> None)"
    if "distinct (map fst nodes)" for nodes
    using that
    by (induction nodes) (auto split: option.splits simp: map_of_eq_None_iff dest: map_of_SomeD)
  with assms show ?thesis by (simp add: inv_node_def ElasticNodes_def)
qed

text \<open>
  After \<open>ApplyBMCCredentialsFromEnv\<close> every node of a loaded inventory
  is still valid and has kept its type and host, and its user and password are those of its own
  variables where these are set and the defaults where they are not.
\<close>

theorem credentials_from_env:
  assumes "Load unmarshal data = Inr iv"
    and "inv_node (ApplyBMCCredentialsFromEnv getenv iv) name = Some node"
  shows "valid_node name node \<and>
    (\<exists>node0. inv_node iv name = Some node0 \<and> node = node0\<lparr>ns_BMC := (ns_BMC node0)
      \<lparr>bmc_Username :=
         env_or getenv (''NIGHTWATCH_BMC_'' @ envNodeName name @ ''_USERNAME'') (getenv ''NIGHTWATCH_BMC_USERNAME''),
       bmc_Password :=
         env_or getenv (''NIGHTWATCH_BMC_'' @ envNodeName name @ ''_PASSWORD'') (getenv ''NIGHTWATCH_BMC_PASSWORD'')\<rparr>\<rparr>)"
proof -
  from assms(2) obtain node0 where n: "inv_node iv name = Some node0" "node = with_env_creds getenv name node0"
    by (auto simp: inv_node_ApplyBMCCredentialsFromEnv)
  from assms(1) have "valid_node name node0" using valid_inventory_node [OF _ n(1)] by (simp add: Load_Inr_iff)
  with n show ?thesis by (simp add: with_env_creds_keeps) (simp add: with_env_creds_def Let_def)
qed

definition lab_node :: node_spec where
  "lab_node = \<lparr>ns_ElasticEligible = True, ns_Role = ''worker'', ns_TalosEndpoint = ''192.0.2.10'',
     ns_KubeNodeName = ''kube-1'',
     ns_BMC = \<lparr>bmc_Type = ''amt'', bmc_Host = ''192.0.2.20'', bmc_Username = [], bmc_Password = []\<rparr>,
     ns_WakePolicy = [], ns_Labels = [], ns_GPUs = [''a2000''], ns_ISCSIInitiatorAddr = ''192.0.2.30''\<rparr>"

definition lab_inv :: inventory where
  "lab_inv = \<lparr>inv_Nodes = [(''node-1'', lab_node)]\<rparr>"

lemma lab_inv_loads: "Load (\<lambda>_. Inr lab_inv) [] = Inr lab_inv"
  by (simp add: Load_Inr_iff valid_inventory_def valid_node_def lab_inv_def lab_node_def)

theorem credentials_from_env_witness:
  "\<exists>node. inv_node (ApplyBMCCredentialsFromEnv
       (\<lambda>v. if v = ''NIGHTWATCH_BMC_NODE_1_USERNAME'' then ''ops''
            else if v = ''NIGHTWATCH_BMC_USERNAME'' then ''admin'' else []) lab_inv) ''node-1'' = Some node \<and>
     valid_node ''node-1'' node \<and> bmc_Username (ns_BMC node) = ''ops'' \<and> bmc_Password (ns_BMC node) = []"
proof -
  let ?env = "\<lambda>v. if v = ''NIGHTWATCH_BMC_NODE_1_USERNAME'' then ''ops''
            else if v = ''NIGHTWATCH_BMC_USERNAME'' then ''admin'' else []"
  have n: "inv_node (ApplyBMCCredentialsFromEnv ?env lab_inv) ''node-1'' =
      Some (with_env_creds ?env ''node-1'' lab_node)"
    unfolding inv_node_ApplyBMCCredentialsFromEnv by (simp add: inv_node_def lab_inv_def)
  have e: "envNodeName ''node-1'' = ''NODE_1''"
    by code_simp
  from credentials_from_env [OF lab_inv_loads n] n show ?thesis
    by (auto simp: e env_or_def)
qed

end
