(* ===== verification/Talos.thy ===== *)
theory Talos
  imports Go_Runtime
begin

text \<open>
  \<^verbatim>\<open>internal/talos/client.go\<close>. The machinery client (\<^verbatim>\<open>github.com/siderolabs/talos\<close>) and its
  configuration parser are third-party: the client is a record of calls, of which the package uses
  the subset \<open>machineClient\<close>; \<open>client.WithNode(ctx, node)\<close> is the first argument of a call.
\<close>

record 'w machine_client =
  mc_Shutdown :: "string \<Rightarrow> bool \<Rightarrow> ('w, err option) prim"
  mc_Version :: "string \<Rightarrow> ('w, err option) prim"
  mc_Close :: "('w, err option) prim"

text \<open>
  The surroundings of \<open>New\<close>: \<open>os.ReadFile\<close>, \<open>clientconfig.FromBytes\<close> and \<open>client.New\<close>, which is
  given the parsed configuration and the endpoints that override it.
\<close>

record ('w, 'cfg) talos_lib =
  tl_ReadFile :: "string \<Rightarrow> ('w, err + string) prim"
  tl_FromBytes :: "string \<Rightarrow> err + 'cfg"
  tl_New :: "'cfg \<Rightarrow> string list \<Rightarrow> ('w, err + 'w machine_client) prim"

definition talos_loadConfig :: "('w, 'cfg) talos_lib \<Rightarrow> string \<Rightarrow> ('w, err + 'cfg) prim" where
  "talos_loadConfig lib configPath =
     pmap (\<lambda>r. case r of
         Inl e \<Rightarrow> Inl (wrap (''failed to read config from '' @ Quote configPath @ '': '') e)
       | Inr b \<Rightarrow>
           (case tl_FromBytes lib b of
              Inl e \<Rightarrow> Inl (wrap (''failed to parse config from '' @ Quote configPath @ '': '') e)
            | Inr cfg \<Rightarrow> Inr cfg))
       (tl_ReadFile lib configPath)"

definition talos_New ::
  "('w, 'cfg) talos_lib \<Rightarrow> string \<Rightarrow> string list \<Rightarrow> ('w, err + 'w machine_client) prim" where
  "talos_New lib configPath endpoints =
     pbind (talos_loadConfig lib configPath) (\<lambda>r. case r of
         Inl e \<Rightarrow> pret (Inl e)
       | Inr cfg \<Rightarrow>
           pmap (\<lambda>r. case r of Inl e \<Rightarrow> Inl (wrap ''talos client: '' e) | Inr mc \<Rightarrow> Inr mc)
             (tl_New lib cfg endpoints))"

definition talos_Shutdown :: "'w machine_client \<Rightarrow> string \<Rightarrow> ('w, err option) prim" where
  "talos_Shutdown mc node =
     pmap (map_option (wrap (''talos shutdown '' @ node @ '': ''))) (mc_Shutdown mc node False)"

definition talos_Reachable :: "'w machine_client \<Rightarrow> string \<Rightarrow> ('w, bool) prim" where
  "talos_Reachable mc node = pmap (\<lambda>e. e = None) (mc_Version mc node)"

definition talos_Close :: "'w machine_client \<Rightarrow> ('w, err option) prim" where
  "talos_Close mc = mc_Close mc"

text \<open>The shutdown the lifecycle issues is never a forced one.\<close>

lemma talos_Shutdown_graceful:
  "mc_Shutdown mc node False = mc_Shutdown mc' node False \<Longrightarrow> talos_Shutdown mc node = talos_Shutdown mc' node"
  by (simp add: talos_Shutdown_def)

end
