(* ===== verification/Iscsi.thy ===== *)
theory Iscsi
  imports Go_Runtime
begin

text \<open>
  \<^verbatim>\<open>internal/iscsi/iscsi.go\<close>: the pre-shutdown data-safety gate. The session lister is a call into
  the outside world that yields the target's session table as text, or an error; the log of the
  world holds its replies.
\<close>

type_synonym 'w session_lister = "('w, err + string) prim"

text \<open>\<open>Gate\<close>: a nil \<open>List\<close> is \<open>None\<close>.\<close>

record 'w iscsi_gate =
  ig_List :: "'w session_lister option"
  ig_Poll :: duration

definition SessionPresent :: "string \<Rightarrow> string \<Rightarrow> bool" where
  "SessionPresent table initiatorIQN = Contains (ToLower table) (ToLower (TrimSpace initiatorIQN))"

text \<open>What one reading of the table decides: an error and a clear table return, a session waits.\<close>

definition gate_stop :: "string \<Rightarrow> err + string \<Rightarrow> err option option" where
  "gate_stop initiatorIQN r =
     (case r of
        Inl e \<Rightarrow> Some (Some (wrap ''iscsi gate: list sessions: '' e))
      | Inr table \<Rightarrow> if \<not> SessionPresent table initiatorIQN then Some None else None)"

definition WaitClear ::
  "'w iscsi_gate \<Rightarrow> string \<Rightarrow> duration \<Rightarrow> ctx \<Rightarrow> ('w, err + string) world \<Rightarrow>
   err option \<times> ('w, err + string) world" where
  "WaitClear g initiatorIQN timeout c w =
     (case ig_List g of
        None \<Rightarrow> (Some (Err ''iscsi gate: no SessionLister configured''), w)
      | Some lister \<Rightarrow>
          if TrimSpace initiatorIQN = [] then (Some (Err ''iscsi gate: empty initiator IQN''), w)
          else
            (let poll = (if ig_Poll g \<le> 0 then 3 * Second else ig_Poll g)
             in case poll_loop (\<lambda>r. r) lister (gate_stop initiatorIQN) c (w_clock w + timeout) poll w of
                  (Inl res, w') \<Rightarrow> (res, w')
                | (Inr (_, e), w') \<Rightarrow>
                    (Some (wrap (''iscsi gate: sessions for '' @ initiatorIQN @ '' still present after '' @
                                 duration_str timeout @ '': '') e), w')))"

text \<open>
  \<open>CommandLister\<close>: \<open>exec.CommandContext(...).CombinedOutput()\<close> is a call that yields the output and
  the exit error.
\<close>

definition CommandLister ::
  "(string \<Rightarrow> string list \<Rightarrow> ('w, string \<times> err option) prim) \<Rightarrow> string \<Rightarrow> string list \<Rightarrow>
   'w session_lister" where
  "CommandLister exec name args c t s =
     (case exec name args c t s of
        ((out, None), dt, s') \<Rightarrow> (Inr out, dt, s')
      | ((out, Some e), dt, s') \<Rightarrow> (Inl (Wrapf (name @ '': '') e ('': '' @ TrimSpace out)), dt, s'))"

section \<open>The match\<close>

lemma SessionPresent_iff:
  "SessionPresent table iqn \<longleftrightarrow> (\<exists>a b. ToLower table = a @ ToLower (TrimSpace iqn) @ b)"
  by (simp add: SessionPresent_def Contains_iff)

lemma SessionPresent_echo:
  assumes "EqualFold echo (TrimSpace iqn)"
  shows "SessionPresent (before @ echo @ after) iqn"
  using assms by (auto simp: SessionPresent_iff EqualFold_def ToLower_def)

lemma SessionPresent_trim: "SessionPresent table (TrimSpace iqn) = SessionPresent table iqn"
  by (simp add: SessionPresent_def)

section \<open>The gate\<close>

text \<open>The three ways out of a gate that has read the table.\<close>

definition gate_outcome :: "string \<Rightarrow> err + string \<Rightarrow> err option \<Rightarrow> bool" where
  "gate_outcome iqn r res \<longleftrightarrow>
     (case r of
        Inl e \<Rightarrow> res = Some (wrap ''iscsi gate: list sessions: '' e)
      | Inr table \<Rightarrow> (res = None) = (\<not> SessionPresent table iqn))"

lemma gate_stop_None:
  "gate_stop iqn x = None \<longleftrightarrow> (\<not> isl x \<and> SessionPresent (projr x) iqn)"
  by (cases x) (simp_all add: gate_stop_def)

lemma WaitClear_trace:
  assumes run: "WaitClear g iqn timeout c w = (res, w')"
    and lister: "ig_List g \<noteq> None" and iqn: "TrimSpace iqn \<noteq> []"
  shows "\<exists>tables r. w_trace w' = w_trace w @ map Inr tables @ [r] \<and>
    filter (\<lambda>t. \<not> SessionPresent t iqn) tables = [] \<and> gate_outcome iqn r res"
proof -
  from lister obtain l where l: "ig_List g = Some l" by blast
  let ?poll = "if ig_Poll g \<le> 0 then 3 * Second else ig_Poll g"
  obtain out w1 where loop:
    "poll_loop (\<lambda>r. r) l (gate_stop iqn) c (w_clock w + timeout) ?poll w = (out, w1)"
    by (rule prod.exhaust)
  from poll_loop_trace [OF loop] obtain rs r where
    tr: "w_trace w1 = w_trace w @ rs @ [r]" and go: "\<forall>x \<in> set rs. gate_stop iqn x = None"
    and fin: "poll_ended (gate_stop iqn) c (w_clock w + timeout) r out (w_clock w1)" by auto
  have some: "\<forall>x \<in> set rs. \<not> isl x \<and> SessionPresent (projr x) iqn"
    using go by (simp add: gate_stop_None)
  then have tables: "map Inr (map projr rs) = rs"
    "filter (\<lambda>t. \<not> SessionPresent t iqn) (map projr rs) = []"
    by (simp_all add: filter_empty_conv map_idI)
  from run l iqn loop have "w' = w1" and "gate_outcome iqn r res"
    using fin by (auto simp: WaitClear_def Let_def gate_outcome_def poll_ended_def gate_stop_def
        split: sum.splits if_splits)
  with tables tr show ?thesis by metis
qed

lemma WaitClear_refuses:
  assumes "ig_List g = None \<or> TrimSpace iqn = []"
  shows "\<exists>e. WaitClear g iqn timeout c w = (Some e, w)"
  using assms by (auto simp: WaitClear_def split: option.splits)

lemma WaitClear_clear_inv:
  assumes "WaitClear g iqn timeout c w = (None, w')"
  shows "\<exists>tables table. w_trace w' = w_trace w @ map Inr tables @ [Inr table] \<and>
    filter (\<lambda>t. \<not> SessionPresent t iqn) tables = [] \<and> \<not> SessionPresent table iqn"
proof -
  have "ig_List g \<noteq> None" "TrimSpace iqn \<noteq> []"
    using assms by (auto simp: WaitClear_def split: option.splits if_splits)
  from WaitClear_trace [OF assms this] obtain tables r where
    tr: "w_trace w' = w_trace w @ map Inr tables @ [r]" "filter (\<lambda>t. \<not> SessionPresent t iqn) tables = []"
    and r: "gate_outcome iqn r None" by blast
  from r obtain table where "r = Inr table" "\<not> SessionPresent table iqn"
    by (auto simp: gate_outcome_def split: sum.splits)
  with tr show ?thesis by blast
qed

lemma WaitClear_clock:
  assumes run: "WaitClear g iqn timeout c w = (res, w')"
    and quick: "\<And>l c t s. ig_List g = Some l \<Longrightarrow> fst (snd (l c t s)) \<le> D"
  shows "w_clock w \<le> w_clock w' \<and> w_clock w' \<le> w_clock w + max 0 timeout + int D"
proof (cases "ig_List g = None \<or> TrimSpace iqn = []")
  case True
  with run show ?thesis by (auto simp: WaitClear_def split: option.splits)
next
  case False
  then obtain l where l: "ig_List g = Some l" by auto
  let ?poll = "if ig_Poll g \<le> 0 then 3 * Second else ig_Poll g"
  obtain out w1 where loop:
    "poll_loop (\<lambda>r. r) l (gate_stop iqn) c (w_clock w + timeout) ?poll w = (out, w1)"
    by (rule prod.exhaust)
  have "w' = w1" using run l False loop by (auto simp: WaitClear_def Let_def split: sum.splits)
  moreover have "w_clock w1 \<le> max (w_clock w) (w_clock w + timeout) + int D"
    using poll_loop_deadline [OF loop quick [OF l]] .
  ultimately show ?thesis
    using poll_loop_clock_mono [OF loop] by (auto simp: max_def split: if_splits)
qed

text \<open>
  The contract of a target at which the node stays logged in: in every state of \<open>live\<close> a reading
  fails, or it holds the identity and leads to such a state again. No gate that reads from it opens.
\<close>

locale live_session =
  fixes lister :: "'w session_lister" and token :: string and live :: "'w \<Rightarrow> bool"
  assumes reading: "live s \<Longrightarrow> lister c t s = (r, d, s') \<Longrightarrow> isl r \<or> SessionPresent (projr r) token \<and> live s'"
begin

lemma loop_closed:
  assumes run: "poll_loop (\<lambda>r. r) lister (gate_stop token) c dl poll w = (res, w')" and "live (w_env w)"
  shows "res \<noteq> Inl None"
proof -
  have step: "isl r \<or> gate_stop token r = None \<and> live (w_env w1)"
    if "invoke (\<lambda>r. r) lister c' w = (r, w1)" "live (w_env w)" for c' w r w1
    using that reading by (fastforce simp: invoke_def gate_stop_None split: prod.splits)
  have stop: "a \<noteq> None" if "isl r" "gate_stop token r = Some a" for r a
    using that by (cases r) (auto simp: gate_stop_def)
  have "live (w_env w) \<longrightarrow> res \<noteq> Inl None"
  proof (rule poll_loop_rule [OF run, where P = "\<lambda>w res w'. live (w_env w) \<longrightarrow> res \<noteq> Inl None"], goal_cases)
    case (1 w r w1 a)
    then show ?case using step [OF 1(1)] stop by force
  next
    case (2 w r w1 t)
    then show ?case by simp
  next
    case (3 w r w1 res w')
    then have "\<not> isl r" by (auto simp: gate_stop_None)
    then show ?case using 3(4) step [OF 3(1)] by (auto simp: sleep_def)
  qed
  with assms(2) show ?thesis by blast
qed

lemma gate_closed:
  assumes "ig_List g = Some lister" and "live (w_env w)"
  shows "fst (WaitClear g token timeout c w) \<noteq> None"
proof (cases "TrimSpace token = []")
  case True
  then show ?thesis by (simp add: WaitClear_def assms(1))
next
  case False
  let ?poll = "if ig_Poll g \<le> 0 then 3 * Second else ig_Poll g"
  obtain out w' where loop: "poll_loop (\<lambda>r. r) lister (gate_stop token) c (w_clock w + timeout) ?poll w = (out, w')"
    by (rule prod.exhaust)
  with loop_closed [OF loop assms(2)] False show ?thesis
    by (auto simp: WaitClear_def Let_def assms(1) split: sum.splits)
qed

end

text \<open>
  C12 (safety, reading is not guessing). A configured gate reports clear exactly when its last reading
  of the table does not hold the initiator; every reading before it did. A reading that fails ends the
  wait with that error: it is neither retried nor taken for "clear".
\<close>

theorem gate_decides_on_readings:
  assumes "WaitClear g iqn timeout c w = (res, w')" and "ig_List g \<noteq> None" and "TrimSpace iqn \<noteq> []"
  shows "\<exists>tables r. w_trace w' = w_trace w @ map Inr tables @ [r] \<and>
    filter (\<lambda>t. \<not> SessionPresent t iqn) tables = [] \<and>
    (case r of
       Inl e \<Rightarrow> res = Some (wrap ''iscsi gate: list sessions: '' e)
     | Inr table \<Rightarrow> (res = None) = (\<not> SessionPresent table iqn))"
  using WaitClear_trace [OF assms] by (simp add: gate_outcome_def)

text \<open>A target whose table is read off a list, one reading per millisecond.\<close>

definition lab_lister :: "(err + string) list session_lister" where
  "lab_lister c t s = (case s of [] \<Rightarrow> (Inl ErrEOF, 1000000, []) | r # rs \<Rightarrow> (r, 1000000, rs))"

theorem gate_decides_on_readings_witness:
  "\<exists>res w' tables r.
     WaitClear \<lparr>ig_List = Some lab_lister, ig_Poll = Second\<rparr> '' IQN.node-1 '' Minute background
       \<lparr>w_env = [Inr ''tcp: iqn.node-1'', Inr ''none''], w_clock = 0, w_trace = []\<rparr> = (res, w') \<and>
     w_trace w' = map Inr tables @ [r] \<and> filter (\<lambda>t. \<not> SessionPresent t '' IQN.node-1 '') tables = [] \<and>
     (case r of
        Inl e \<Rightarrow> res = Some (wrap ''iscsi gate: list sessions: '' e)
      | Inr table \<Rightarrow> (res = None) = (\<not> SessionPresent table '' IQN.node-1 ''))"
proof -
  let ?g = "\<lparr>ig_List = Some lab_lister, ig_Poll = Second\<rparr>"
  let ?w = "\<lparr>w_env = [Inr ''tcp: iqn.node-1'', Inr ''none''], w_clock = 0, w_trace = []\<rparr>"
  obtain res w' where run: "WaitClear ?g '' IQN.node-1 '' Minute background ?w = (res, w')"
    by (rule prod.exhaust)
  have "TrimSpace '' IQN.node-1 '' \<noteq> []" by code_simp
  from gate_decides_on_readings [OF run _ this] run show ?thesis by auto
qed

end
