(* ===== verification/TrueNAS.thy ===== *)
theory TrueNAS
  imports Json Iscsi
begin

text \<open>
  \<^verbatim>\<open>internal/truenas/wsconn.go\<close> and \<^verbatim>\<open>truenas.go\<close>: JSON-RPC over one WebSocket, the login and the
  session table that feeds the storage gate. The WebSocket library (\<^verbatim>\<open>github.com/coder/websocket\<close>)
  is third-party: \<open>ws_lib\<close> holds its calls. A frame is the text of one JSON message. The request
  counter of a connection is part of the outside state, reached through \<open>ws_id\<close> and \<open>ws_set_id\<close>;
  the mutex of \<open>Call\<close> makes a call one step.

  The read loop of \<open>Call\<close> has no bound of its own: it skips frames that are not the reply. It is
  given \<open>ws_pending s + 1\<close> rounds, where \<open>ws_pending\<close> bounds the frames that the server still sends;
  \<open>ws_await_enough\<close> shows that under \<open>ws_progress\<close> (every frame received lowers the bound)
  the rounds never run out and more rounds change nothing.
\<close>

section \<open>Connection\<close>

record rpc_request =
  rq_id :: int
  rq_method :: string
  rq_params :: "(string \<times> string) list list"

record 'w ws_lib =
  ws_Dial :: "string \<Rightarrow> ('w, err option) prim"
  ws_Write :: "rpc_request \<Rightarrow> ('w, err option) prim"
  ws_Read :: "('w, err + string) prim"
  ws_Close :: "('w, err option) prim"
  ws_id :: "'w \<Rightarrow> int"
  ws_set_id :: "int \<Rightarrow> 'w \<Rightarrow> 'w"
  ws_pending :: "'w \<Rightarrow> nat"

text \<open>\<open>rpcError\<close> and its text.\<close>

record rpc_error =
  re_Code :: int
  re_Message :: string
  re_Data :: string

definition rpc_error_Error :: "rpc_error \<Rightarrow> string" where
  "rpc_error_Error e =
     (let msg = ''jsonrpc error '' @ int_str (re_Code e) @ '': '' @ re_Message e;
          d = TrimSpace (re_Data e)
      in if d \<noteq> [] \<and> d \<noteq> ''null'' then msg @ '': '' @ d else msg)"

definition decode_rpc_error :: "rpc_error \<Rightarrow> json \<Rightarrow> err + rpc_error" where
  "decode_rpc_error cur v =
     (case struct_members v of
        Inl e \<Rightarrow> Inl e
      | Inr ms \<Rightarrow>
          (case decode_int (re_Code cur) (field_values ''code'' ms) of
             Inl e \<Rightarrow> Inl e
           | Inr code \<Rightarrow>
               (case decode_string (re_Message cur) (field_values ''message'' ms) of
                  Inl e \<Rightarrow> Inl e
                | Inr msg \<Rightarrow>
                    (let ds = field_values ''data'' ms
                     in Inr \<lparr>re_Code = code, re_Message = msg,
                             re_Data = (if ds = [] then re_Data cur else decode_raw ds)\<rparr>))))"

text \<open>A pointer field: \<open>null\<close> is nil, an object fills the value pointed to.\<close>

fun decode_error_ptr :: "rpc_error option \<Rightarrow> (string \<times> json) list \<Rightarrow> err + rpc_error option" where
  "decode_error_ptr cur [] = Inr cur"
| "decode_error_ptr cur ((_, JNull) # vs) = decode_error_ptr None vs"
| "decode_error_ptr cur ((_, v) # vs) =
     (case decode_rpc_error
             (case cur of Some e \<Rightarrow> e | None \<Rightarrow> \<lparr>re_Code = 0, re_Message = [], re_Data = []\<rparr>) v of
        Inl e \<Rightarrow> Inl e
      | Inr e \<Rightarrow> decode_error_ptr (Some e) vs)"

record rpc_reply =
  rp_ID :: "int option"
  rp_Result :: string
  rp_Error :: "rpc_error option"

definition decode_reply :: "string \<Rightarrow> err + rpc_reply" where
  "decode_reply frame =
     (case json_Unmarshal frame of
        Inl e \<Rightarrow> Inl e
      | Inr v \<Rightarrow>
          (case struct_members v of
             Inl e \<Rightarrow> Inl e
           | Inr ms \<Rightarrow>
               (case decode_int_ptr None (field_values ''id'' ms) of
                  Inl e \<Rightarrow> Inl e
                | Inr i \<Rightarrow>
                    (case decode_error_ptr None (field_values ''error'' ms) of
                       Inl e \<Rightarrow> Inl e
                     | Inr er \<Rightarrow>
                         Inr \<lparr>rp_ID = i, rp_Result = decode_raw (field_values ''result'' ms),
                              rp_Error = er\<rparr>))))"

text \<open>The loop of \<open>Call\<close>: read frames until the one that answers \<open>id\<close>.\<close>

fun ws_await :: "nat \<Rightarrow> 'w ws_lib \<Rightarrow> int \<Rightarrow> string \<Rightarrow> ('w, err + string) prim" where
  "ws_await 0 lib i method c t s = (Inl (Err ''no reply''), 0, s)"
| "ws_await (Suc n) lib i method c t s =
     (case ws_Read lib c t s of
        (Inl e, d, s1) \<Rightarrow> (Inl (wrap (''read '' @ method @ '' response: '') e), d, s1)
      | (Inr frame, d, s1) \<Rightarrow>
          (case decode_reply frame of
             Inl e \<Rightarrow> (Inl (wrap (''read '' @ method @ '' response: '') e), d, s1)
           | Inr resp \<Rightarrow>
               if rp_ID resp \<noteq> Some i
               then (case ws_await n lib i method c (t + int d) s1 of (r, d', s2) \<Rightarrow> (r, d + d', s2))
               else (case rp_Error resp of
                       Some e \<Rightarrow> (Inl (Err (rpc_error_Error e)), d, s1)
                     | None \<Rightarrow> (Inr (rp_Result resp), d, s1))))"

definition ws_Call ::
  "'w ws_lib \<Rightarrow> string \<Rightarrow> (string \<times> string) list list \<Rightarrow> ('w, err + string) prim" where
  "ws_Call lib method params c t s =
     (let i = ws_id lib s + 1;
          s0 = ws_set_id lib i s
      in case ws_Write lib \<lparr>rq_id = i, rq_method = method, rq_params = params\<rparr> c t s0 of
           (Some e, d, s1) \<Rightarrow> (Inl (wrap (''write '' @ method @ '': '') e), d, s1)
         | (None, d, s1) \<Rightarrow>
             (case ws_await (Suc (ws_pending lib s1)) lib i method c (t + int d) s1 of
                (r, d', s2) \<Rightarrow> (r, d + d', s2)))"

section \<open>Client\<close>

definition truenas_login :: "'w ws_lib \<Rightarrow> string \<Rightarrow> string \<Rightarrow> ('w, err option) prim" where
  "truenas_login lib username apiKey =
     pmap (\<lambda>r. case r of
         Inl e \<Rightarrow> Some (wrap ''truenas: auth.login_ex: '' e)
       | Inr raw \<Rightarrow>
           (case (case json_Unmarshal raw of
                    Inl e \<Rightarrow> Inl e
                  | Inr v \<Rightarrow>
                      (case struct_members v of
                         Inl e \<Rightarrow> Inl e
                       | Inr ms \<Rightarrow> decode_string [] (field_values ''response_type'' ms))) of
              Inl e \<Rightarrow> Some (wrap ''truenas: decode login response: '' e)
            | Inr responseType \<Rightarrow>
                if responseType \<noteq> ''SUCCESS''
                then Some (Err (''truenas: login failed: response_type='' @ Quote responseType))
                else None))
       (ws_Call lib ''auth.login_ex''
          [[(''mechanism'', ''API_KEY_PLAIN''), (''username'', username), (''api_key'', apiKey)]])"

definition truenas_dial :: "'w ws_lib \<Rightarrow> string \<Rightarrow> ('w, err option) prim" where
  "truenas_dial lib host =
     (let url = ''wss://'' @ host @ ''/api/current''
      in pmap (map_option (wrap (''truenas: dial '' @ url @ '': ''))) (ws_Dial lib url))"

text \<open>
  \<open>New\<close>: \<open>Inr ()\<close> is a client on the connection. A failed login closes it; the error of \<open>Close\<close> is
  dropped.
\<close>

definition truenas_New :: "'w ws_lib \<Rightarrow> string \<Rightarrow> string \<Rightarrow> string \<Rightarrow> ('w, err + unit) prim" where
  "truenas_New lib host username apiKey =
     pbind (truenas_dial lib host) (\<lambda>e. case e of
         Some e \<Rightarrow> pret (Inl e)
       | None \<Rightarrow>
           pbind (truenas_login lib username apiKey) (\<lambda>e. case e of
               Some e \<Rightarrow> pmap (\<lambda>_. Inl e) (ws_Close lib)
             | None \<Rightarrow> pret (Inr ())))"

definition sessionsRaw :: "'w ws_lib \<Rightarrow> ('w, err + string) prim" where
  "sessionsRaw lib =
     pmap (\<lambda>r. case r of
         Inl e \<Rightarrow> Inl (wrap ''truenas: iscsi.global.sessions: '' e)
       | Inr raw \<Rightarrow> if length (TrimSpace raw) = 0 then Inr ''[]'' else Inr raw)
       (ws_Call lib ''iscsi.global.sessions'' [])"

definition SessionTable :: "'w ws_lib \<Rightarrow> ('w, err + string) prim" where
  "SessionTable lib =
     pmap (\<lambda>r. case r of
         Inl e \<Rightarrow> Inl e
       | Inr raw \<Rightarrow> (case json_Indent raw of Inl _ \<Rightarrow> Inr raw | Inr pretty \<Rightarrow> Inr pretty))
       (sessionsRaw lib)"

record truenas_session =
  se_Initiator :: string
  se_InitiatorAddr :: string
  se_Target :: string

definition decode_session :: "json \<Rightarrow> err + truenas_session" where
  "decode_session v =
     (case struct_members v of
        Inl e \<Rightarrow> Inl e
      | Inr ms \<Rightarrow>
          (case (decode_string [] (field_values ''initiator'' ms),
                 decode_string [] (field_values ''initiator_addr'' ms),
                 decode_string [] (field_values ''target'' ms)) of
             (Inr i, Inr a, Inr tg) \<Rightarrow> Inr \<lparr>se_Initiator = i, se_InitiatorAddr = a, se_Target = tg\<rparr>
           | _ \<Rightarrow> Inl type_error))"

definition Sessions :: "'w ws_lib \<Rightarrow> ('w, err + truenas_session list) prim" where
  "Sessions lib =
     pmap (\<lambda>r. case r of
         Inl e \<Rightarrow> Inl e
       | Inr raw \<Rightarrow>
           (case (case json_Unmarshal raw of
                    Inl e \<Rightarrow> Inl e
                  | Inr v \<Rightarrow> decode_slice decode_session v) of
              Inl e \<Rightarrow> Inl (wrap ''truenas: decode sessions: '' e)
            | Inr xs \<Rightarrow> Inr xs))
       (sessionsRaw lib)"

section \<open>Correlation of replies\<close>

text \<open>What the bound on the frames to come has to satisfy.\<close>

definition ws_progress :: "'w ws_lib \<Rightarrow> bool" where
  "ws_progress lib \<longleftrightarrow>
     (\<forall>c t s frame d s'. ws_Read lib c t s = (Inr frame, d, s') \<longrightarrow> ws_pending lib s' < ws_pending lib s)"

lemma ws_await_enough:
  assumes "ws_progress lib" and "ws_pending lib s < n"
  shows "ws_await n lib i method c t s = ws_await (Suc (ws_pending lib s)) lib i method c t s"
  using assms(2)
proof (induction n arbitrary: t s rule: less_induct)
  case (less n)
  then obtain m where n: "n = Suc m" by (cases n) auto
  have "ws_await m lib i method c t' s1 = ws_await (ws_pending lib s) lib i method c t' s1"
    if "ws_Read lib c t s = (Inr frame, d, s1)" for frame d s1 t'
  proof -
    have lt: "ws_pending lib s1 < ws_pending lib s"
      using assms(1) that by (auto simp: ws_progress_def)
    moreover have "ws_pending lib s1 < m" using lt less.prems n by simp
    ultimately show ?thesis
      using less.IH [of m s1 t'] less.IH [of "ws_pending lib s" s1 t'] less.prems n
      by (cases "ws_pending lib s = m") auto
  qed
  then show ?case by (auto simp: n split: sum.splits prod.splits)
qed

text \<open>
  The frames a read loop has consumed: \<open>ws_reads lib c t s frames t' s'\<close> says that the frames were
  received one after the other from \<open>(t, s)\<close> to \<open>(t', s')\<close>.
\<close>

inductive ws_reads :: "'w ws_lib \<Rightarrow> ctx \<Rightarrow> time \<Rightarrow> 'w \<Rightarrow> string list \<Rightarrow> 'w \<Rightarrow> bool" for lib c where
  none: "ws_reads lib c t s [] s"
| more: "ws_Read lib c t s = (Inr frame, d, s1) \<Longrightarrow> ws_reads lib c (t + int d) s1 frames s' \<Longrightarrow>
    ws_reads lib c t s (frame # frames) s'"

definition foreign :: "int \<Rightarrow> string \<Rightarrow> bool" where
  "foreign i frame \<longleftrightarrow> (\<exists>resp. decode_reply frame = Inr resp \<and> rp_ID resp \<noteq> Some i)"

lemma ws_await_reply:
  assumes "ws_await n lib i method c t s = (Inr raw, d, s')"
  shows "\<exists>skipped frame resp. ws_reads lib c t s (skipped @ [frame]) s' \<and> list_all (foreign i) skipped \<and>
    decode_reply frame = Inr resp \<and> rp_ID resp = Some i \<and> rp_Error resp = None \<and> raw = rp_Result resp"
  using assms
proof (induction n arbitrary: t s d)
  case 0
  then show ?case by simp
next
  case (Suc n)
  obtain rd d1 s1 where rd: "ws_Read lib c t s = (rd, d1, s1)" by (rule prod_cases3)
  then obtain frame where frame: "rd = Inr frame" using Suc.prems by (cases rd) auto
  then obtain resp where resp: "decode_reply frame = Inr resp"
    using Suc.prems rd by (cases "decode_reply frame") auto
  show ?case
  proof (cases "rp_ID resp = Some i")
    case True
    then have "rp_Error resp = None \<and> raw = rp_Result resp \<and> s' = s1"
      using Suc.prems rd frame resp by (auto split: option.splits)
    moreover have "ws_reads lib c t s ([] @ [frame]) s1"
      using rd frame by (auto intro: ws_reads.intros)
    ultimately show ?thesis using True resp by (metis list.pred_inject(1))
  next
    case False
    then obtain d2 where "ws_await n lib i method c (t + int d1) s1 = (Inr raw, d2, s')"
      using Suc.prems rd frame resp by (auto split: prod.splits)
    from Suc.IH [OF this] obtain skipped frame' resp' where
      rest: "ws_reads lib c (t + int d1) s1 (skipped @ [frame']) s'" "list_all (foreign i) skipped"
        "decode_reply frame' = Inr resp'" "rp_ID resp' = Some i" "rp_Error resp' = None" "raw = rp_Result resp'"
      by blast
    have "ws_reads lib c t s ((frame # skipped) @ [frame']) s'"
      using rd frame rest(1) by (auto intro: ws_reads.more)
    moreover have "list_all (foreign i) (frame # skipped)"
      using rest(2) False resp by (auto simp: foreign_def)
    ultimately show ?thesis using rest(3-6) by blast
  qed
qed

section \<open>What the gate sees\<close>

text \<open>The text the gate matches on, as a function of the raw result.\<close>

definition table_of :: "string \<Rightarrow> string" where
  "table_of raw =
     (let raw = (if length (TrimSpace raw) = 0 then ''[]'' else raw)
      in case json_Indent raw of Inl _ \<Rightarrow> raw | Inr pretty \<Rightarrow> pretty)"

lemma SessionTable_eq:
  "SessionTable lib = pmap (\<lambda>r. case r of
     Inl e \<Rightarrow> Inl (wrap ''truenas: iscsi.global.sessions: '' e) | Inr raw \<Rightarrow> Inr (table_of raw))
   (ws_Call lib ''iscsi.global.sessions'' [])"
  by (rule ext)+
     (auto simp: SessionTable_def sessionsRaw_def pmap_def table_of_def Let_def
       split: sum.splits prod.splits)

lemma TrimSpace_not_Nil: "c \<in> set s \<Longrightarrow> \<not> is_space c \<Longrightarrow> TrimSpace s \<noteq> []"
  by (auto simp: TrimSpace_Nil_iff)

lemma table_of_keeps:
  assumes "in_str (snd (indent_run a indent_init))" and "\<not> in_esc (snd (indent_run a indent_init))"
    and "CHR 0x22 \<notin> set s" and "CHR 0x5C \<notin> set s" and "TrimSpace s \<noteq> []"
  shows "\<exists>before after. table_of (a @ s @ b) = before @ s @ after"
proof -
  obtain x where "x \<in> set s" "\<not> is_space x" using assms(5) by (auto simp: TrimSpace_Nil_iff)
  then have "TrimSpace (a @ s @ b) \<noteq> []" by (intro TrimSpace_not_Nil [of x]) auto
  then have eq: "table_of (a @ s @ b) =
      (case json_Indent (a @ s @ b) of Inl _ \<Rightarrow> a @ s @ b | Inr pretty \<Rightarrow> pretty)"
    by (simp add: table_of_def Let_def)
  show ?thesis
  proof (cases "json_Indent (a @ s @ b)")
    case (Inl e)
    with eq show ?thesis by auto
  next
    case (Inr out)
    with eq Contains_Indent [OF Inr assms(1-4)] show ?thesis by simp
  qed
qed

section \<open>Properties\<close>

text \<open>A connection that delivers the given frames, one per millisecond, for the witnesses.\<close>

definition lab_ws :: "(int \<times> string list) ws_lib" where
  "lab_ws =
     \<lparr>ws_Dial = (\<lambda>url c t s. (None, 1000000, s)),
      ws_Write = (\<lambda>req c t s. (None, 1000000, s)),
      ws_Read = (\<lambda>c t s. case snd s of
                   [] \<Rightarrow> (Inl ErrEOF, 1000000, s)
                 | f # fs \<Rightarrow> (Inr f, 1000000, (fst s, fs))),
      ws_Close = (\<lambda>c t s. (None, 1000000, s)),
      ws_id = fst, ws_set_id = (\<lambda>i s. (i, snd s)), ws_pending = (\<lambda>s. length (snd s))\<rparr>"

lemma lab_ws_progress: "ws_progress lab_ws"
  by (auto simp: ws_progress_def lab_ws_def split: list.splits)

definition frame_event :: string where
  \<open>frame_event = ''{"msg":"changed"}''\<close>

definition frame_reply :: string where
  \<open>frame_reply = ''{"id":2,"result":[{"initiator_addr":"192.0.2.30"}]}''\<close>

definition frame_no_result :: string where
  \<open>frame_no_result = ''{"id":2}''\<close>

lemma decode_frames:
  "decode_reply frame_event = Inr \<lparr>rp_ID = None, rp_Result = [], rp_Error = None\<rparr>"
  \<open>decode_reply frame_reply =
     Inr \<lparr>rp_ID = Some 2, rp_Result = ''[{"initiator_addr":"192.0.2.30"}]'', rp_Error = None\<rparr>\<close>
  "decode_reply frame_no_result = Inr \<lparr>rp_ID = Some 2, rp_Result = [], rp_Error = None\<rparr>"
  by code_simp+

lemma lab_ws_call:
  \<open>ws_Call lab_ws ''iscsi.global.sessions'' [] background 0 (1, [frame_event, frame_reply]) =
     (Inr ''[{"initiator_addr":"192.0.2.30"}]'', 3000000, (2, []))\<close>
  \<open>ws_Call lab_ws ''iscsi.global.sessions'' [] background 0 (1, [frame_no_result]) =
     (Inr [], 2000000, (2, []))\<close>
  by (simp_all add: ws_Call_def Let_def lab_ws_def decode_frames)

text \<open>
  C11 (safety, the gate sees a live session). Whenever the target's reply holds the node's identity
  inside a JSON string, in whatever field and in whatever case, the session table handed to the
  gate holds it too: indenting the reply cannot hide it, so the gate stays closed.
\<close>

theorem session_table_shows_live_session:
  assumes "ws_Call lib ''iscsi.global.sessions'' [] c t s = (Inr (a @ echo @ b), d, s')"
    and "in_str (snd (indent_run a indent_init))" and "\<not> in_esc (snd (indent_run a indent_init))"
    and "CHR 0x22 \<notin> set echo" and "CHR 0x5C \<notin> set echo"
    and "EqualFold echo (TrimSpace iqn)" and "TrimSpace echo \<noteq> []"
  shows "\<exists>table. SessionTable lib c t s = (Inr table, d, s') \<and> SessionPresent table iqn"
proof -
  obtain before after where "table_of (a @ echo @ b) = before @ echo @ after"
    using table_of_keeps [OF assms(2-5,7)] by blast
  moreover have "SessionPresent (before @ echo @ after) iqn"
    using assms(6) by (rule SessionPresent_echo)
  ultimately show ?thesis by (simp add: SessionTable_eq pmap_def assms(1))
qed

theorem session_table_shows_live_session_witness:
  "\<exists>table. SessionTable lab_ws background 0 (1, [frame_event, frame_reply]) = (Inr table, 3000000, (2, [])) \<and>
     SessionPresent table '' 192.0.2.30 ''"
proof -
  let ?a = \<open>''[{"initiator_addr":"''\<close> and ?b = \<open>''"}]''\<close>
  have call: "ws_Call lab_ws ''iscsi.global.sessions'' [] background 0 (1, [frame_event, frame_reply]) =
      (Inr (?a @ ''192.0.2.30'' @ ?b), 3000000, (2, []))"
    using lab_ws_call(1) by simp
  show ?thesis
    by (rule session_table_shows_live_session [OF call]) (code_simp+)
qed

text \<open>
  C22 (functional, correlation). A successful call returns the result of a frame whose id is the
  id of its own request; the frames it skipped before carried none or another one.
\<close>

theorem rpc_call_correlates:
  assumes "ws_Call lib method params c t s = (Inr raw, d, s')"
  shows "\<exists>d1 s1 skipped frame resp.
    ws_Write lib \<lparr>rq_id = ws_id lib s + 1, rq_method = method, rq_params = params\<rparr> c t
      (ws_set_id lib (ws_id lib s + 1) s) = (None, d1, s1) \<and>
    ws_reads lib c (t + int d1) s1 (skipped @ [frame]) s' \<and>
    list_all (foreign (ws_id lib s + 1)) skipped \<and>
    decode_reply frame = Inr resp \<and> rp_ID resp = Some (ws_id lib s + 1) \<and> rp_Error resp = None \<and>
    raw = rp_Result resp"
proof -
  let ?i = "ws_id lib s + 1"
  obtain e d1 s1 where wr:
    "ws_Write lib \<lparr>rq_id = ?i, rq_method = method, rq_params = params\<rparr> c t (ws_set_id lib ?i s) = (e, d1, s1)"
    by (rule prod_cases3)
  obtain r d2 s2 where aw:
    "ws_await (Suc (ws_pending lib s1)) lib ?i method c (t + int d1) s1 = (r, d2, s2)"
    by (rule prod_cases3)
  from assms wr have "e = None"
    by (cases e) (simp_all add: ws_Call_def Let_def del: ws_await.simps)
  moreover from this assms wr aw have "r = Inr raw" "s2 = s'"
    by (simp_all add: ws_Call_def Let_def del: ws_await.simps)
  ultimately show ?thesis using ws_await_reply aw wr by metis
qed

theorem rpc_call_correlates_witness:
  \<open>\<exists>skipped frame resp.
    ws_reads lab_ws background 1000000 (2, [frame_event, frame_reply]) (skipped @ [frame]) (2, []) \<and>
    list_all (foreign 2) skipped \<and> decode_reply frame = Inr resp \<and> rp_ID resp = Some 2 \<and>
    rp_Result resp = ''[{"initiator_addr":"192.0.2.30"}]''\<close>
proof -
  let ?w = "(1, [frame_event, frame_reply]) :: int \<times> string list"
  have i: "ws_id lab_ws ?w + 1 = 2" by (simp add: lab_ws_def)
  have wr: "ws_Write lab_ws r c t (ws_set_id lab_ws 2 ?w) = (None, 1000000, (2, [frame_event, frame_reply]))"
    for r c t by (simp add: lab_ws_def)
  from rpc_call_correlates [OF lab_ws_call(1), unfolded i wr] obtain d1 s1 skipped frame resp where
    "(None, 1000000, (2, [frame_event, frame_reply])) = (None :: err option, d1, s1)"
    "ws_reads lab_ws background (0 + int d1) s1 (skipped @ [frame]) (2, [])"
    "list_all (foreign 2) skipped" "decode_reply frame = Inr resp" "rp_ID resp = Some 2"
    \<open>''[{"initiator_addr":"192.0.2.30"}]'' = rp_Result resp\<close>
    by metis
  then show ?thesis by (intro exI [of _ skipped] exI [of _ frame] exI [of _ resp]) auto
qed



end
