(* ===== verification/Operate.thy ===== *)
theory Operate
  imports Lifecycle Inventory Talos TrueNAS
begin

text \<open>
  \<^verbatim>\<open>internal/operate/operate.go\<close>: the assembly layer behind the command line and the HTTP API. It
  looks the node up, builds the backends and runs the lifecycle state machine. The log of an
  operation starts with the outcome of the builder (\<open>EvBuild\<close>) and ends with the release of what
  it opened (\<open>EvClose\<close>).
\<close>

section \<open>Configuration and backends\<close>

record op_config =
  cf_Kubeconfig :: string
  cf_Talosconfig :: string
  cf_ForceBMCOff :: bool
  cf_DrainTimeout :: duration
  cf_StorageTimeout :: duration
  cf_PowerOffTimeout :: duration
  cf_SkipGPUWait :: bool
  cf_ReachableTimeout :: duration
  cf_ReadyTimeout :: duration
  cf_GPUTimeout :: duration
  cf_Poll :: duration

record 'w node_ops =
  no_Controller :: "'w node_controller"
  no_Gater :: "'w node_gater"

text \<open>
  The Talos backend is a \<open>TalosShutdown\<close> that may also be a \<open>TalosReachable\<close>; the type assertion
  of \<open>powerOnTalos\<close> succeeds when \<open>tb_Reachable\<close> is present.
\<close>

record 'w talos_backend =
  tb_Shutdown :: "'w talos_shutdown"
  tb_Reachable :: "'w talos_reachable option"

record 'w backends =
  be_Nodes :: "'w node_ops"
  be_Talos :: "'w talos_backend"
  be_Power :: "'w bmc_adapter"
  be_Storage :: "'w storage_gate option"
  be_Close :: "('w, unit) prim option"

type_synonym 'w builder = "node_spec \<Rightarrow> op_config \<Rightarrow> ('w, err + 'w backends) prim"

section \<open>Lookup and options\<close>

definition operate_Lookup :: "inventory \<Rightarrow> string \<Rightarrow> err + node_spec" where
  "operate_Lookup iv name =
     (case inv_node iv name of None \<Rightarrow> Inl (UnknownNodeError name) | Some node \<Rightarrow> Inr node)"

definition kubeName :: "string \<Rightarrow> node_spec \<Rightarrow> string" where
  "kubeName name node = (if ns_KubeNodeName node \<noteq> [] then ns_KubeNodeName node else name)"

definition ExpectGPU :: "node_spec \<Rightarrow> bool \<Rightarrow> bool" where
  "ExpectGPU node skip \<longleftrightarrow> length (ns_GPUs node) > 0 \<and> \<not> skip"

definition powerOnTalos :: "'w talos_backend \<Rightarrow> 'w talos_reachable option" where
  "powerOnTalos tb = tb_Reachable tb"

definition StorageGateIdentity :: "node_spec \<Rightarrow> string" where
  "StorageGateIdentity node = TrimSpace (ns_ISCSIInitiatorAddr node)"

definition operate_drain_deps :: "'w backends \<Rightarrow> 'w drain_deps" where
  "operate_drain_deps be =
     \<lparr>ds_Nodes = no_Controller (be_Nodes be), ds_Talos = tb_Shutdown (be_Talos be),
      ds_Power = be_Power be, ds_Storage = be_Storage be, ds_Now = None\<rparr>"

definition operate_drain_opts :: "node_spec \<Rightarrow> op_config \<Rightarrow> drain_opts" where
  "operate_drain_opts node cfg =
     \<lparr>ds_TalosEndpoint = ns_TalosEndpoint node, ds_DrainTimeout = cf_DrainTimeout cfg,
      ds_StorageTimeout = cf_StorageTimeout cfg, ds_PowerOffTimeout = cf_PowerOffTimeout cfg,
      ds_PollInterval = cf_Poll cfg, ds_ForceBMCOff = cf_ForceBMCOff cfg\<rparr>"

definition operate_wake_deps :: "'w backends \<Rightarrow> 'w wake_deps" where
  "operate_wake_deps be =
     \<lparr>po_Power = be_Power be, po_Talos = powerOnTalos (be_Talos be),
      po_Nodes = no_Gater (be_Nodes be), po_Now = None\<rparr>"

definition operate_wake_opts :: "node_spec \<Rightarrow> op_config \<Rightarrow> wake_opts" where
  "operate_wake_opts node cfg =
     \<lparr>po_TalosEndpoint = ns_TalosEndpoint node, po_ExpectGPU = ExpectGPU node (cf_SkipGPUWait cfg),
      po_ReachableTimeout = cf_ReachableTimeout cfg, po_ReadyTimeout = cf_ReadyTimeout cfg,
      po_GPUTimeout = cf_GPUTimeout cfg, po_PollInterval = cf_Poll cfg\<rparr>"

section \<open>The real builder\<close>

text \<open>Everything outside the repository that the builder reaches: environment, libraries, drivers.\<close>

record ('w, 'rc, 'tc) platform =
  pf_Getenv :: "string \<Rightarrow> string"
  pf_Kube :: "('w, 'rc) kube_lib"
  pf_RunDrain :: "'w run_drain"
  pf_Talos :: "('w, 'tc) talos_lib"
  pf_WS :: "'w ws_lib"
  pf_Drivers :: "'w drivers"

definition TrueNASEnv :: "(string \<Rightarrow> string) \<Rightarrow> string \<times> string \<times> string" where
  "TrueNASEnv getenv =
     (getenv ''NIGHTWATCH_TRUENAS_HOST'', getenv ''NIGHTWATCH_TRUENAS_USERNAME'',
      getenv ''NIGHTWATCH_TRUENAS_API_KEY'')"

text \<open>The gate of a node: \<open>iscsi.Gate{List: tn.SessionTable}\<close>, bound to the node's identity.\<close>

definition truenas_gate :: "'w ws_lib \<Rightarrow> string \<Rightarrow> 'w storage_gate" where
  "truenas_gate lib gateToken timeout =
     as_prim (WaitClear \<lparr>ig_List = Some (SessionTable lib), ig_Poll = 0\<rparr> gateToken timeout)"

text \<open>\<open>None\<close> is the nil gate; otherwise the gate and the function that closes its connection.\<close>

definition BuildStorageGate ::
  "('w, 'rc, 'tc) platform \<Rightarrow> string \<Rightarrow> ('w, err + ('w storage_gate \<times> ('w, unit) prim) option) prim" where
  "BuildStorageGate pf gateToken =
     (case TrueNASEnv (pf_Getenv pf) of
        (host, user, key) \<Rightarrow>
          if host = [] \<or> user = [] \<or> key = [] then pret (Inr None)
          else if gateToken = [] then
            pret (Inl (Err ''node has no storage gate identity (iscsi_initiator_addr) to match iscsi sessions on''))
          else
            pmap (\<lambda>r. case r of
                Inl e \<Rightarrow> Inl e
              | Inr _ \<Rightarrow> Inr (Some (truenas_gate (pf_WS pf) gateToken, pmap (\<lambda>_. ()) (ws_Close (pf_WS pf)))))
              (truenas_New (pf_WS pf) host user key))"

definition close_storage :: "('w, unit) prim option \<Rightarrow> ('w, unit) prim" where
  "close_storage cl = (case cl of None \<Rightarrow> pret () | Some f \<Rightarrow> f)"

definition k8s_node_ops :: "'w run_drain \<Rightarrow> 'w clientset \<Rightarrow> 'w node_ops" where
  "k8s_node_ops rd cs =
     \<lparr>no_Controller = \<lparr>nc_Cordon = k8s_Cordon cs, nc_Drain = k8s_Drain rd cs\<rparr>,
      no_Gater = \<lparr>ng_IsNodeReady = k8s_IsNodeReady cs, ng_NodeHasGPUCapacity = k8s_NodeHasGPUCapacity cs,
                  ng_IsNodeSchedulable = k8s_IsNodeSchedulable cs, ng_Uncordon = k8s_Uncordon cs\<rparr>\<rparr>"

definition RealBuilder :: "('w, 'rc, 'tc) platform \<Rightarrow> 'w builder" where
  "RealBuilder pf node cfg =
     pbind (BuildStorageGate pf (StorageGateIdentity node)) (\<lambda>st. case st of
         Inl e \<Rightarrow> pret (Inl (wrap ''storage gate: '' e))
       | Inr storage \<Rightarrow>
     (let closeStorage = close_storage (map_option snd storage)
      in pbind (k8s_NewFromKubeconfig (pf_Kube pf) (cf_Kubeconfig cfg)) (\<lambda>kc. case kc of
         Inl e \<Rightarrow> pmap (\<lambda>_. Inl (wrap ''kube client: '' e)) closeStorage
       | Inr cs \<Rightarrow>
     pbind (talos_New (pf_Talos pf) (cf_Talosconfig cfg) []) (\<lambda>tc. case tc of
         Inl e \<Rightarrow> pmap (\<lambda>_. Inl (wrap ''talos client: '' e)) closeStorage
       | Inr mc \<Rightarrow>
     (let b = ns_BMC node
      in case bmc_New (pf_Drivers pf) (bmc_Type b) (bmc_Host b) (bmc_Username b) (bmc_Password b) of
           Inl e \<Rightarrow>
             pbind closeStorage (\<lambda>_. pmap (\<lambda>_. Inl (wrap ''bmc: '' e)) (talos_Close mc))
         | Inr pw \<Rightarrow>
             pret (Inr
               \<lparr>be_Nodes = k8s_node_ops (pf_RunDrain pf) cs,
                be_Talos = \<lparr>tb_Shutdown = talos_Shutdown mc, tb_Reachable = Some (talos_Reachable mc)\<rparr>,
                be_Power = pw,
                be_Storage = map_option fst storage,
                be_Close = Some (pbind (talos_Close mc) (\<lambda>_. closeStorage))\<rparr>))))))"

section \<open>The operations\<close>

definition build_event :: "err + 'w backends \<Rightarrow> event" where
  "build_event r = EvBuild (case r of Inl e \<Rightarrow> Some e | Inr _ \<Rightarrow> None)"

definition run_close :: "('w, unit) prim option \<Rightarrow> ctx \<Rightarrow> 'w lworld \<Rightarrow> 'w lworld" where
  "run_close cl c w = (case cl of None \<Rightarrow> w | Some f \<Rightarrow> snd (invoke (\<lambda>_. EvClose) f c w))"

definition operate_DrainShutdown ::
  "('w, 'rc, 'tc) platform \<Rightarrow> ctx \<Rightarrow> inventory \<Rightarrow> string \<Rightarrow> op_config \<Rightarrow> 'w builder option \<Rightarrow> 'w lworld \<Rightarrow>
   (step list \<times> err option) \<times> 'w lworld" where
  "operate_DrainShutdown pf c iv name cfg build w =
     (case operate_Lookup iv name of
        Inl e \<Rightarrow> (([], Some e), w)
      | Inr node \<Rightarrow>
          (let build = (case build of None \<Rightarrow> RealBuilder pf | Some b \<Rightarrow> b)
           in case invoke build_event (build node cfg) c w of
                (Inl e, w1) \<Rightarrow> (([], Some e), w1)
              | (Inr be, w1) \<Rightarrow>
                  (case DrainShutdown c (kubeName name node) (operate_drain_deps be)
                          (operate_drain_opts node cfg) w1 of
                     (res, w2) \<Rightarrow> (res, run_close (be_Close be) c w2))))"

definition operate_Wake ::
  "('w, 'rc, 'tc) platform \<Rightarrow> ctx \<Rightarrow> inventory \<Rightarrow> string \<Rightarrow> op_config \<Rightarrow> 'w builder option \<Rightarrow> 'w lworld \<Rightarrow>
   (step list \<times> err option) \<times> 'w lworld" where
  "operate_Wake pf c iv name cfg build w =
     (case operate_Lookup iv name of
        Inl e \<Rightarrow> (([], Some e), w)
      | Inr node \<Rightarrow>
          (let build = (case build of None \<Rightarrow> RealBuilder pf | Some b \<Rightarrow> b)
           in case invoke build_event (build node cfg) c w of
                (Inl e, w1) \<Rightarrow> (([], Some e), w1)
              | (Inr be, w1) \<Rightarrow>
                  (case PowerOn c (kubeName name node) (operate_wake_deps be)
                          (operate_wake_opts node cfg) w1 of
                     (res, w2) \<Rightarrow> (res, run_close (be_Close be) c w2))))"

end
