(* ===== verification/Operate_Props.thy ===== *)
theory Operate_Props
  imports Operate Lifecycle_Safety
begin

text \<open>
  Properties of the assembly layer: what an operation logs around the lifecycle run, that it acts on
  the node the inventory names, and that the storage gate it builds reads the target.
\<close>

section \<open>What an operation logs\<close>

definition close_log :: "'w backends \<Rightarrow> event list" where
  "close_log be = (if be_Close be = None then [] else [EvClose])"

lemma w_trace_run_close: "w_trace (run_close cl c w) = w_trace w @ (if cl = None then [] else [EvClose])"
  by (auto simp: run_close_def invoke_def split: option.splits prod.splits)

definition builder_of :: "('w, 'rc, 'tc) platform \<Rightarrow> 'w builder option \<Rightarrow> 'w builder" where
  "builder_of pf build = (case build of None \<Rightarrow> RealBuilder pf | Some b \<Rightarrow> b)"

text \<open>
  The three ways an operation can go: unknown node, failed assembly, lifecycle run. \<open>run\<close> is the
  lifecycle machine on the assembled backends.
\<close>

inductive operate_run ::
  "('w backends \<Rightarrow> node_spec \<Rightarrow> 'w lworld \<Rightarrow> (step list \<times> err option) \<times> 'w lworld) \<Rightarrow> 'w builder \<Rightarrow> ctx \<Rightarrow>
   inventory \<Rightarrow> string \<Rightarrow> op_config \<Rightarrow> 'w lworld \<Rightarrow> step list \<times> err option \<Rightarrow> 'w lworld \<Rightarrow> bool"
  for run build c iv name cfg w where
  unknown: "inv_node iv name = None \<Longrightarrow>
    operate_run run build c iv name cfg w ([], Some (UnknownNodeError name)) w"
| assembly_fails: "inv_node iv name = Some node \<Longrightarrow>
    invoke build_event (build node cfg) c w = (Inl e, w1) \<Longrightarrow>
    operate_run run build c iv name cfg w ([], Some e) w1"
| runs: "inv_node iv name = Some node \<Longrightarrow>
    invoke build_event (build node cfg) c w = (Inr be, w1) \<Longrightarrow> run be node w1 = (res, w2) \<Longrightarrow>
    operate_run run build c iv name cfg w res (run_close (be_Close be) c w2)"

lemma operate_DrainShutdown_run:
  assumes "operate_DrainShutdown pf c iv name cfg build w = (res, w')"
  shows "operate_run
    (\<lambda>be node. DrainShutdown c (kubeName name node) (operate_drain_deps be) (operate_drain_opts node cfg))
    (builder_of pf build) c iv name cfg w res w'"
  using assms
  by (auto simp: operate_DrainShutdown_def operate_Lookup_def builder_of_def [symmetric] Let_def
      split: option.splits sum.splits prod.splits intro: operate_run.intros)

lemma operate_Wake_run:
  assumes "operate_Wake pf c iv name cfg build w = (res, w')"
  shows "operate_run
    (\<lambda>be node. PowerOn c (kubeName name node) (operate_wake_deps be) (operate_wake_opts node cfg))
    (builder_of pf build) c iv name cfg w res w'"
  using assms
  by (auto simp: operate_Wake_def operate_Lookup_def builder_of_def [symmetric] Let_def
      split: option.splits sum.splits prod.splits intro: operate_run.intros)

lemma build_log:
  "invoke build_event b c w = (r, w1) \<Longrightarrow>
   w_trace w1 = w_trace w @ [EvBuild (case r of Inl e \<Rightarrow> Some e | Inr _ \<Rightarrow> None)]"
  by (simp add: w_trace_invoke build_event_def)

text \<open>
  The abstract operation: nothing for an unknown node; only the attempt to assemble when that fails;
  otherwise assembly, a run of the lifecycle specification, release.
\<close>

inductive operate_spec ::
  "bool \<Rightarrow> (event list \<Rightarrow> (string \<times> bool) list \<Rightarrow> bool \<Rightarrow> bool) \<Rightarrow> event list \<Rightarrow> (string \<times> bool) list \<Rightarrow> bool \<Rightarrow> bool"
  for known spec where
  not_in_inventory: "\<not> known \<Longrightarrow> operate_spec known spec [] [] False"
| not_assembled: "known \<Longrightarrow> operate_spec known spec [EvBuild (Some e)] [] False"
| ran: "known \<Longrightarrow> spec evs steps ok \<Longrightarrow> cl \<in> {[], [EvClose]} \<Longrightarrow>
    operate_spec known spec (EvBuild None # evs @ cl) steps ok"

inductive_cases operate_specE: "operate_spec known spec evs steps ok"

lemma operate_run_spec:
  assumes "operate_run run build c iv name cfg w (steps, err) w'"
    and spec: "\<And>be node w1 steps err w2. inv_node iv name = Some node \<Longrightarrow> run be node w1 = ((steps, err), w2) \<Longrightarrow>
      \<exists>evs. w_trace w2 = w_trace w1 @ evs \<and> spec evs (step_verdicts steps) (err = None)"
  shows "\<exists>evs. w_trace w' = w_trace w @ evs \<and>
    operate_spec (inv_node iv name \<noteq> None) spec evs (step_verdicts steps) (err = None)"
  using assms(1)
proof (cases rule: operate_run.cases)
  case unknown
  then show ?thesis by (auto simp: step_verdicts_def intro: operate_spec.not_in_inventory)
next
  case (assembly_fails node e)
  then show ?thesis
    by (auto simp: build_log step_verdicts_def intro: operate_spec.not_assembled)
next
  case (runs node be w1 w2)
  from spec [OF runs(2,4)] obtain evs where "w_trace w2 = w_trace w1 @ evs"
    and "spec evs (step_verdicts steps) (err = None)" by blast
  moreover have "w_trace w1 = w_trace w @ [EvBuild None]" using build_log [OF runs(3)] by simp
  ultimately have "w_trace w' = w_trace w @ EvBuild None # evs @ close_log be"
    using runs(1) by (simp add: w_trace_run_close close_log_def)
  moreover have "operate_spec (inv_node iv name \<noteq> None) spec (EvBuild None # evs @ close_log be)
      (step_verdicts steps) (err = None)"
    using runs(2) \<open>spec evs (step_verdicts steps) (err = None)\<close>
    by (intro operate_spec.ran) (auto simp: close_log_def)
  ultimately show ?thesis by blast
qed



section \<open>The storage gate\<close>

lemma RealBuilder_storage:
  assumes "RealBuilder pf node cfg c t s = (Inr be, d, s')"
  shows "\<exists>storage d1 s1. BuildStorageGate pf (StorageGateIdentity node) c t s = (Inr storage, d1, s1) \<and>
    be_Storage be = map_option fst storage"
  using assms unfolding RealBuilder_def Let_def
  by (elim pbindE) (auto simp: pret_def pmap_def split: sum.splits prod.splits elim!: pbindE)

definition truenas_configured :: "(string \<Rightarrow> string) \<Rightarrow> bool" where
  "truenas_configured getenv =
     (case TrueNASEnv getenv of (host, user, key) \<Rightarrow> host \<noteq> [] \<and> user \<noteq> [] \<and> key \<noteq> [])"

lemma BuildStorageGate_configured:
  assumes "BuildStorageGate pf token c t s = (Inr storage, d, s')" and "truenas_configured (pf_Getenv pf)"
  shows "token \<noteq> [] \<and> map_option fst storage = Some (truenas_gate (pf_WS pf) token)"
  using assms
  by (auto simp: BuildStorageGate_def truenas_configured_def pret_def pmap_def
      split: prod.splits if_splits sum.splits)

lemma truenas_gate_clear:
  assumes "truenas_gate lib token timeout c t s = (None, d, s')"
  shows "\<exists>w' tables table.
    WaitClear \<lparr>ig_List = Some (SessionTable lib), ig_Poll = 0\<rparr> token timeout c
      \<lparr>w_env = s, w_clock = t, w_trace = []\<rparr> = (None, w') \<and>
    w_trace w' = map Inr tables @ [Inr table] \<and> \<not> SessionPresent table token"
proof -
  obtain w' where run: "WaitClear \<lparr>ig_List = Some (SessionTable lib), ig_Poll = 0\<rparr> token timeout c
      \<lparr>w_env = s, w_clock = t, w_trace = []\<rparr> = (None, w')"
    using assms by (auto simp: truenas_gate_def as_prim_def split: prod.splits)
  with WaitClear_clear_inv [OF run] show ?thesis by auto
qed

text \<open>
  C10 (safety, the gate of the real builder). With TrueNAS configured, the real builder yields backends
  only for a node with a storage identity, and always with a gate; that gate reports the volumes
  detached only after a reading of the target's session table in which the identity does not occur.
\<close>

theorem real_gate_reads_target:
  assumes "RealBuilder pf node cfg c t s = (Inr be, d, s')" and "truenas_configured (pf_Getenv pf)"
  shows "StorageGateIdentity node \<noteq> [] \<and>
    (\<exists>gate. be_Storage be = Some gate \<and>
      (\<forall>timeout c1 t1 s1 d1 s2. gate timeout c1 t1 s1 = (None, d1, s2) \<longrightarrow>
        (\<exists>w' tables table.
          WaitClear \<lparr>ig_List = Some (SessionTable (pf_WS pf)), ig_Poll = 0\<rparr> (StorageGateIdentity node)
            timeout c1 \<lparr>w_env = s1, w_clock = t1, w_trace = []\<rparr> = (None, w') \<and>
          w_trace w' = map Inr tables @ [Inr table] \<and> \<not> SessionPresent table (StorageGateIdentity node))))"
proof -
  obtain storage d1 s1 where "BuildStorageGate pf (StorageGateIdentity node) c t s = (Inr storage, d1, s1)"
    and "be_Storage be = map_option fst storage"
    using RealBuilder_storage [OF assms(1)] by blast
  with BuildStorageGate_configured [OF this(1) assms(2)]
  have "StorageGateIdentity node \<noteq> []"
    and "be_Storage be = Some (truenas_gate (pf_WS pf) (StorageGateIdentity node))" by auto
  with truenas_gate_clear show ?thesis by auto
qed

abbreviation no_identity_error :: err where
  "no_identity_error \<equiv> wrap ''storage gate: '' (Err
     ''node has no storage gate identity (iscsi_initiator_addr) to match iscsi sessions on'')"

text \<open>
  With TrueNAS configured and no storage identity for the node, the real builder refuses at once:
  nothing is dialled and no operation starts.
\<close>

lemma missing_identity_run:
  assumes "truenas_configured (pf_Getenv pf)" and "StorageGateIdentity node = []"
    and "inv_node iv name = Some node"
  shows "operate_DrainShutdown pf c iv name cfg None w =
    (([], Some no_identity_error), w\<lparr>w_trace := w_trace w @ [EvBuild (Some no_identity_error)]\<rparr>)"
proof -
  have "BuildStorageGate pf [] =
      pret (Inl (Err ''node has no storage gate identity (iscsi_initiator_addr) to match iscsi sessions on''))"
    using assms(1) by (auto simp: BuildStorageGate_def truenas_configured_def split: prod.splits)
  then show ?thesis
    by (simp add: operate_DrainShutdown_def operate_Lookup_def assms(2,3) RealBuilder_def Let_def
        invoke_def pbind_def pret_def build_event_def)
qed

section \<open>Witnesses\<close>

definition lab_env :: "string \<Rightarrow> string" where
  "lab_env v =
     (if v = ''NIGHTWATCH_TRUENAS_HOST'' then ''nas''
      else if v = ''NIGHTWATCH_TRUENAS_USERNAME'' then ''nightwatch''
      else if v = ''NIGHTWATCH_TRUENAS_API_KEY'' then ''key'' else [])"

definition lab_frame_login :: string where
  \<open>lab_frame_login = ''{"id":1,"result":{"response_type":"SUCCESS"}}''\<close>

definition lab_frame_empty :: string where
  \<open>lab_frame_empty = ''{"id":2,"result":[]}''\<close>

text \<open>A platform whose cluster and machines answer at once, on the WebSocket of \<open>lab_ws\<close>.\<close>

definition quiet :: "'r \<Rightarrow> ('w, 'r) prim" where
  "quiet r c t s = (r, 0, s)"

definition lab_platform_on :: "'w ws_lib \<Rightarrow> ('w, unit, unit) platform" where
  "lab_platform_on ws =
     \<lparr>pf_Getenv = lab_env,
      pf_Kube = \<lparr>kl_ClientConfig = (\<lambda>_. quiet (Inr ())), kl_InClusterConfig = quiet (Inl (Err ''not in cluster'')),
                 kl_NewForConfig = (\<lambda>_. quiet (Inr \<lparr>cs_GetNode = (\<lambda>_. quiet (Inl (Err ''not found''))),
                                                    cs_PatchNode = (\<lambda>_ _. quiet None)\<rparr>))\<rparr>,
      pf_RunDrain = (\<lambda>_ _ _. quiet None),
      pf_Talos = \<lparr>tl_ReadFile = (\<lambda>_. quiet (Inr [])), tl_FromBytes = (\<lambda>_. Inr ()),
                  tl_New = (\<lambda>_ _. quiet (Inr \<lparr>mc_Shutdown = (\<lambda>_ _. quiet None),
                                             mc_Version = (\<lambda>_. quiet None), mc_Close = quiet None\<rparr>))\<rparr>,
      pf_WS = ws,
      pf_Drivers = [''amt'' \<mapsto> (\<lambda>_ _ _.
        \<lparr>bmc_GetPowerState = quiet (ErrorResult (Err ''down'')), bmc_PowerOn = quiet (ErrorResult (Err ''down'')),
         bmc_SoftOff = quiet (ErrorResult (Err ''down'')), bmc_HardOff = quiet (ErrorResult (Err ''down'')),
         bmc_Reset = quiet (ErrorResult (Err ''down''))\<rparr>)]\<rparr>"

definition lab_platform :: "(int \<times> string list, unit, unit) platform" where
  "lab_platform = lab_platform_on lab_ws"

lemmas lab_platform_defs = lab_platform_def lab_platform_on_def

text \<open>The same platform without a storage target, and a builder for the machine of \<open>Lab\<close>.\<close>

definition no_ws :: "'w ws_lib" where
  "no_ws =
     \<lparr>ws_Dial = (\<lambda>_. quiet (Some ErrEOF)), ws_Write = (\<lambda>_. quiet (Some ErrEOF)), ws_Read = quiet (Inl ErrEOF),
      ws_Close = quiet None, ws_id = (\<lambda>_. 0), ws_set_id = (\<lambda>_ s. s), ws_pending = (\<lambda>_. 0)\<rparr>"

definition lab_backends :: "lab backends" where
  "lab_backends =
     \<lparr>be_Nodes = \<lparr>no_Controller = lab_nodes, no_Gater = lab_gater\<rparr>,
      be_Talos = \<lparr>tb_Shutdown = lab_shutdown, tb_Reachable = Some lab_reachable\<rparr>,
      be_Power = lab_adapter, be_Storage = Some lab_gate, be_Close = Some (quiet ())\<rparr>"

definition lab_builder :: "lab builder" where
  "lab_builder node cfg = quiet (Inr lab_backends)"

lemma lab_decode_login:
  \<open>decode_reply lab_frame_login =
     Inr \<lparr>rp_ID = Some 1, rp_Result = ''{"response_type":"SUCCESS"}'', rp_Error = None\<rparr>\<close>
  \<open>decode_reply lab_frame_empty = Inr \<lparr>rp_ID = Some 2, rp_Result = ''[]'', rp_Error = None\<rparr>\<close>
  \<open>json_Unmarshal ''{"response_type":"SUCCESS"}'' = Inr (JObj [(''response_type'', ''"SUCCESS"'', JStr ''SUCCESS'')])\<close>
  by code_simp+

lemma lab_env_configured: "truenas_configured lab_env"
  by (simp add: truenas_configured_def TrueNASEnv_def lab_env_def)

definition lab_cfg :: op_config where
  "lab_cfg = \<lparr>cf_Kubeconfig = [], cf_Talosconfig = ''talos'', cf_ForceBMCOff = False, cf_DrainTimeout = Second,
     cf_StorageTimeout = Second, cf_PowerOffTimeout = Second, cf_SkipGPUWait = False, cf_ReachableTimeout = Second,
     cf_ReadyTimeout = Second, cf_GPUTimeout = Second, cf_Poll = Second\<rparr>"

lemma lab_identity: "StorageGateIdentity lab_node = ''192.0.2.30''"
  by code_simp

lemma lab_login:
  "truenas_New lab_ws ''nas'' ''nightwatch'' ''key'' background 0 (0, lab_frame_login # fs) = (Inr (), 3000000, (1, fs))"
proof -
  have \<open>ws_Call lab_ws ''auth.login_ex'' p background 1000000 (0, lab_frame_login # fs) =
      (Inr ''{"response_type":"SUCCESS"}'', 2000000, (1, fs))\<close> for p
    by (simp add: ws_Call_def Let_def lab_ws_def lab_decode_login)
  then have login: "truenas_login lab_ws ''nightwatch'' ''key'' background 1000000 (0, lab_frame_login # fs) =
      (None, 2000000, (1, fs))"
    by (simp add: truenas_login_def pmap_def lab_decode_login struct_members_def field_values_def EqualFold_def)
  have dial: "truenas_dial lab_ws host c t s = (None, 1000000, s)" for host c t s
    by (simp add: truenas_dial_def pmap_def Let_def lab_ws_def)
  show ?thesis by (simp add: truenas_New_def pbind_def dial login pret_def)
qed

lemma lab_builds:
  "\<exists>be. RealBuilder lab_platform lab_node lab_cfg background 0 (0, lab_frame_login # fs) = (Inr be, 3000000, (1, fs))"
proof -
  have env: "TrueNASEnv lab_env = (''nas'', ''nightwatch'', ''key'')"
    by (simp add: TrueNASEnv_def lab_env_def)
  let ?gate = "BuildStorageGate lab_platform (StorageGateIdentity lab_node) background 0 (0, lab_frame_login # fs)"
  have "pf_Getenv lab_platform = lab_env" "pf_WS lab_platform = lab_ws" by (simp_all add: lab_platform_defs)
  then have "\<exists>st. ?gate = (Inr (Some st), 3000000, (1, fs))"
    by (auto simp: BuildStorageGate_def env lab_identity pmap_def lab_login)
  then obtain st where gate: "?gate = (Inr (Some st), 3000000, (1, fs))" by blast
  have "k8s_NewFromKubeconfig (pf_Kube lab_platform) p c t s =
      (Inr \<lparr>cs_GetNode = (\<lambda>_. quiet (Inl (Err ''not found''))), cs_PatchNode = (\<lambda>_ _. quiet None)\<rparr>, 0, s)" for p c t s
    by (simp add: k8s_NewFromKubeconfig_def k8s_restConfig_def pbind_def pmap_def pret_def quiet_def lab_platform_defs)
  moreover have "\<exists>mc. \<forall>p c t s. talos_New (pf_Talos lab_platform) p [] c t s = (Inr mc, 0, s)"
    by (simp add: talos_New_def talos_loadConfig_def pbind_def pmap_def pret_def quiet_def lab_platform_defs)
  then obtain mc where "\<And>p c t s. talos_New (pf_Talos lab_platform) p [] c t s = (Inr mc, 0, s)" by blast
  moreover have "\<exists>a. \<forall>h u p. bmc_New (pf_Drivers lab_platform) (bmc_Type (ns_BMC lab_node)) h u p = Inr a"
    by (simp add: bmc_New_def lab_platform_defs lab_node_def)
  then obtain a where "\<And>h u p. bmc_New (pf_Drivers lab_platform) (bmc_Type (ns_BMC lab_node)) h u p = Inr a" by blast
  ultimately show ?thesis by (simp add: RealBuilder_def pbind_def gate Let_def pret_def)
qed

theorem real_gate_reads_target_witness:
  "\<exists>be gate. RealBuilder lab_platform lab_node lab_cfg background 0 (0, [lab_frame_login]) =
      (Inr be, 3000000, (1, [])) \<and> be_Storage be = Some gate \<and> StorageGateIdentity lab_node \<noteq> []"
proof -
  obtain be where run: "RealBuilder lab_platform lab_node lab_cfg background 0 (0, [lab_frame_login]) =
      (Inr be, 3000000, (1, []))" using lab_builds by blast
  have "truenas_configured (pf_Getenv lab_platform)" using lab_env_configured by (simp add: lab_platform_defs)
  from real_gate_reads_target [OF run this] run show ?thesis by blast
qed

end
