(* ===== verification/Api.thy ===== *)
theory Api
  imports Operate
begin

text \<open>
  \<^verbatim>\<open>internal/api\<close>: the HTTP trigger API: the per-node actuator lock, bearer-token authentication,
  the routes and their handlers. A handler is a function of the request, of the locks held at that
  moment and of the world; it returns its response. The locale \<open>try_lock\<close> is the contract of the
  lock that the handlers rely on, interpreted on the map of \<^verbatim>\<open>actuator_lock.go\<close>.
\<close>

section \<open>The actuator lock\<close>

text \<open>\<open>actuatorLocks\<close>: the keys of \<open>inFlight\<close>; a nil map and an empty one behave alike.\<close>

record actuator_locks =
  al_inFlight :: "string list"

definition no_locks :: actuator_locks where
  "no_locks = \<lparr>al_inFlight = []\<rparr>"

definition tryAcquire :: "string \<Rightarrow> actuator_locks \<Rightarrow> actuator_locks option" where
  "tryAcquire node l =
     (if node \<in> set (al_inFlight l) then None else Some (l\<lparr>al_inFlight := node # al_inFlight l\<rparr>))"

definition release :: "string \<Rightarrow> actuator_locks \<Rightarrow> actuator_locks" where
  "release node l = l\<lparr>al_inFlight := removeAll node (al_inFlight l)\<rparr>"

definition al_held :: "actuator_locks \<Rightarrow> string set" where
  "al_held l = set (al_inFlight l)"

locale try_lock =
  fixes acq :: "'k \<Rightarrow> 'l \<Rightarrow> 'l option" and rel :: "'k \<Rightarrow> 'l \<Rightarrow> 'l" and held :: "'l \<Rightarrow> 'k set"
  assumes try_Some: "acq k l = Some l' \<Longrightarrow> k \<notin> held l \<and> held l' = insert k (held l)"
    and try_None: "acq k l = None \<Longrightarrow> k \<in> held l"
    and rel_held: "held (rel k l) = held l - {k}"
begin

lemma try_None_iff: "acq k l = None \<longleftrightarrow> k \<in> held l"
  using try_Some try_None by (cases "acq k l") auto

lemma acquire_release: "acq k l = Some l' \<Longrightarrow> held (rel k l') = held l"
  using try_Some [of k l l'] by (simp add: rel_held)

lemma exclusive: "acq k l = Some l' \<Longrightarrow> acq k l' = None"
  using try_Some [of k l l'] by (simp add: try_None_iff)

lemma independent: "acq k l = Some l' \<Longrightarrow> j \<noteq> k \<Longrightarrow> (acq j l' = None) = (acq j l = None)"
  using try_Some [of k l l'] by (simp add: try_None_iff)

end

interpretation actuator: try_lock tryAcquire release al_held
  by unfold_locales (auto simp: tryAcquire_def release_def al_held_def split: if_splits)

section \<open>Requests and responses\<close>

text \<open>
  The parts of a request the handlers read: method, path (its segments, decoded), the first
  \<open>Authorization\<close> header, \<open>ContentLength\<close> and the body (\<open>None\<close> is nil).
\<close>

record http_request =
  hr_Method :: string
  hr_Path :: "string list"
  hr_Authorization :: string
  hr_ContentLength :: int
  hr_Body :: "string option"

datatype resp_body =
    HealthBody
  | ErrorBody string
  | OpBody bool string "step list" string
  | StatusBody string string string "bool option"
  | MuxBody

record response =
  rs_Code :: nat
  rs_Body :: resp_body

definition reply :: "nat \<Rightarrow> resp_body \<Rightarrow> response" where
  "reply code body = \<lparr>rs_Code = code, rs_Body = body\<rparr>"

record 'w handler =
  h_Inv :: inventory
  h_Token :: string
  h_Builder :: "'w builder option"
  h_Kubeconfig :: string
  h_Talosconfig :: string
  h_StatusTimeout :: duration
  h_reachable :: "(string \<Rightarrow> ('w, err + bool) prim) option"

section \<open>Defaults\<close>

definition defaultDrainTimeout :: duration where "defaultDrainTimeout = 5 * Minute"
definition defaultStorageTimeout :: duration where "defaultStorageTimeout = 2 * Minute"
definition defaultPowerOffTimeout :: duration where "defaultPowerOffTimeout = 5 * Minute"
definition defaultReachableTimeout :: duration where "defaultReachableTimeout = 5 * Minute"
definition defaultReadyTimeout :: duration where "defaultReadyTimeout = 5 * Minute"
definition defaultGPUTimeout :: duration where "defaultGPUTimeout = 3 * Minute"
definition defaultPoll :: duration where "defaultPoll = 5 * Second"
definition defaultStatusTimeout :: duration where "defaultStatusTimeout = 10 * Second"

definition boolOr :: "bool option \<Rightarrow> bool \<Rightarrow> bool" where
  "boolOr p dflt = (case p of None \<Rightarrow> dflt | Some b \<Rightarrow> b)"

section \<open>Bodies\<close>

text \<open>
  \<open>decodeBody\<close> into a struct of \<open>*bool\<close> fields, with \<open>DisallowUnknownFields\<close>: \<open>Inl\<close> is the 400
  response. Only the first JSON value of the body counts; a body of white space is as good as none.
\<close>

definition decode_flags :: "string list \<Rightarrow> json \<Rightarrow> err + (string \<Rightarrow> bool option)" where
  "decode_flags names v =
     (case struct_members v of
        Inl e \<Rightarrow> Inl e
      | Inr ms \<Rightarrow>
          (case find (\<lambda>(k, _, _). \<not> list_ex (EqualFold k) names) ms of
             Some (k, _, _) \<Rightarrow> Inl (Err (''json: unknown field '' @ Quote k))
           | None \<Rightarrow>
               if list_ex (\<lambda>n. isl (decode_bool_ptr None (field_values n ms))) names
               then Inl type_error
               else Inr (\<lambda>n. if n \<in> set names then projr (decode_bool_ptr None (field_values n ms)) else None)))"

definition decodeBody :: "string list \<Rightarrow> http_request \<Rightarrow> response + (string \<Rightarrow> bool option)" where
  "decodeBody names r =
     (case hr_Body r of
        None \<Rightarrow> Inr (\<lambda>_. None)
      | Some body \<Rightarrow>
          if hr_ContentLength r = 0 then Inr (\<lambda>_. None)
          else
            (case (case json_Decode body of Inl e \<Rightarrow> Inl e | Inr v \<Rightarrow> decode_flags names v) of
               Inr flags \<Rightarrow> Inr flags
             | Inl e \<Rightarrow>
                 if errors_Is e ErrEOF then Inr (\<lambda>_. None)
                 else Inl (reply 400 (ErrorBody (''invalid request body: '' @ Error e)))))"

section \<open>Results\<close>

definition writeDryRun :: "'w handler \<Rightarrow> string \<Rightarrow> response" where
  "writeDryRun h node =
     (case operate_Lookup (h_Inv h) node of
        Inl e \<Rightarrow> reply 404 (ErrorBody (Error e))
      | Inr _ \<Rightarrow> reply 200 (OpBody True node [] []))"

definition writeActuatorConflict :: "string \<Rightarrow> response" where
  "writeActuatorConflict node =
     reply 409 (OpBody False node []
       (''node '' @ Quote node @ '' already has an actuator operation in progress''))"

definition writeOpResult :: "string \<Rightarrow> step list \<Rightarrow> err option \<Rightarrow> response" where
  "writeOpResult node steps e =
     (case e of
        None \<Rightarrow> reply 200 (OpBody True node steps [])
      | Some e \<Rightarrow>
          (case as_UnknownNodeError e of
             Some _ \<Rightarrow> reply 404 (ErrorBody (Error e))
           | None \<Rightarrow>
               (let code = (if length steps > 0 then 409 else 500)
                in reply code (OpBody False node steps (Error e)))))"

section \<open>Handlers\<close>

definition drain_config :: "'w handler \<Rightarrow> (string \<Rightarrow> bool option) \<Rightarrow> op_config" where
  "drain_config h flags =
     \<lparr>cf_Kubeconfig = h_Kubeconfig h, cf_Talosconfig = h_Talosconfig h,
      cf_ForceBMCOff = boolOr (flags ''forceBmcOff'') False,
      cf_DrainTimeout = defaultDrainTimeout, cf_StorageTimeout = defaultStorageTimeout,
      cf_PowerOffTimeout = defaultPowerOffTimeout, cf_SkipGPUWait = False,
      cf_ReachableTimeout = 0, cf_ReadyTimeout = 0, cf_GPUTimeout = 0, cf_Poll = defaultPoll\<rparr>"

definition wake_config :: "'w handler \<Rightarrow> (string \<Rightarrow> bool option) \<Rightarrow> op_config" where
  "wake_config h flags =
     \<lparr>cf_Kubeconfig = h_Kubeconfig h, cf_Talosconfig = h_Talosconfig h, cf_ForceBMCOff = False,
      cf_DrainTimeout = 0, cf_StorageTimeout = 0, cf_PowerOffTimeout = 0,
      cf_SkipGPUWait = boolOr (flags ''skipGpuWait'') False,
      cf_ReachableTimeout = defaultReachableTimeout, cf_ReadyTimeout = defaultReadyTimeout,
      cf_GPUTimeout = defaultGPUTimeout, cf_Poll = defaultPoll\<rparr>"

text \<open>
  The part both handlers share: \<open>run\<close> is the operation on the decoded flags. The lock is taken just
  before it and released by the deferred call when it has returned.
\<close>

definition locked_op ::
  "'w handler \<Rightarrow> string list \<Rightarrow> ((string \<Rightarrow> bool option) \<Rightarrow> 'w lworld \<Rightarrow> (step list \<times> err option) \<times> 'w lworld) \<Rightarrow>
   string \<Rightarrow> http_request \<Rightarrow> actuator_locks \<Rightarrow> 'w lworld \<Rightarrow> response \<times> actuator_locks \<times> 'w lworld" where
  "locked_op h names run node r l w =
     (case decodeBody names r of
        Inl bad \<Rightarrow> (bad, l, w)
      | Inr flags \<Rightarrow>
          if boolOr (flags ''dryRun'') False then (writeDryRun h node, l, w)
          else
            (case tryAcquire node l of
               None \<Rightarrow> (writeActuatorConflict node, l, w)
             | Some l' \<Rightarrow>
                 (case run flags w of
                    ((steps, e), w') \<Rightarrow> (writeOpResult node steps e, release node l', w'))))"

definition handler_builder :: "('w, 'rc, 'tc) platform \<Rightarrow> 'w handler \<Rightarrow> 'w builder" where
  "handler_builder pf h = (case h_Builder h of Some b \<Rightarrow> b | None \<Rightarrow> RealBuilder pf)"

definition api_drainShutdown ::
  "('w, 'rc, 'tc) platform \<Rightarrow> 'w handler \<Rightarrow> ctx \<Rightarrow> string \<Rightarrow> http_request \<Rightarrow> actuator_locks \<Rightarrow> 'w lworld \<Rightarrow>
   response \<times> actuator_locks \<times> 'w lworld" where
  "api_drainShutdown pf h c node =
     locked_op h [''forceBmcOff'', ''dryRun'']
       (\<lambda>flags. operate_DrainShutdown pf c (h_Inv h) node (drain_config h flags) (Some (handler_builder pf h))) node"

definition api_wake ::
  "('w, 'rc, 'tc) platform \<Rightarrow> 'w handler \<Rightarrow> ctx \<Rightarrow> string \<Rightarrow> http_request \<Rightarrow> actuator_locks \<Rightarrow> 'w lworld \<Rightarrow>
   response \<times> actuator_locks \<times> 'w lworld" where
  "api_wake pf h c node =
     locked_op h [''skipGpuWait'', ''dryRun'']
       (\<lambda>flags. operate_Wake pf c (h_Inv h) node (wake_config h flags) (Some (handler_builder pf h))) node"

text \<open>The operations make the same choice for a builder that is nil.\<close>

lemma handler_builder_default [simp]:
  "operate_DrainShutdown pf c iv node cfg (Some (handler_builder pf h)) = operate_DrainShutdown pf c iv node cfg (h_Builder h)"
  "operate_Wake pf c iv node cfg (Some (handler_builder pf h)) = operate_Wake pf c iv node cfg (h_Builder h)"
  by (cases "h_Builder h"; simp add: fun_eq_iff operate_DrainShutdown_def operate_Wake_def handler_builder_def
      cong: option.case_cong sum.case_cong)+

definition status_bmc ::
  "('w, 'rc, 'tc) platform \<Rightarrow> node_spec \<Rightarrow> ctx \<Rightarrow> 'w lworld \<Rightarrow> (string \<times> string) \<times> 'w lworld" where
  "status_bmc pf spec c w =
     (let b = ns_BMC spec
      in case bmc_New (pf_Drivers pf) (bmc_Type b) (bmc_Host b) (bmc_Username b) (bmc_Password b) of
           Inl berr \<Rightarrow> ((bmc_power_str BmcUnknown, Error berr), w)
         | Inr client \<Rightarrow>
             (case invoke EvGetPowerState (bmc_GetPowerState client) c w of
                (res, w1) \<Rightarrow>
                  if res_OK res then ((bmc_power_str (res_PowerState res), []), w1)
                  else ((bmc_power_str BmcUnknown, res_Error res), w1)))"

definition api_status ::
  "('w, 'rc, 'tc) platform \<Rightarrow> 'w handler \<Rightarrow> ctx \<Rightarrow> string \<Rightarrow> 'w lworld \<Rightarrow> response \<times> 'w lworld" where
  "api_status pf h c node w =
     (case operate_Lookup (h_Inv h) node of
        Inl e \<Rightarrow> (reply 404 (ErrorBody (Error e)), w)
      | Inr spec \<Rightarrow>
          (let timeout = (if h_StatusTimeout h \<le> 0 then defaultStatusTimeout else h_StatusTimeout h);
               c' = WithTimeout c (w_clock w) timeout
           in case status_bmc pf spec c' w of
                ((pw, berr), w1) \<Rightarrow>
                  (case h_reachable h of
                     None \<Rightarrow> (reply 200 (StatusBody node pw berr None), w1)
                   | Some probe \<Rightarrow>
                       (case invoke (\<lambda>r. EvReachable (ns_TalosEndpoint spec) (r = Inr True))
                               (probe (ns_TalosEndpoint spec)) c' w1 of
                          (Inr ok, w2) \<Rightarrow> (reply 200 (StatusBody node pw berr (Some ok)), w2)
                        | (Inl _, w2) \<Rightarrow> (reply 200 (StatusBody node pw berr None), w2)))))"

section \<open>Authentication and routes\<close>

text \<open>\<open>ConstantTimeCompare\<close> is equality; that it takes the same time everywhere is not modelled.\<close>

definition auth_ok :: "'w handler \<Rightarrow> http_request \<Rightarrow> bool" where
  "auth_ok h r =
     (let prefix = ''Bearer ''; got = hr_Authorization r
      in \<not> (length got \<le> length prefix \<or> take (length prefix) got \<noteq> prefix \<or>
            drop (length prefix) got \<noteq> h_Token h))"

definition unauthorized :: response where
  "unauthorized = reply 401 (ErrorBody ''unauthorized'')"

text \<open>
  \<open>Routes\<close>: the four patterns of the mux. \<open>GET\<close> patterns serve \<open>HEAD\<close> too. A path that matches with
  another method is answered 405 by the mux, any other path 404; the redirect of a path that is not
  in clean form (an empty segment, a dot) is not modelled.
\<close>

definition api_Routes ::
  "('w, 'rc, 'tc) platform \<Rightarrow> 'w handler \<Rightarrow> ctx \<Rightarrow> http_request \<Rightarrow> actuator_locks \<Rightarrow> 'w lworld \<Rightarrow>
   response \<times> actuator_locks \<times> 'w lworld" where
  "api_Routes pf h c r l w =
     (let get = (hr_Method r = ''GET'' \<or> hr_Method r = ''HEAD'');
          post = (hr_Method r = ''POST'');
          guarded = (\<lambda>out. if auth_ok h r then out else (unauthorized, l, w))
      in if hr_Path r = [''healthz''] then
           (if get then (reply 200 HealthBody, l, w) else (reply 405 MuxBody, l, w))
         else
           (case hr_Path r of
              [a, b, node, verb] \<Rightarrow>
                if a = ''v1'' \<and> b = ''nodes'' \<and> node \<noteq> [] then
                  (if verb = ''drain-shutdown'' then
                     (if post then guarded (api_drainShutdown pf h c node r l w) else (reply 405 MuxBody, l, w))
                   else if verb = ''wake'' then
                     (if post then guarded (api_wake pf h c node r l w) else (reply 405 MuxBody, l, w))
                   else if verb = ''status'' then
                     (if get then guarded (case api_status pf h c node w of (resp, w') \<Rightarrow> (resp, l, w'))
                      else (reply 405 MuxBody, l, w))
                   else (reply 404 MuxBody, l, w))
                else (reply 404 MuxBody, l, w)
            | _ \<Rightarrow> (reply 404 MuxBody, l, w)))"

section \<open>Serving\<close>

record serve_config =
  sc_Listen :: string
  sc_Token :: string
  sc_Kubeconfig :: string
  sc_Talosconfig :: string

definition WriteTimeout :: duration where "WriteTimeout = 20 * Minute"

definition talosReachable ::
  "('w, 'tc) talos_lib \<Rightarrow> string \<Rightarrow> (string \<Rightarrow> ('w, err + bool) prim) option" where
  "talosReachable lib talosconfig =
     (if talosconfig = [] then None
      else Some (\<lambda>endpoint.
        pbind (talos_New lib talosconfig []) (\<lambda>r. case r of
            Inl e \<Rightarrow> pret (Inl e)
          | Inr tc \<Rightarrow>
              pbind (talos_Reachable tc endpoint) (\<lambda>ok. pmap (\<lambda>_. Inr ok) (talos_Close tc)))))"

text \<open>
  The start of \<open>Serve\<close>: the handler it serves, or the refusal. The theory \<open>Serve\<close> has the rest.
\<close>

definition Serve_handler ::
  "('w, 'rc, 'tc) platform \<Rightarrow> inventory \<Rightarrow> serve_config \<Rightarrow> err + 'w handler" where
  "Serve_handler pf iv cfg =
     (if sc_Token cfg = [] then
        Inl (Err ''NIGHTWATCH_API_TOKEN is unset; refusing to start an unauthenticated trigger API'')
      else
        Inr \<lparr>h_Inv = iv, h_Token = sc_Token cfg, h_Builder = None, h_Kubeconfig = sc_Kubeconfig cfg,
             h_Talosconfig = sc_Talosconfig cfg, h_StatusTimeout = 0,
             h_reachable = talosReachable (pf_Talos pf) (sc_Talosconfig cfg)\<rparr>)"

end
