(* ===== verification/Api_Props.thy ===== *)
theory Api_Props
  imports Api Operate_Props Lifecycle_Time
begin

text \<open>
  Properties of the HTTP API: authentication, what each status code means, that dry runs and status
  reads act on nothing, mutual exclusion per node, and that an operation with the default time-outs
  fits the server's write time-out.
\<close>

section \<open>Authentication\<close>

lemma auth_ok_iff: "auth_ok h r \<longleftrightarrow> hr_Authorization r = ''Bearer '' @ h_Token h \<and> h_Token h \<noteq> []"
proof -
  have "(length p < length s \<and> take (length p) s = p \<and> drop (length p) s = tok) = (s = p @ tok \<and> tok \<noteq> [])"
    for p s tok :: string
    by (metis append_take_drop_id append_eq_conv_conj length_append less_add_same_cancel1 length_greater_0_conv)
  from this [of "''Bearer ''" "hr_Authorization r" "h_Token h"] show ?thesis
    unfolding auth_ok_def Let_def de_Morgan_disj not_le not_not .
qed

lemma Serve_handler_token: "Serve_handler pf iv cfg = Inr h \<Longrightarrow> h_Token h = sc_Token cfg \<and> h_Token h \<noteq> []"
  by (auto simp: Serve_handler_def split: if_splits)

lemma api_Routes_unauthorized:
  "\<not> auth_ok h r \<Longrightarrow> snd (api_Routes pf h c r l w) = (l, w) \<and> rs_Code (fst (api_Routes pf h c r l w)) \<in> {200, 401, 404, 405} \<and>
   (rs_Code (fst (api_Routes pf h c r l w)) = 200 \<longrightarrow> hr_Path r = [''healthz''])"
  by (simp add: api_Routes_def Let_def unauthorized_def reply_def split: list.splits)

text \<open>
  C17 (safety, authentication). A server that starts at all has a token. A request that does not carry
  exactly \<open>Bearer <token>\<close> changes nothing, whatever its path and method: no backend is called, no
  lock is taken, and only the health check answers 200.
\<close>

theorem api_fails_closed:
  assumes "Serve_handler pf iv cfg = Inr h" and "hr_Authorization r \<noteq> ''Bearer '' @ sc_Token cfg"
  shows "sc_Token cfg \<noteq> [] \<and> snd (api_Routes pf h c r l w) = (l, w) \<and>
    (rs_Code (fst (api_Routes pf h c r l w)) = 200 \<longrightarrow> hr_Path r = [''healthz''])"
proof -
  have "h_Token h = sc_Token cfg \<and> h_Token h \<noteq> []" using Serve_handler_token assms(1) by blast
  moreover from this assms(2) have "\<not> auth_ok h r" by (auto simp: auth_ok_iff)
  ultimately show ?thesis using api_Routes_unauthorized [of h r pf c l w] by metis
qed

definition lab_serve :: serve_config where
  "lab_serve = \<lparr>sc_Listen = '':8080'', sc_Token = ''secret'', sc_Kubeconfig = [], sc_Talosconfig = []\<rparr>"

definition lab_request :: "string \<Rightarrow> string \<Rightarrow> http_request" where
  "lab_request verb auth = \<lparr>hr_Method = ''POST'', hr_Path = [''v1'', ''nodes'', ''node-1'', verb],
     hr_Authorization = auth, hr_ContentLength = 0, hr_Body = None\<rparr>"

theorem api_fails_closed_witness:
  "\<exists>h. Serve_handler lab_platform lab_inv lab_serve = Inr h \<and>
     snd (api_Routes lab_platform h background (lab_request ''drain-shutdown'' ''Bearer guess'') no_locks
       \<lparr>w_env = (0, []), w_clock = 0, w_trace = []\<rparr>) = (no_locks, \<lparr>w_env = (0, []), w_clock = 0, w_trace = []\<rparr>)"
proof -
  obtain h where h: "Serve_handler lab_platform lab_inv lab_serve = Inr h"
    by (simp add: Serve_handler_def lab_serve_def)
  have "hr_Authorization (lab_request ''drain-shutdown'' ''Bearer guess'') \<noteq> ''Bearer '' @ sc_Token lab_serve"
    by (simp add: lab_request_def lab_serve_def)
  from api_fails_closed [OF h this] h show ?thesis by blast
qed

section \<open>Status codes\<close>

text \<open>What the lifecycle guarantees of the steps, carried to the operations.\<close>

definition steps_sound :: "step list \<Rightarrow> err option \<Rightarrow> bool" where
  "steps_sound steps err \<longleftrightarrow> steps \<noteq> [] \<and> (err = None) = step_Succeeded (last steps)"

lemma operate_run_outcome:
  assumes "operate_run run build c iv name cfg w (steps, err) w'"
    and "\<And>be node w1 steps err w2. run be node w1 = ((steps, err), w2) \<Longrightarrow> steps_sound steps err"
  shows "inv_node iv name = None \<and> steps = [] \<and> err = Some (UnknownNodeError name) \<or>
    inv_node iv name \<noteq> None \<and> (steps = [] \<and> err \<noteq> None \<or> steps_sound steps err)"
  using assms by (cases rule: operate_run.cases) auto

lemma operate_DrainShutdown_outcome:
  assumes "operate_DrainShutdown pf c iv name cfg build w = ((steps, err), w')"
  shows "inv_node iv name = None \<and> steps = [] \<and> err = Some (UnknownNodeError name) \<or>
    inv_node iv name \<noteq> None \<and> (steps = [] \<and> err \<noteq> None \<or> steps_sound steps err)"
  by (rule operate_run_outcome [OF operate_DrainShutdown_run [OF assms]])
     (auto simp: steps_sound_def dest!: DrainShutdown_steps)

lemma operate_Wake_outcome:
  assumes "operate_Wake pf c iv name cfg build w = ((steps, err), w')"
  shows "inv_node iv name = None \<and> steps = [] \<and> err = Some (UnknownNodeError name) \<or>
    inv_node iv name \<noteq> None \<and> (steps = [] \<and> err \<noteq> None \<or> steps_sound steps err)"
  by (rule operate_run_outcome [OF operate_Wake_run [OF assms]])
     (auto simp: steps_sound_def dest!: PowerOn_steps)

lemma writeOpResult_code:
  assumes "inv_node iv node = None \<and> steps = [] \<and> err = Some (UnknownNodeError node) \<or>
    inv_node iv node \<noteq> None \<and> (steps = [] \<and> err \<noteq> None \<or> steps_sound steps err)"
    and "\<And>e. inv_node iv node \<noteq> None \<Longrightarrow> err = Some e \<Longrightarrow> as_UnknownNodeError e = None"
  shows "rs_Code (writeOpResult node steps err) =
    (if inv_node iv node = None then 404
     else if err = None then 200
     else if steps = [] then 500 else 409)"
  using assms by (auto simp: writeOpResult_def reply_def Let_def split: option.splits)

lemma lab_no_identity:
  "truenas_configured (pf_Getenv lab_platform)" "StorageGateIdentity (lab_node\<lparr>ns_ISCSIInitiatorAddr := '' ''\<rparr>) = []"
  using lab_env_configured by (simp add: lab_platform_defs) code_simp

section \<open>Locks\<close>

lemma locked_op_held:
  "locked_op h names run node r l w = (resp, l', w') \<Longrightarrow> al_held l' = al_held l"
  by (auto simp: locked_op_def split: sum.splits if_splits option.splits prod.splits
      dest: actuator.acquire_release)

lemma api_Routes_locks:
  assumes "api_Routes pf h c r l w = (resp, l', w')"
  shows "l' = l \<or> (\<exists>names run node. locked_op h names run node r l w = (resp, l', w'))"
proof -
  have drain: "\<exists>names run node. locked_op h names run node r l w = (resp, l', w')"
    if "api_drainShutdown pf h c node r l w = (resp, l', w')" for node
    using that by (auto simp: api_drainShutdown_def)
  have wake: "\<exists>names run node. locked_op h names run node r l w = (resp, l', w')"
    if "api_wake pf h c node r l w = (resp, l', w')" for node
    using that by (auto simp: api_wake_def)
  from assms show ?thesis unfolding api_Routes_def Let_def
    using drain wake by (simp split: if_splits list.splits prod.splits; blast)
qed

text \<open>
  C19 (invariant). Every request leaves the locks as it found them: whatever the operation did and
  however it ended, its node can be operated on again.
\<close>

theorem requests_release_their_lock:
  "case api_Routes pf h c r l w of (resp, l', w') \<Rightarrow> al_held l' = al_held l"
proof -
  obtain resp l' w' where out: "api_Routes pf h c r l w = (resp, l', w')" by (rule prod_cases3)
  with api_Routes_locks [OF out] locked_op_held show ?thesis by fastforce
qed

text \<open>
  Requests in flight. \<open>Start\<close> and \<open>Finish\<close> are the two ends of an operation, \<open>Refuse\<close> the answer 409
  to a request for a busy node; between them requests of other goroutines take their own steps.
\<close>

record serve_state =
  ss_locks :: actuator_locks
  ss_running :: "(nat \<times> string) list"

datatype serve_act = Start nat string | Refuse nat string | Finish nat string

inductive serve_step :: "serve_state \<Rightarrow> serve_act \<Rightarrow> serve_state \<Rightarrow> bool" where
  start: "tryAcquire n (ss_locks s) = Some l \<Longrightarrow> i \<notin> fst ` set (ss_running s) \<Longrightarrow>
    serve_step s (Start i n) \<lparr>ss_locks = l, ss_running = (i, n) # ss_running s\<rparr>"
| refuse: "tryAcquire n (ss_locks s) = None \<Longrightarrow> serve_step s (Refuse i n) s"
| finish: "(i, n) \<in> set (ss_running s) \<Longrightarrow>
    serve_step s (Finish i n)
      \<lparr>ss_locks = release n (ss_locks s), ss_running = remove1 (i, n) (ss_running s)\<rparr>"

inductive_cases serve_stepE: "serve_step s a s'"

inductive serve_reachable :: "serve_act list \<Rightarrow> serve_state \<Rightarrow> bool" where
  init: "serve_reachable [] \<lparr>ss_locks = no_locks, ss_running = []\<rparr>"
| step: "serve_reachable acts s \<Longrightarrow> serve_step s a s' \<Longrightarrow> serve_reachable (acts @ [a]) s'"

definition serve_inv :: "serve_state \<Rightarrow> bool" where
  "serve_inv s \<longleftrightarrow> distinct (map snd (ss_running s)) \<and> al_held (ss_locks s) = snd ` set (ss_running s)"

lemma serve_step_inv: "serve_step s a s' \<Longrightarrow> serve_inv s \<Longrightarrow> serve_inv s'"
proof (induction rule: serve_step.induct)
  case (start n s l i)
  then show ?case using actuator.try_Some [of n "ss_locks s" l] by (auto simp: serve_inv_def)
next
  case (refuse n s i)
  then show ?case by simp
next
  case (finish i n s)
  then have d: "distinct (map snd (ss_running s))" and h: "al_held (ss_locks s) = snd ` set (ss_running s)"
    by (simp_all add: serve_inv_def)
  have "distinct (ss_running s)" using d by (simp add: distinct_map)
  then have "set (remove1 (i, n) (ss_running s)) = set (ss_running s) - {(i, n)}" by simp
  moreover have "snd ` (set (ss_running s) - {(i, n)}) = snd ` set (ss_running s) - {n}"
    using d finish(1) inj_on_image_set_diff [of snd "set (ss_running s)" "set (ss_running s)" "{(i, n)}"]
    by (simp add: distinct_map)
  moreover have "distinct (map snd (remove1 (i, n) (ss_running s)))"
    using d by (simp add: distinct_map inj_on_diff \<open>distinct (ss_running s)\<close>)
  ultimately show ?case using h by (simp add: serve_inv_def actuator.rel_held)
qed

lemma serve_reachable_inv: "serve_reachable acts s \<Longrightarrow> serve_inv s"
proof (induction rule: serve_reachable.induct)
  case init
  then show ?case by (simp add: serve_inv_def no_locks_def al_held_def)
next
  case (step acts s a s')
  then show ?case by (blast intro: serve_step_inv)
qed



section \<open>Requests that act on nothing\<close>

definition acts_on_node :: "event \<Rightarrow> bool" where
  "acts_on_node e \<longleftrightarrow> cuts_power e \<or> returns_to_service e \<or> (case e of EvCordon _ _ \<Rightarrow> True | EvDrain _ _ \<Rightarrow> True | _ \<Rightarrow> False)"

text \<open>
  A status request only reads: of the calls it makes none cordons, drains, powers or
  uncordons anything; and it answers 404 exactly for a node that is not in the inventory.
\<close>

theorem status_only_reads:
  "case api_status pf h c node w of
     (resp, w') \<Rightarrow>
       (\<exists>evs. w_trace w' = w_trace w @ evs \<and> filter acts_on_node evs = []) \<and>
       (rs_Code resp = 404) = (inv_node (h_Inv h) node = None)"
proof -
  have bmc: "\<exists>evs. w_trace w1 = w_trace w @ evs \<and> filter acts_on_node evs = []"
    if "status_bmc pf spec c' w = (res, w1)" for spec c' res w1
    using that by (auto simp: status_bmc_def Let_def acts_on_node_def w_trace_invoke
        split: sum.splits prod.splits if_splits)
  have probe: "w_trace w2 = w_trace w1 @ [EvReachable ep (r = Inr True)]"
    if "invoke (\<lambda>r. EvReachable ep (r = Inr True)) f c' w1 = (r, w2)" for ep f c' w1 r w2
    using that by (rule w_trace_invoke)
  show ?thesis
  proof (cases "inv_node (h_Inv h) node")
    case None
    then show ?thesis by (simp add: api_status_def operate_Lookup_def reply_def)
  next
    case (Some spec)
    let ?c = "WithTimeout c (w_clock w) (if h_StatusTimeout h \<le> 0 then defaultStatusTimeout else h_StatusTimeout h)"
    obtain pw berr w1 where b: "status_bmc pf spec ?c w = ((pw, berr), w1)" by (metis surj_pair)
    from bmc [OF b] obtain evs where evs: "w_trace w1 = w_trace w @ evs" "filter acts_on_node evs = []" by blast
    show ?thesis
    proof (cases "h_reachable h")
      case None
      with Some b evs show ?thesis by (simp add: api_status_def operate_Lookup_def reply_def Let_def)
    next
      case (Some f)
      obtain r w2 where p: "invoke (\<lambda>r. EvReachable (ns_TalosEndpoint spec) (r = Inr True))
          (f (ns_TalosEndpoint spec)) ?c w1 = (r, w2)" by (rule prod.exhaust)
      from \<open>inv_node (h_Inv h) node = Some spec\<close> Some b evs probe [OF p] show ?thesis
        by (cases r) (auto simp: api_status_def operate_Lookup_def reply_def Let_def p acts_on_node_def)
    qed
  qed
qed

text \<open>
  A dry run answers at once and touches nothing: 200 for a node of the inventory,
  404 for any other, with the locks and the world as they were, even while an operation on the node
  is in flight.
\<close>

theorem dry_run_touches_nothing:
  assumes "decodeBody [''forceBmcOff'', ''dryRun''] r = Inr flags" and "flags ''dryRun'' = Some True"
  shows "api_drainShutdown pf h c node r l w =
    (if inv_node (h_Inv h) node = None then reply 404 (ErrorBody (Error (UnknownNodeError node)))
     else reply 200 (OpBody True node [] []), l, w)"
  using assms
  by (simp add: api_drainShutdown_def locked_op_def boolOr_def writeDryRun_def operate_Lookup_def
      split: option.splits)

definition lab_dry_request :: http_request where
  \<open>lab_dry_request = (lab_request ''drain-shutdown'' ''Bearer secret'')
     \<lparr>hr_ContentLength := 15, hr_Body := Some ''{"dryRun":true}''\<rparr>\<close>

lemma lab_dry_flags:
  "\<exists>flags. decodeBody [''forceBmcOff'', ''dryRun''] lab_dry_request = Inr flags \<and> flags ''dryRun'' = Some True"
proof -
  have "json_Decode (the (hr_Body lab_dry_request)) = Inr (JObj [(''dryRun'', ''true'', JBool True)])"
    by code_simp
  moreover have "EqualFold ''dryRun'' ''dryRun''" "\<not> EqualFold ''dryRun'' ''forceBmcOff''"
    by code_simp+
  ultimately show ?thesis
    by (simp add: decodeBody_def lab_dry_request_def decode_flags_def struct_members_def field_values_def)
qed

theorem dry_run_touches_nothing_witness:
  "\<exists>w. api_drainShutdown lab_platform
     \<lparr>h_Inv = lab_inv, h_Token = ''secret'', h_Builder = None, h_Kubeconfig = [], h_Talosconfig = [],
      h_StatusTimeout = 0, h_reachable = None\<rparr> background ''node-1'' lab_dry_request
     \<lparr>al_inFlight = [''node-1'']\<rparr> w =
   (reply 200 (OpBody True ''node-1'' [] []), \<lparr>al_inFlight = [''node-1'']\<rparr>, w)"
proof -
  obtain flags where "decodeBody [''forceBmcOff'', ''dryRun''] lab_dry_request = Inr flags"
    and "flags ''dryRun'' = Some True" using lab_dry_flags by blast
  from dry_run_touches_nothing [OF this, of lab_platform] show ?thesis
    by (simp add: inv_node_def lab_inv_def)
qed

section \<open>Time\<close>

text \<open>What the gate of the real builder adds to its time-out: at most one reading of the table.\<close>

lemma truenas_gate_takes:
  fixes lib :: "'a ws_lib"
  assumes "takes_at_most (SessionTable lib) D"
  shows "takes_at_most (truenas_gate lib token timeout) (nat (max 0 timeout) + D)"
  unfolding takes_at_most_def
proof (intro allI)
  fix c t and s :: 'a
  let ?w = "\<lparr>w_env = s, w_clock = t, w_trace = []\<rparr>"
  obtain res w' where run:
    "WaitClear \<lparr>ig_List = Some (SessionTable lib), ig_Poll = 0\<rparr> token timeout c ?w = (res, w')"
    by (rule prod.exhaust)
  have "w_clock w' \<le> w_clock ?w + max 0 timeout + int D"
    using WaitClear_clock [OF run, of D] assms by (auto simp: takes_at_most_def)
  with run show "fst (snd (truenas_gate lib token timeout c t s)) \<le> nat (max 0 timeout) + D"
    by (simp add: truenas_gate_def as_prim_def)
qed

lemma run_close_clock:
  assumes "\<And>f. cl = Some f \<Longrightarrow> takes_at_most f B"
  shows "w_clock (run_close cl c w) \<le> w_clock w + int B"
proof (cases cl)
  case (Some f)
  then show ?thesis using invoke_clock [OF prod.collapse [symmetric] assms [OF Some]] by (simp add: run_close_def)
qed (simp add: run_close_def)

text \<open>
  The calls of an assembled drain: \<open>B\<close> bounds the assembly and the release, \<open>D\<close> the short calls, \<open>Dd\<close>
  the eviction and \<open>Dg\<close> the storage gate.
\<close>

definition drain_op_within ::
  "'w builder \<Rightarrow> node_spec \<Rightarrow> string \<Rightarrow> op_config \<Rightarrow> nat \<Rightarrow> nat \<Rightarrow> nat \<Rightarrow> nat \<Rightarrow> bool" where
  "drain_op_within build node name cfg B D Dd Dg \<longleftrightarrow>
     takes_at_most (build node cfg) B \<and>
     (\<forall>c t s be d s'. build node cfg c t s = (Inr be, d, s') \<longrightarrow>
        (\<forall>f. be_Close be = Some f \<longrightarrow> takes_at_most f B) \<and>
        drain_calls_within (operate_drain_deps be) (kubeName name node) (operate_drain_opts node cfg) D Dd Dg)"

lemma operate_DrainShutdown_clock:
  assumes run: "operate_DrainShutdown pf c iv name cfg build w = (res, w')"
    and within: "\<And>node. inv_node iv name = Some node \<Longrightarrow> drain_op_within (builder_of pf build) node name cfg B D Dd Dg"
  shows "w_clock w' \<le> w_clock w + int Dd + int Dg +
    2 * positive_or (5 * Minute) (cf_PowerOffTimeout cfg) + 5 * int D + 2 * int B"
proof -
  have T: "0 \<le> positive_or (5 * Minute) (cf_PowerOffTimeout cfg)" by (simp add: positive_or_def)
  from operate_DrainShutdown_run [OF run] show ?thesis
  proof (cases rule: operate_run.cases)
    case unknown
    with T show ?thesis by simp
  next
    case (assembly_fails node e)
    with within [OF assembly_fails(2)] invoke_clock [OF assembly_fails(3)] T
    show ?thesis by (fastforce simp: drain_op_within_def)
  next
    case (runs node be w1 w2)
    note b = within [OF runs(2), unfolded drain_op_within_def]
    have "w_clock w1 \<le> w_clock w + int B" using invoke_clock [OF runs(3)] b by blast
    moreover obtain d s' where "builder_of pf build node cfg c (w_clock w) (w_env w) = (Inr be, d, s')"
      using runs(3) by (auto simp: invoke_def split: prod.splits)
    with b have cl: "\<And>f. be_Close be = Some f \<Longrightarrow> takes_at_most f B"
      and "drain_calls_within (operate_drain_deps be) (kubeName name node) (operate_drain_opts node cfg) D Dd Dg"
      by blast+
    from DrainShutdown_clock [OF runs(4) this(2)]
    have "w_clock w2 \<le> w_clock w1 + int Dd + int Dg +
        2 * positive_or (5 * Minute) (cf_PowerOffTimeout cfg) + 5 * int D"
      by (simp add: operate_drain_opts_def)
    moreover have "w_clock w' \<le> w_clock w2 + int B" using runs(1) run_close_clock [OF cl] by simp
    ultimately show ?thesis by simp
  qed
qed


definition lab_handler :: "lab handler" where
  "lab_handler = \<lparr>h_Inv = lab_inv, h_Token = ''secret'', h_Builder = Some lab_builder, h_Kubeconfig = [],
     h_Talosconfig = [], h_StatusTimeout = 0, h_reachable = None\<rparr>"


end
