(* ===== verification/Lifecycle_Timeline.thy ===== *)
theory Lifecycle_Timeline
  imports Operate_Props
begin

text \<open>
  When the steps of an operation were taken: in the order of their list, each between the start and
  the end of the operation on the clock of the process, and each with at most one detail.
\<close>

section \<open>Steps along the clock\<close>

fun steps_between :: "time \<Rightarrow> step list \<Rightarrow> time \<Rightarrow> bool" where
  "steps_between t [] u = (t \<le> u)"
| "steps_between t (s # ss) u = (t \<le> step_At s \<and> length (step_Details s) \<le> 1 \<and> steps_between (step_At s) ss u)"

abbreviation timeline :: "'w lworld \<Rightarrow> step list \<Rightarrow> 'w lworld \<Rightarrow> bool" where
  "timeline w steps w' \<equiv> steps_between (w_clock w) steps (w_clock w')"

lemma steps_between_le: "steps_between t ss u \<Longrightarrow> t \<le> u"
  by (induction ss arbitrary: t) fastforce+

lemma steps_between_append: "steps_between t ss m \<Longrightarrow> steps_between m ss' u \<Longrightarrow> steps_between t (ss @ ss') u"
proof (induction ss arbitrary: t)
  case Nil
  then show ?case by (cases ss') auto
qed auto

lemma steps_between_widen: "steps_between t ss u \<Longrightarrow> t' \<le> t \<Longrightarrow> u \<le> u' \<Longrightarrow> steps_between t' ss u'"
  by (induction ss arbitrary: t t') fastforce+

lemma steps_between_sorted: "steps_between t ss u \<Longrightarrow> sorted (t # map step_At ss @ [u])"
  by (induction ss arbitrary: t) (auto dest: steps_between_le, fastforce)

lemma record_step_simps:
  "step_At (record_step None name e details w) = w_clock w" "step_Details (record_step now name e details w) = details"
  by (simp_all add: record_step_def)

lemma waitPowerOff_mono: "waitPowerOff pw timeout poll c w = (e, w') \<Longrightarrow> w_clock w \<le> w_clock w'"
  by (auto simp: waitPowerOff_def Let_def split: option.splits prod.splits sum.splits dest!: poll_loop_clock_mono)

lemma waitUntil_mono: "waitUntil timeout poll desc ev check c w = (e, w') \<Longrightarrow> w_clock w \<le> w_clock w'"
  by (auto simp: waitUntil_def Let_def split: option.splits prod.splits sum.splits dest!: poll_loop_clock_mono)

lemmas clock_mono = w_clock_invoke_mono waitPowerOff_mono waitUntil_mono

section \<open>Both operations\<close>

lemma confirm_off_timeline:
  assumes "confirm_off c node deps opts steps w1 = ((steps', e), w')" and "ds_Now deps = None" and "timeline w steps w1"
  shows "timeline w steps' w'"
  using assms(1,2) unfolding confirm_off_def Let_def
  by (auto split: prod.splits option.splits if_splits dest!: clock_mono simp: record_step_simps
      intro!: steps_between_append [OF assms(3)])

lemma DrainShutdown_timeline:
  assumes "DrainShutdown c node deps opts w = ((steps, e), w')" and "ds_Now deps = None"
  shows "timeline w steps w'"
  using assms unfolding DrainShutdown_def Let_def
  by (auto split: prod.splits option.splits dest!: clock_mono simp: record_step_simps elim!: confirm_off_timeline)

lemma PowerOn_timeline:
  assumes run: "PowerOn c node deps opts w = ((steps, err), w')" and now: "po_Now deps = None"
  shows "timeline w steps w'"
proof -
  let ?ep = "po_TalosEndpoint opts" and ?until = "\<lambda>timeout. waitUntil timeout (po_PollInterval opts)"
  obtain s w0 where w0: "invoke EvGetPowerState (bmc_GetPowerState (po_Power deps)) c w = (s, w0)" by (rule prod.exhaust)
  obtain e1 d1 w1 where w1: "(if res_OK s \<and> res_PowerState s = BmcOn then (None, [(''already'', ''on'')], w0)
      else (case invoke EvPowerOn (bmc_PowerOn (po_Power deps)) c w0 of
              (res, w') \<Rightarrow> if \<not> res_OK res then (Some (Err (''bmc power-on failed: '' @ res_Error res)), [], w')
                          else (None, [], w'))) = (e1, d1, w1)" by (rule prod_cases3)
  obtain e2 d2 w2 where w2: "(case po_Talos deps of
        None \<Rightarrow> (None, [(''skipped'', ''talos reachability unavailable'')], w1)
      | Some reachable \<Rightarrow>
          (case ?until (po_ReachableTimeout opts) ''talos reachable'' (reach_ev ?ep)
                  (\<lambda>c t s. case reachable ?ep c t s of (b, dt, s') \<Rightarrow> (Inr b, dt, s')) c w1 of
             (e, w') \<Rightarrow> (e, [], w'))) = (e2, d2, w2)" by (rule prod_cases3)
  obtain e3 w3 where w3: "?until (po_ReadyTimeout opts) ''node ready'' (EvIsNodeReady node)
    (ng_IsNodeReady (po_Nodes deps) node) c w2 = (e3, w3)" by (rule prod.exhaust)
  obtain e4 d4 w4 where w4: "(if po_ExpectGPU opts
      then (case ?until (po_GPUTimeout opts) ''gpu registered'' (EvNodeHasGPU node)
                    (ng_NodeHasGPUCapacity (po_Nodes deps) node) c w3 of (e, w') \<Rightarrow> (e, [], w'))
      else (None, [(''skipped'', ''node not GPU-bearing'')], w3)) = (e4, d4, w4)" by (rule prod_cases3)
  obtain e5 w5 where w5: "invoke (EvUncordon node) (ng_Uncordon (po_Nodes deps) node) c w4 = (e5, w5)" by (rule prod.exhaust)
  have "w_clock w \<le> w_clock w1" "length d1 \<le> 1"
    using clock_mono(1) [OF w0] w1 by (auto split: if_splits prod.splits dest!: clock_mono)
  moreover have "w_clock w1 \<le> w_clock w2" "length d2 \<le> 1"
    using w2 by (auto split: option.splits prod.splits dest!: clock_mono)
  moreover have "w_clock w2 \<le> w_clock w3" using clock_mono(3) [OF w3] .
  moreover have "w_clock w3 \<le> w_clock w4" "length d4 \<le> 1"
    using w4 by (auto split: if_splits prod.splits dest!: clock_mono)
  moreover have "w_clock w4 \<le> w_clock w5" using clock_mono(1) [OF w5] .
  moreover note run [unfolded PowerOn_def Let_def w0 w1 w2 w3 w4 w5 prod.case now]
  ultimately show ?thesis
    unfolding w2 w3 w4 w5 prod.case
    by (cases e1; cases e2; cases e3; cases e4; cases e5) (auto simp: record_step_simps w2 w3 w4 w5)
qed

lemma run_close_mono: "w_clock w \<le> w_clock (run_close cl c w)"
  by (auto simp: run_close_def split: option.splits) (metis prod.collapse w_clock_invoke_mono)

lemma operate_DrainShutdown_timeline:
  assumes "operate_DrainShutdown pf c iv name cfg build w = ((steps, e), w')"
  shows "timeline w steps w'"
  using assms unfolding operate_DrainShutdown_def Let_def
  by (auto split: sum.splits prod.splits dest!: clock_mono DrainShutdown_timeline
      intro!: steps_between_widen [OF _ _ run_close_mono] simp: operate_drain_deps_def)

lemma operate_Wake_timeline:
  assumes "operate_Wake pf c iv name cfg build w = ((steps, e), w')"
  shows "timeline w steps w'"
  using assms unfolding operate_Wake_def Let_def
  by (auto split: sum.splits prod.splits dest!: clock_mono PowerOn_timeline
      intro!: steps_between_widen [OF _ _ run_close_mono] simp: operate_wake_deps_def)

end
