(* ===== verification/Json_Indent.thy ===== *)
theory Json_Indent
  imports Json_Print
begin

text \<open>
  \<open>json.MarshalIndent(v, "", "  ")\<close>: \<open>Marshal\<close> and then \<open>Indent\<close>. Scanned by \<open>Indent\<close>, the text of a value
  becomes the text in the indented layout, which \<open>Unmarshal\<close> reads back.
\<close>

definition json_MarshalIndent :: "jval \<Rightarrow> string" where
  "json_MarshalIndent v = fst (indent_run (json_Marshal v) indent_init)"

section \<open>The scan of a printed value\<close>

text \<open>
  The state once the line break behind an opening bracket has been written, and that line break.
\<close>

definition settle :: "indent_state \<Rightarrow> indent_state" where
  "settle st = (if in_need st then st\<lparr>in_need := False, in_depth := in_depth st + 1\<rparr> else st)"

definition break_of :: "indent_state \<Rightarrow> string" where
  "break_of st = (if in_need st then indent_newline (in_depth st + 1) else [])"

lemma settle_simps [simp]:
  "\<not> in_need (settle st)" "settle (settle st) = settle st" "break_of (settle st) = []"
  "outside (settle st) = outside st" "in_str (settle st) = in_str st" "in_esc (settle st) = in_esc st"
  by (auto simp: settle_def break_of_def outside_def)

lemma settle_False: "\<not> in_need st \<Longrightarrow> settle st = st" "\<not> in_need st \<Longrightarrow> break_of st = []"
  by (auto simp: settle_def break_of_def)

text \<open>A byte outside strings that is no space, bracket, comma, colon or quote.\<close>

definition plain_byte :: "char \<Rightarrow> bool" where
  "plain_byte c \<longleftrightarrow> \<not> is_ws c \<and>
     c \<notin> {CHR ''{'', CHR ''['', CHR ''}'', CHR '']'', CHR '','', CHR '':'', CHR 0x22}"

lemma outside_False: "outside st \<Longrightarrow> st\<lparr>in_str := False, in_esc := False\<rparr> = st"
  by (cases st) (simp add: outside_def)

lemma plain_step: "outside st \<Longrightarrow> plain_byte c \<Longrightarrow> indent_step c st = (break_of st @ [c], settle st)"
  using outside_False [of "settle st"]
  by (auto simp: indent_step_def plain_byte_def outside_def settle_def break_of_def Let_def)

lemma plain_run:
  "outside st \<Longrightarrow> s \<noteq> [] \<Longrightarrow> list_all plain_byte s \<Longrightarrow> indent_run s st = (break_of st @ s, settle st)"
proof (induction s arbitrary: st)
  case (Cons c cs)
  then show ?case by (cases "cs = []") (auto simp: plain_step)
qed simp

lemma digit_plain: "is_digit c \<Longrightarrow> plain_byte c"
  by (auto simp: is_digit_def plain_byte_def is_ws_def)

lemma int_str_plain: "list_all plain_byte (int_str i)"
proof -
  have "list_all plain_byte (nat_str n)" for n
    using nat_str_digits [of n] digit_plain by (auto simp: list_all_iff)
  moreover have "plain_byte (CHR ''-'')" by code_simp
  ultimately show ?thesis by (simp add: int_str_def)
qed

lemma int_str_not_Nil: "int_str i \<noteq> []"
  by (simp add: int_str_def)

lemma num_ok_plain: "num_ok s \<Longrightarrow> list_all plain_byte s \<and> s \<noteq> []"
proof -
  assume ok: "num_ok s"
  have "plain_byte c" if "number_byte c" for c
    using that digit_plain by (auto simp: number_byte_def plain_byte_def is_ws_def)
  with num_ok_bytes [OF ok] num_ok_hd [OF ok] show ?thesis by (auto simp: list_all_iff)
qed

text \<open>Strings are copied.\<close>


lemma inside_copy:
  assumes "inside st" and "c \<noteq> CHR 0x22" and "c \<noteq> CHR 0x5C"
  shows "indent_step c st = ([c], st)"
proof -
  have "st\<lparr>in_str := True, in_esc := False\<rparr> = st" using assms(1) by (cases st) (simp add: inside_def)
  with assms show ?thesis by (simp add: inside_def indent_step_def)
qed

lemma inside_pair:
  assumes "inside st"
  shows "indent_run [CHR 0x5C, c] st = ([CHR 0x5C, c], st)"
proof -
  have "st\<lparr>in_str := True, in_esc := False\<rparr> = st" using assms by (cases st) (simp add: inside_def)
  with assms show ?thesis by (simp add: inside_def indent_step_def)
qed

lemma inside_u:
  assumes "inside st" and "list_all (\<lambda>c. c \<noteq> CHR 0x22 \<and> c \<noteq> CHR 0x5C) s"
  shows "indent_run s st = (s, st)"
  using assms by (induction s) (auto simp: inside_copy)

lemma escape_copy:
  assumes "inside st"
  shows "indent_run (json_escape c) st = (json_escape c, st)"
proof (cases "\<exists>x. json_escape c = [CHR 0x5C, x]")
  case True
  then show ?thesis using inside_pair [OF assms] by auto
next
  case False
  let ?h = "''00'' @ [hex_digit (of_char c div 16), hex_digit (of_char c mod 16)]"
  have "of_char c div 16 < (16 :: nat)" by (simp add: less_mult_imp_div_less)
  then have h: "list_all (\<lambda>c. c \<noteq> CHR 0x22 \<and> c \<noteq> CHR 0x5C) ?h" by (simp add: hex_digit_plain)
  from False consider "json_escape c = [CHR 0x5C, CHR ''u''] @ ?h" | "json_escape c = [c]" "c \<noteq> CHR 0x22" "c \<noteq> CHR 0x5C"
    by (auto simp: json_escape_def split: if_splits)
  then show ?thesis
  proof cases
    case 1
    have "indent_run ([CHR 0x5C, CHR ''u''] @ ?h) st = ([CHR 0x5C, CHR ''u''] @ ?h, st)"
      by (subst indent_run_append) (simp only: inside_pair [OF assms] inside_u [OF assms h] prod.case)
    then show ?thesis by (simp only: 1)
  next
    case 2
    then show ?thesis using inside_copy [OF assms] by simp
  qed
qed

lemma escapes_copy: "inside st \<Longrightarrow> indent_run (concat (map json_escape s)) st = (concat (map json_escape s), st)"
  by (induction s) (simp_all add: indent_run_append escape_copy)

lemma quote_run:
  assumes "outside st"
  shows "indent_run (json_quote s) st = (break_of st @ json_quote s, settle st)"
proof -
  let ?in = "settle st\<lparr>in_str := True, in_esc := False\<rparr>"
  have open_q: "indent_step (CHR 0x22) st = (break_of st @ [CHR 0x22], ?in)"
    using assms by (auto simp: indent_step_def outside_def settle_def break_of_def is_ws_def Let_def)
  have ins: "inside ?in" by (simp add: inside_def)
  have "indent_step (CHR 0x22) ?in = ([CHR 0x22], settle st)"
    using outside_False [of "settle st"] assms by (simp add: indent_step_def)
  then show ?thesis
    by (simp add: json_quote_def open_q indent_run_append escapes_copy [OF ins])
qed

section \<open>Brackets and separators\<close>

lemma bracket_steps:
  assumes "outside st"
  shows "b = CHR ''['' \<or> b = CHR ''{'' \<Longrightarrow> indent_step b st = (break_of st @ [b], settle st\<lparr>in_need := True\<rparr>)"
    and "b = CHR '']'' \<or> b = CHR ''}'' \<Longrightarrow> \<not> in_need st \<Longrightarrow>
      indent_step b (st\<lparr>in_depth := Suc (in_depth st)\<rparr>) = (indent_newline (in_depth st) @ [b], st)"
    and "b = CHR '']'' \<or> b = CHR ''}'' \<Longrightarrow> indent_step b (settle st\<lparr>in_need := True\<rparr>) = ([b], settle st)"
    and "\<not> in_need st \<Longrightarrow> indent_step (CHR '','') st = (CHR '','' # indent_newline (in_depth st), st)"
    and "\<not> in_need st \<Longrightarrow> indent_step (CHR '':'') st = ('': '', st)"
  using assms
  by (auto simp: indent_step_def outside_def settle_def break_of_def is_ws_def Let_def)

lemma settle_open:
  "outside st \<Longrightarrow> outside (settle st\<lparr>in_need := True\<rparr>)"
  "settle (settle st\<lparr>in_need := True\<rparr>) = settle st\<lparr>in_depth := Suc (in_depth (settle st))\<rparr>"
  "break_of (settle st\<lparr>in_need := True\<rparr>) = indent_newline (Suc (in_depth (settle st)))"
  by (auto simp: settle_def break_of_def outside_def)

abbreviation "pretty \<equiv> show_value indent_newline '' ''"
abbreviation "pretty_elems \<equiv> show_elems indent_newline '' ''"
abbreviation "pretty_membs \<equiv> show_membs indent_newline '' ''"

lemma bracketed_run:
  assumes "outside st" and "a = CHR ''['' \<or> a = CHR ''{''" and "b = CHR '']'' \<or> b = CHR ''}''"
    and "indent_run s (settle st\<lparr>in_need := True\<rparr>) =
      (indent_newline (Suc (in_depth (settle st))) @ t, settle st\<lparr>in_depth := Suc (in_depth (settle st))\<rparr>)"
  shows "indent_run (a # s @ [b]) st =
    (break_of st @ a # indent_newline (Suc (in_depth (settle st))) @ t @ indent_newline (in_depth (settle st)) @ [b], settle st)"
  using assms bracket_steps(1) [OF assms(1,2)] bracket_steps(2) [of "settle st" b]
  by (simp add: indent_run_append)

lemma empty_run:
  assumes "outside st" and "a = CHR ''['' \<or> a = CHR ''{''" and "b = CHR '']'' \<or> b = CHR ''}''"
  shows "indent_run [a, b] st = (break_of st @ [a, b], settle st)"
  using bracket_steps(1) [OF assms(1,2)] bracket_steps(3) [OF assms(1,3)] by simp

lemma indent_run_Marshal:
  "jval_ok v \<Longrightarrow> outside st \<Longrightarrow> indent_run (json_Marshal v) st = (break_of st @ pretty (in_depth (settle st)) v, settle st)"
  "list_all jval_ok vs \<Longrightarrow> outside st \<Longrightarrow> vs \<noteq> [] \<Longrightarrow>
   indent_run (marshal_elems vs) st = (break_of st @ pretty_elems (in_depth (settle st)) vs, settle st)"
  "list_all (\<lambda>(k, v). jval_ok v) ms \<Longrightarrow> outside st \<Longrightarrow> ms \<noteq> [] \<Longrightarrow>
   indent_run (marshal_membs ms) st = (break_of st @ pretty_membs (in_depth (settle st)) ms, settle st)"
proof (induction v and vs and ms arbitrary: st and st and st
    rule: json_Marshal_marshal_elems_marshal_membs.induct)
  case 1
  have "list_all plain_byte ''null''" by code_simp
  with plain_run [OF 1(2), of "''null''"] show ?case by simp
next
  case (2 b)
  have "list_all plain_byte (bool_str True)" "list_all plain_byte (bool_str False)" by code_simp+
  then have "list_all plain_byte (bool_str b)" by (cases b) simp_all
  moreover have "bool_str b \<noteq> []" by (simp add: bool_str_def)
  ultimately show ?case using plain_run [OF 2(2)] by simp
next
  case (3 i)
  then show ?case by (simp add: plain_run int_str_plain int_str_not_Nil)
next
  case (4 s)
  then show ?case by (simp add: quote_run)
next
  case (5 vs)
  show ?case
  proof (cases "vs = []")
    case True
    then show ?thesis using empty_run [OF 5(3), of "CHR ''[''" "CHR '']''"] by simp
  next
    case False
    have "indent_run (marshal_elems vs) (settle st\<lparr>in_need := True\<rparr>) =
      (indent_newline (Suc (in_depth (settle st))) @ pretty_elems (Suc (in_depth (settle st))) vs,
       settle st\<lparr>in_depth := Suc (in_depth (settle st))\<rparr>)"
      using 5(1) [OF _ settle_open(1) [OF 5(3)] False] 5(2) by (simp add: settle_open)
    from bracketed_run [OF 5(3) _ _ this, of "CHR ''[''" "CHR '']''"] False show ?thesis by simp
  qed
next
  case (6 ms)
  show ?case
  proof (cases "ms = []")
    case True
    then show ?thesis using empty_run [OF 6(3), of "CHR ''{''" "CHR ''}''"] by simp
  next
    case False
    have "indent_run (marshal_membs ms) (settle st\<lparr>in_need := True\<rparr>) =
      (indent_newline (Suc (in_depth (settle st))) @ pretty_membs (Suc (in_depth (settle st))) ms,
       settle st\<lparr>in_depth := Suc (in_depth (settle st))\<rparr>)"
      using 6(1) [OF _ settle_open(1) [OF 6(3)] False] 6(2) by (simp add: settle_open)
    from bracketed_run [OF 6(3) _ _ this, of "CHR ''{''" "CHR ''}''"] False show ?thesis by simp
  qed
next
  case (7 s)
  then show ?case by (simp add: plain_run num_ok_plain)
next
  case (9 v vs)
  then show ?case by (auto simp: indent_run_append bracket_steps(4))
next
  case (11 k v ms)
  then show ?case by (auto simp: indent_run_append quote_run bracket_steps(4,5))
qed simp_all

lemma MarshalIndent_pretty: "jval_ok v \<Longrightarrow> json_MarshalIndent v = pretty 0 v"
proof -
  assume "jval_ok v"
  moreover have "outside indent_init" "settle indent_init = indent_init" "break_of indent_init = []" "in_depth indent_init = 0"
    by (simp_all add: outside_def settle_def break_of_def indent_init_def)
  ultimately show ?thesis using indent_run_Marshal(1) [of v indent_init] by (simp add: json_MarshalIndent_def)
qed

lemma Unmarshal_MarshalIndent: "jval_ok v \<Longrightarrow> json_Unmarshal (json_MarshalIndent v) = Inr (shown indent_newline '' '' 0 v)"
  using indented.Unmarshal_show [of v "[]" 0] by (simp add: MarshalIndent_pretty json_end_def skip_ws_def)

end
