(* ===== verification/Json_Tree.thy ===== *)
theory Json_Tree
  imports Operation Json_Indent
begin

text \<open>
  The values that are handed to \<open>json.MarshalIndent\<close> and \<open>json.Encoder\<close> and got from \<open>json.Unmarshal\<close>, and their
  text. \<open>JtTime\<close> is a \<open>time.Time\<close>, written as a string; a value that was read has the string. A Go map is
  listed in ascending order of its keys, in which it is written.
\<close>

section \<open>Values\<close>

datatype jtree =
    JtNull
  | JtBool bool
  | JtNum string
  | JtStr string
  | JtTime time
  | JtArr "jtree list"
  | JtObj "(string \<times> jtree) list"

fun jval_of :: "jtree \<Rightarrow> jval" where
  "jval_of JtNull = JvNull"
| "jval_of (JtBool b) = JvBool b"
| "jval_of (JtNum s) = JvNum s"
| "jval_of (JtStr s) = JvStr s"
| "jval_of (JtTime t) = JvStr (rfc3339 t)"
| "jval_of (JtArr xs) = JvArr (map jval_of xs)"
| "jval_of (JtObj ms) = JvObj (map (\<lambda>(k, v). (k, jval_of v)) ms)"

fun tree_of :: "json \<Rightarrow> jtree" where
  "tree_of JNull = JtNull"
| "tree_of (JBool b) = JtBool b"
| "tree_of (JNum s) = JtNum s"
| "tree_of (JStr s) = JtStr s"
| "tree_of (JArr xs) = JtArr (map tree_of xs)"
| "tree_of (JObj ms) = JtObj (map (\<lambda>(k, _, v). (k, tree_of v)) ms)"

text \<open>A value as it is read back: times are strings.\<close>

fun plain :: "jtree \<Rightarrow> jtree" where
  "plain (JtTime t) = JtStr (rfc3339 t)"
| "plain (JtArr xs) = JtArr (map plain xs)"
| "plain (JtObj ms) = JtObj (map (\<lambda>(k, v). (k, plain v)) ms)"
| "plain v = v"

text \<open>The text of a document, and the value of a text.\<close>

definition tree_text :: "jtree \<Rightarrow> string" where
  "tree_text v = json_MarshalIndent (jval_of v)"

definition text_tree :: "string \<Rightarrow> jtree option" where
  "text_tree s = (case json_Unmarshal s of Inl _ \<Rightarrow> None | Inr v \<Rightarrow> Some (tree_of v))"

text \<open>A time outside the years that can be written, and a number that is no literal, are errors.\<close>

fun marshal_ok :: "jtree \<Rightarrow> bool" where
  "marshal_ok (JtTime t) = time_ok t"
| "marshal_ok (JtNum s) = num_ok s"
| "marshal_ok (JtArr xs) = list_all marshal_ok xs"
| "marshal_ok (JtObj ms) = list_all (\<lambda>(k, v). marshal_ok v) ms"
| "marshal_ok _ = True"

definition first_err :: "err option \<Rightarrow> err option \<Rightarrow> err option" where
  "first_err a b = (case a of None \<Rightarrow> b | Some _ \<Rightarrow> a)"

abbreviation bad_type :: err where "bad_type \<equiv> Err ''json: cannot unmarshal value''"
abbreviation bad_text :: err where "bad_text \<equiv> Err ''invalid JSON text''"

text \<open>The members of a value decoded into a struct, and the values for one of its fields.\<close>

fun tree_members :: "jtree \<Rightarrow> (string \<times> jtree) list \<times> err option" where
  "tree_members (JtObj ms) = (ms, None)"
| "tree_members JtNull = ([], None)"
| "tree_members _ = ([], Some bad_type)"

definition tree_field :: "string \<Rightarrow> (string \<times> jtree) list \<Rightarrow> jtree list" where
  "tree_field name ms = map snd (filter (\<lambda>(k, _). EqualFold k name) ms)"

text \<open>Fields: null changes nothing, a value of another kind is reported and changes nothing.\<close>

fun tree_str :: "string \<Rightarrow> jtree list \<Rightarrow> string \<times> err option" where
  "tree_str cur [] = (cur, None)"
| "tree_str cur (JtStr s # vs) = tree_str s vs"
| "tree_str cur (JtTime t # vs) = tree_str (rfc3339 t) vs"
| "tree_str cur (JtNull # vs) = tree_str cur vs"
| "tree_str cur (_ # vs) = (case tree_str cur vs of (s, _) \<Rightarrow> (s, Some bad_type))"

fun tree_bool :: "bool \<Rightarrow> jtree list \<Rightarrow> bool \<times> err option" where
  "tree_bool cur [] = (cur, None)"
| "tree_bool cur (JtBool b # vs) = tree_bool b vs"
| "tree_bool cur (JtNull # vs) = tree_bool cur vs"
| "tree_bool cur (_ # vs) = (case tree_bool cur vs of (s, _) \<Rightarrow> (s, Some bad_type))"

fun tree_time :: "time \<Rightarrow> jtree list \<Rightarrow> time \<times> err option" where
  "tree_time cur [] = (cur, None)"
| "tree_time cur (JtTime t # vs) = tree_time t vs"
| "tree_time cur (JtStr s # vs) =
     (case parse_rfc3339 s of
        Some t \<Rightarrow> tree_time t vs
      | None \<Rightarrow> (case tree_time cur vs of (u, _) \<Rightarrow> (u, Some bad_type)))"
| "tree_time cur (JtNull # vs) = tree_time cur vs"
| "tree_time cur (_ # vs) = (case tree_time cur vs of (s, _) \<Rightarrow> (s, Some bad_type))"

text \<open>The zero value of \<open>time.Time\<close>: 1 January of the year 1.\<close>

definition zero_time :: time where "zero_time = - 62135596800 * Second"

section \<open>The text of a value\<close>

lemma tree_of_shown: "tree_of (shown nl gap d (jval_of v)) = plain v"
  by (induction v arbitrary: d rule: jval_of.induct) (auto simp: case_prod_beta')

lemma jval_ok_of: "marshal_ok v \<Longrightarrow> jval_ok (jval_of v)"
  by (induction v rule: jval_of.induct) (auto simp: list_all_iff)

lemma text_round_trip: "marshal_ok v \<Longrightarrow> text_tree (tree_text v) = Some (plain v)"
  by (simp add: text_tree_def tree_text_def Unmarshal_MarshalIndent jval_ok_of tree_of_shown)

text \<open>An \<open>Encoder\<close> writes the compact text and a line break.\<close>

definition encode_line :: "jtree \<Rightarrow> string" where
  "encode_line v = json_Marshal (jval_of v) @ [CHR 0x0A]"

lemma line_round_trip: "marshal_ok v \<Longrightarrow> text_tree (encode_line v) = Some (plain v)"
proof -
  assume ok: "marshal_ok v"
  have "json_end [CHR 0x0A]" "skip_ws [CHR 0x0A] = []" by (simp_all add: json_end_def skip_ws_def is_ws_def)
  from Unmarshal_Marshal [OF jval_ok_of [OF ok] this] show ?thesis
    by (simp add: text_tree_def encode_line_def shown_compact [of 0, symmetric] tree_of_shown)
qed

end
