(* ===== verification/Operation_Json.thy ===== *)
theory Operation_Json
  imports Json_Tree "HOL-Library.AList"
begin

text \<open>
  The JSON form of the records of \<^verbatim>\<open>internal/operation/operation.go\<close>, as their field tags give it, which the
  file store keeps and the HTTP API answers with; steps and operations are read back as written.
\<close>

section \<open>Steps and operations\<close>

text \<open>A field with \<open>omitempty\<close>.\<close>

definition omitempty :: "string \<Rightarrow> bool \<Rightarrow> jtree \<Rightarrow> (string \<times> jtree) list" where
  "omitempty name zero v = (if zero then [] else [(name, v)])"

definition encode_step :: "step \<Rightarrow> jtree" where
  "encode_step s =
     JtObj ([(''name'', JtStr (step_Name s)), (''succeeded'', JtBool (step_Succeeded s))] @
       omitempty ''message'' (step_Message s = []) (JtStr (step_Message s)) @
       omitempty ''details'' (step_Details s = [])
         (JtObj (map (\<lambda>(k, v). (k, JtStr v)) (step_Details s))) @
       [(''at'', JtTime (step_At s))])"

definition encode_operation :: "operation \<Rightarrow> jtree" where
  "encode_operation op =
     JtObj ([(''id'', JtStr (op_ID op)), (''type'', JtStr (op_Type op)), (''node'', JtStr (op_Node op)),
             (''state'', JtStr (op_State op)), (''actor'', JtStr (op_Actor op))] @
       omitempty ''lock_id'' (op_LockID op = []) (JtStr (op_LockID op)) @
       omitempty ''steps'' (op_Steps op = []) (JtArr (map encode_step (op_Steps op))) @
       omitempty ''error'' (op_Error op = []) (JtStr (op_Error op)) @
       [(''created_at'', JtTime (op_CreatedAt op)), (''updated_at'', JtTime (op_UpdatedAt op))])"

text \<open>
  \<open>Details\<close>: the sources put only strings there, and the model of a step keeps only strings; other
  values of a foreign document are not kept.
\<close>

definition detail_update :: "string \<times> jtree \<Rightarrow> (string \<times> string) list \<Rightarrow> (string \<times> string) list" where
  "detail_update m d = (case m of (k, JtStr s) \<Rightarrow> AList.update k s d | _ \<Rightarrow> d)"

fun tree_details :: "(string \<times> string) list \<Rightarrow> jtree list \<Rightarrow> (string \<times> string) list \<times> err option" where
  "tree_details cur [] = (cur, None)"
| "tree_details cur (JtObj ms # vs) =
     tree_details (fold detail_update ms cur) vs"
| "tree_details cur (JtNull # vs) = tree_details [] vs"
| "tree_details cur (_ # vs) = (case tree_details cur vs of (s, _) \<Rightarrow> (s, Some bad_type))"

definition decode_step :: "jtree \<Rightarrow> step \<times> err option" where
  "decode_step v =
     (case tree_members v of
        (ms, e0) \<Rightarrow>
          (let (n, e1) = tree_str [] (tree_field ''name'' ms);
               (b, e2) = tree_bool False (tree_field ''succeeded'' ms);
               (m, e3) = tree_str [] (tree_field ''message'' ms);
               (d, e4) = tree_details [] (tree_field ''details'' ms);
               (t, e5) = tree_time zero_time (tree_field ''at'' ms)
           in (\<lparr>step_Name = n, step_Succeeded = b, step_Message = m, step_Details = d, step_At = t\<rparr>,
               first_err e0 (first_err e1 (first_err e2 (first_err e3 (first_err e4 e5)))))))"

fun decode_elems :: "jtree list \<Rightarrow> step list \<times> err option" where
  "decode_elems [] = ([], None)"
| "decode_elems (v # vs) =
     (case (decode_step v, decode_elems vs) of ((s, e), (ss, es)) \<Rightarrow> (s # ss, first_err e es))"

fun tree_steps :: "step list \<Rightarrow> jtree list \<Rightarrow> step list \<times> err option" where
  "tree_steps cur [] = (cur, None)"
| "tree_steps cur (JtArr xs # vs) =
     (case decode_elems xs of (ss, e) \<Rightarrow>
        (case tree_steps ss vs of (r, e') \<Rightarrow> (r, first_err e e')))"
| "tree_steps cur (JtNull # vs) = tree_steps [] vs"
| "tree_steps cur (_ # vs) = (case tree_steps cur vs of (s, _) \<Rightarrow> (s, Some bad_type))"

definition decode_operation :: "jtree \<Rightarrow> operation \<times> err option" where
  "decode_operation v =
     (case tree_members v of
        (ms, e0) \<Rightarrow>
          (let (i, e1) = tree_str [] (tree_field ''id'' ms);
               (ty, e2) = tree_str [] (tree_field ''type'' ms);
               (n, e3) = tree_str [] (tree_field ''node'' ms);
               (st, e4) = tree_str [] (tree_field ''state'' ms);
               (a, e5) = tree_str [] (tree_field ''actor'' ms);
               (l, e6) = tree_str [] (tree_field ''lock_id'' ms);
               (ss, e7) = tree_steps [] (tree_field ''steps'' ms);
               (er, e8) = tree_str [] (tree_field ''error'' ms);
               (c, e9) = tree_time zero_time (tree_field ''created_at'' ms);
               (u, e10) = tree_time zero_time (tree_field ''updated_at'' ms)
           in (\<lparr>op_ID = i, op_Type = ty, op_Node = n, op_State = st, op_Actor = a, op_LockID = l,
                op_Steps = ss, op_Error = er, op_CreatedAt = c, op_UpdatedAt = u\<rparr>,
               first_err e0 (first_err e1 (first_err e2 (first_err e3 (first_err e4 (first_err e5
                 (first_err e6 (first_err e7 (first_err e8 (first_err e9 e10))))))))))))"

section \<open>What is written is read back\<close>

lemma fold_update_fresh:
  assumes "distinct (map fst ds)" and "fst ` set acc \<inter> fst ` set ds = {}"
  shows "fold detail_update (map (\<lambda>(k, v). (k, JtStr v)) ds) acc = acc @ ds"
  using assms
proof (induction ds arbitrary: acc)
  case (Cons x ds)
  obtain k v where x: "x = (k, v)" by (rule prod.exhaust)
  have "k \<notin> fst ` set acc" using Cons.prems(2) x by auto
  then have u: "AList.update k v acc = acc @ [(k, v)]" by (induction acc) auto
  have "fst ` set (acc @ [(k, v)]) \<inter> fst ` set ds = {}" using Cons.prems x by auto
  from Cons.IH [OF _ this] Cons.prems(1) show ?case by (simp add: x u detail_update_def)
qed simp

lemmas fold_names = tree_field_def EqualFold_def ToLower_def lower_char_def first_err_def omitempty_def

text \<open>A step that can be written: a map has each key once, and its time lies in a year of four digits.\<close>

definition step_ok :: "step \<Rightarrow> bool" where
  "step_ok s \<longleftrightarrow> distinct (map fst (step_Details s)) \<and> time_ok (step_At s)"

lemma plain_strings: "(\<lambda>(k, v). (k, plain v)) \<circ> (\<lambda>(k, v). (k, JtStr v)) = (\<lambda>(k, v). (k, JtStr v))"
  by auto

lemma decode_step_encode: "step_ok s \<Longrightarrow> decode_step (plain (encode_step s)) = (s, None)"
  using fold_update_fresh [of "step_Details s" "[]"]
  by (simp add: decode_step_def encode_step_def fold_names step_ok_def rfc3339_round_trip plain_strings)

lemma decode_elems_encode:
  "list_all step_ok ss \<Longrightarrow> decode_elems (map (plain \<circ> encode_step) ss) = (ss, None)"
  by (induction ss) (auto simp: decode_step_encode first_err_def)

definition op_ok :: "operation \<Rightarrow> bool" where
  "op_ok op \<longleftrightarrow> list_all step_ok (op_Steps op) \<and> time_ok (op_CreatedAt op) \<and> time_ok (op_UpdatedAt op)"

lemma marshal_step: "step_ok s \<Longrightarrow> marshal_ok (encode_step s)"
  by (auto simp: step_ok_def encode_step_def omitempty_def list_all_iff)

lemma marshal_operation: "op_ok op \<Longrightarrow> marshal_ok (encode_operation op)"
  by (auto simp: op_ok_def encode_operation_def omitempty_def list_all_iff marshal_step)

lemma decode_operation_encode: "op_ok op \<Longrightarrow> decode_operation (plain (encode_operation op)) = (op, None)"
  by (simp add: op_ok_def decode_operation_def encode_operation_def fold_names decode_elems_encode rfc3339_round_trip)

end
