(* ===== verification/Api_Wire.thy ===== *)
theory Api_Wire
  imports Api_Props Lifecycle_Timeline Operation_Json
begin

text \<open>
  The bytes of the answers of \<^verbatim>\<open>internal/api/api.go\<close>: the JSON form of the response structs, \<open>writeJSON\<close>, and
  what a client reads from them. Behind \<open>HEAD\<close> the server of \<^verbatim>\<open>net/http\<close> sends no body.
\<close>

section \<open>The response structs\<close>

definition opResponse_json :: "bool \<Rightarrow> string \<Rightarrow> step list \<Rightarrow> string \<Rightarrow> jtree" where
  "opResponse_json ok node steps e =
     JtObj ([(''ok'', JtBool ok), (''node'', JtStr node)] @
       omitempty ''steps'' (steps = []) (JtArr (map encode_step steps)) @
       omitempty ''error'' (e = []) (JtStr e))"

definition statusResponse_json :: "string \<Rightarrow> string \<Rightarrow> string \<Rightarrow> bool option \<Rightarrow> jtree" where
  "statusResponse_json node pw berr reachable =
     JtObj ([(''node'', JtStr node), (''bmcPower'', JtStr pw)] @
       omitempty ''bmcError'' (berr = []) (JtStr berr) @
       omitempty ''reachable'' (reachable = None) (JtBool (reachable = Some True)))"

definition errorResponse_json :: "string \<Rightarrow> jtree" where
  "errorResponse_json e = JtObj [(''error'', JtStr e)]"

section \<open>Writing\<close>

record wire_response =
  wr_Code :: nat
  wr_ContentType :: string
  wr_Text :: string

text \<open>
  The error of \<open>Encode\<close> is dropped: a value that cannot be marshalled leaves the body empty behind the
  status code, which has been sent by then.
\<close>

definition api_writeJSON :: "nat \<Rightarrow> jtree \<Rightarrow> wire_response" where
  "api_writeJSON code body =
     \<lparr>wr_Code = code, wr_ContentType = ''application/json'',
      wr_Text = (if marshal_ok body then encode_line body else [])\<rparr>"

text \<open>What the server of \<^verbatim>\<open>net/http\<close> makes of a text without a type of its own.\<close>

definition plain_text :: "nat \<Rightarrow> string \<Rightarrow> wire_response" where
  "plain_text code s = \<lparr>wr_Code = code, wr_ContentType = ''text/plain; charset=utf-8'', wr_Text = s @ [CHR 0x0A]\<rparr>"

definition api_wire :: "http_request \<Rightarrow> response \<Rightarrow> wire_response" where
  "api_wire r resp =
     (let out =
        (case rs_Body resp of
           HealthBody \<Rightarrow> plain_text (rs_Code resp) ''ok''
         | ErrorBody e \<Rightarrow> api_writeJSON (rs_Code resp) (errorResponse_json e)
         | OpBody ok node steps e \<Rightarrow> api_writeJSON (rs_Code resp) (opResponse_json ok node steps e)
         | StatusBody node pw berr reach \<Rightarrow> api_writeJSON (rs_Code resp) (statusResponse_json node pw berr reach)
         | MuxBody \<Rightarrow>
             plain_text (rs_Code resp) (if rs_Code resp = 405 then ''Method Not Allowed'' else ''404 page not found''))
      in if hr_Method r = ''HEAD'' then out\<lparr>wr_Text := []\<rparr> else out)"

section \<open>Reading\<close>

text \<open>A client with the same structs: \<open>Unmarshal\<close> of the body.\<close>

definition read_op :: "string \<Rightarrow> (bool \<times> string \<times> step list \<times> string) option" where
  "read_op text =
     (case text_tree text of
        None \<Rightarrow> None
      | Some v \<Rightarrow>
          (case tree_members v of
             (ms, e0) \<Rightarrow>
               (let (ok, e1) = tree_bool False (tree_field ''ok'' ms);
                    (n, e2) = tree_str [] (tree_field ''node'' ms);
                    (ss, e3) = tree_steps [] (tree_field ''steps'' ms);
                    (er, e4) = tree_str [] (tree_field ''error'' ms)
                in if first_err e0 (first_err e1 (first_err e2 (first_err e3 e4))) = None
                   then Some (ok, n, ss, er) else None)))"

lemma step_in_range:
  assumes "steps_between t ss u" and "time_ok t" and "time_ok u"
  shows "list_all step_ok ss"
  using assms(1,2)
proof (induction ss arbitrary: t)
  case (Cons s ss)
  then have rest: "steps_between (step_At s) ss u" by simp
  have "t \<le> step_At s" "step_At s \<le> u" using Cons.prems(1) steps_between_le by auto
  then have "time_ok (step_At s)" using Cons.prems(2) assms(3) by (auto simp: time_ok_def)
  moreover have "distinct (map fst (step_Details s))"
    using Cons.prems(1) by (cases "step_Details s") (auto simp: le_Suc_eq)
  ultimately show ?case using Cons.IH [OF rest] by (simp add: step_ok_def)
qed simp

lemma opResponse_ok: "list_all step_ok steps \<Longrightarrow> marshal_ok (opResponse_json ok node steps e)"
  by (auto simp: opResponse_json_def omitempty_def list_all_iff marshal_step)

lemma read_opResponse:
  "list_all step_ok steps \<Longrightarrow>
   read_op (wr_Text (api_writeJSON code (opResponse_json ok node steps e))) = Some (ok, node, steps, e)"
proof -
  assume steps: "list_all step_ok steps"
  have "text_tree (wr_Text (api_writeJSON code (opResponse_json ok node steps e))) =
      Some (plain (opResponse_json ok node steps e))"
    by (simp add: api_writeJSON_def opResponse_ok [OF steps] line_round_trip)
  then show ?thesis
    unfolding read_op_def by (simp add: opResponse_json_def fold_names decode_elems_encode steps)
qed

section \<open>Operations answered\<close>

text \<open>The two operations of the API: the verb of the path, the flags of the body, the run.\<close>

definition api_operation ::
  "('w, 'rc, 'tc) platform \<Rightarrow> 'w handler \<Rightarrow> ctx \<Rightarrow> string \<Rightarrow> string \<Rightarrow> string list \<Rightarrow>
   ((string \<Rightarrow> bool option) \<Rightarrow> 'w lworld \<Rightarrow> (step list \<times> err option) \<times> 'w lworld) \<Rightarrow> bool" where
  "api_operation pf h c node verb names run \<longleftrightarrow>
     verb = ''drain-shutdown'' \<and> names = [''forceBmcOff'', ''dryRun''] \<and>
       run = (\<lambda>flags. operate_DrainShutdown pf c (h_Inv h) node (drain_config h flags) (h_Builder h)) \<or>
     verb = ''wake'' \<and> names = [''skipGpuWait'', ''dryRun''] \<and>
       run = (\<lambda>flags. operate_Wake pf c (h_Inv h) node (wake_config h flags) (h_Builder h))"

lemma api_operation_outcome:
  assumes "api_operation pf h c node verb names run" and "run flags w = ((steps, err), w')"
  shows "inv_node (h_Inv h) node = None \<and> steps = [] \<and> err = Some (UnknownNodeError node) \<or>
    inv_node (h_Inv h) node \<noteq> None \<and> (steps = [] \<and> err \<noteq> None \<or> steps_sound steps err)"
    and "timeline w steps w'"
proof -
  from assms consider
      "operate_DrainShutdown pf c (h_Inv h) node (drain_config h flags) (h_Builder h) w = ((steps, err), w')"
    | "operate_Wake pf c (h_Inv h) node (wake_config h flags) (h_Builder h) w = ((steps, err), w')"
    unfolding api_operation_def by auto
  note runs = this
  show "inv_node (h_Inv h) node = None \<and> steps = [] \<and> err = Some (UnknownNodeError node) \<or>
    inv_node (h_Inv h) node \<noteq> None \<and> (steps = [] \<and> err \<noteq> None \<or> steps_sound steps err)"
    by (rule runs) (erule operate_DrainShutdown_outcome operate_Wake_outcome)+
  show "timeline w steps w'"
    by (rule runs) (erule operate_DrainShutdown_timeline operate_Wake_timeline)+
qed

lemma api_Routes_operation:
  assumes "api_operation pf h c node verb names run" and "hr_Method r = ''POST''"
    and "hr_Path r = [''v1'', ''nodes'', node, verb]" and "node \<noteq> []" and "auth_ok h r"
  shows "api_Routes pf h c r l w = locked_op h names run node r l w"
  using assms by (auto simp: api_operation_def api_Routes_def api_drainShutdown_def api_wake_def)

lemma locked_op_runs:
  assumes "decodeBody names r = Inr flags" and "\<not> boolOr (flags ''dryRun'') False" and "node \<notin> al_held l"
    and "run flags w = ((steps, err), w')"
  shows "\<exists>l'. locked_op h names run node r l w = (writeOpResult node steps err, l', w')"
proof -
  from assms(3) obtain l' where "tryAcquire node l = Some l'"
    using actuator.try_None_iff [of node l] by (cases "tryAcquire node l") auto
  then show ?thesis by (simp add: locked_op_def assms(1,2,4))
qed

definition op_status :: "inventory \<Rightarrow> string \<Rightarrow> step list \<Rightarrow> err option \<Rightarrow> nat" where
  "op_status iv node steps e =
     (if inv_node iv node = None then 404 else if e = None then 200 else if steps = [] then 500 else 409)"

lemma read_errorResponse: "read_op (wr_Text (api_writeJSON code (errorResponse_json e))) = Some (False, [], [], e)"
proof -
  have "text_tree (wr_Text (api_writeJSON code (errorResponse_json e))) = Some (plain (errorResponse_json e))"
    using line_round_trip [of "errorResponse_json e"] by (simp add: api_writeJSON_def errorResponse_json_def)
  then show ?thesis unfolding read_op_def by (simp add: errorResponse_json_def fold_names)
qed

lemma writeOpResult_wire:
  assumes "inv_node iv node = None \<and> steps = [] \<and> err = Some (UnknownNodeError node) \<or>
    inv_node iv node \<noteq> None \<and> (steps = [] \<and> err \<noteq> None \<or> steps_sound steps err)"
    and "\<And>e. inv_node iv node \<noteq> None \<Longrightarrow> err = Some e \<Longrightarrow> as_UnknownNodeError e = None"
    and "list_all step_ok steps" and "hr_Method r \<noteq> ''HEAD''"
  shows "read_op (wr_Text (api_wire r (writeOpResult node steps err))) =
      Some (err = None, if inv_node iv node = None then [] else node, steps, errMsg err)"
    and "wr_Code (api_wire r (writeOpResult node steps err)) = op_status iv node steps err"
    and "wr_ContentType (api_wire r (writeOpResult node steps err)) = ''application/json''"
proof -
  have code: "rs_Code (writeOpResult node steps err) = op_status iv node steps err"
    using writeOpResult_code [OF assms(1,2)] by (simp add: op_status_def)
  have body: "rs_Body (writeOpResult node steps err) =
      (if inv_node iv node = None then ErrorBody (errMsg err) else OpBody (err = None) node steps (errMsg err))"
    using assms(1,2) by (auto simp: writeOpResult_def reply_def Let_def errMsg_def split: option.splits)
  show "wr_Code (api_wire r (writeOpResult node steps err)) = op_status iv node steps err"
    "wr_ContentType (api_wire r (writeOpResult node steps err)) = ''application/json''"
    by (simp_all add: api_wire_def body code api_writeJSON_def Let_def)
  show "read_op (wr_Text (api_wire r (writeOpResult node steps err))) =
      Some (err = None, if inv_node iv node = None then [] else node, steps, errMsg err)"
    using assms by (auto simp: api_wire_def body Let_def read_opResponse read_errorResponse)
qed


text \<open>The node has no storage identity: the assembly is refused and nothing is touched.\<close>

definition lab_nameless :: "(int \<times> string list) handler" where
  "lab_nameless =
     \<lparr>h_Inv = \<lparr>inv_Nodes = [(''node-1'', lab_node\<lparr>ns_ISCSIInitiatorAddr := '' ''\<rparr>)]\<rparr>, h_Token = ''secret'',
      h_Builder = None, h_Kubeconfig = [], h_Talosconfig = [], h_StatusTimeout = 0, h_reachable = None\<rparr>"


end
