(* ===== verification/Controller.thy ===== *)
theory Controller
  imports Operate
begin

text \<open>
  \<^verbatim>\<open>api/v1alpha1\<close> and \<^verbatim>\<open>internal/controller\<close>: the \<open>ElasticNode\<close> object, the level-triggered reconciler
  and the provider that builds the backends of a node. The controller-runtime client of the management
  cluster is third-party: \<open>mgmt_client\<close> holds its calls and the classification of its errors.

  The goroutine of \<open>cancelOnDesiredChange\<close> runs beside the operation. What it reads is the history of
  the object in the management cluster while the operation runs, a finite list of changes
  (\<open>rc_history\<close>); the ticks at which it reads, the first reading that cancels and the instant of the
  cancellation are computed from it, and the operation runs under a context cancelled at that instant.
  The time a read of the watcher takes is not modelled.
\<close>

section \<open>The ElasticNode object\<close>

type_synonym en_power = string
type_synonym en_phase = string

definition EnPowerOn :: en_power where "EnPowerOn = ''On''"
definition EnPowerOff :: en_power where "EnPowerOff = ''Off''"

definition PhaseReady :: en_phase where "PhaseReady = ''Ready''"
definition PhaseDraining :: en_phase where "PhaseDraining = ''Draining''"
definition PhaseBlocked :: en_phase where "PhaseBlocked = ''Blocked''"
definition PhaseOff :: en_phase where "PhaseOff = ''Off''"
definition PhasePoweringOn :: en_phase where "PhasePoweringOn = ''PoweringOn''"
definition PhaseError :: en_phase where "PhaseError = ''Error''"

definition ConditionReady :: string where "ConditionReady = ''Ready''"
definition ConditionConverged :: string where "ConditionConverged = ''Converged''"

record condition =
  cond_Type :: string
  cond_Status :: string
  cond_ObservedGeneration :: int
  cond_LastTransitionTime :: time
  cond_Reason :: string
  cond_Message :: string

record en_spec =
  sp_DesiredPower :: en_power
  sp_DesiredReason :: string
  sp_ClusterRef :: string

record en_status =
  st_Phase :: en_phase
  st_ObservedPower :: en_power
  st_NodeReady :: bool
  st_GPURegistered :: bool
  st_ObservedGeneration :: int
  st_LastTransitionTime :: "time option"
  st_Conditions :: "condition list"

record elastic_node =
  en_Name :: string
  en_Namespace :: string
  en_Generation :: int
  en_Spec :: en_spec
  en_Status :: en_status

section \<open>Backends of a node\<close>

record backend_ref =
  br_Node :: string
  br_Cluster :: string

record 'w node_backends =
  nb_Power :: "'w bmc_adapter"
  nb_Drain :: "'w drain_deps"
  nb_PowerOn :: "'w wake_deps"
  nb_Gater :: "'w node_gater option"
  nb_DrainOpts :: drain_opts
  nb_PowerOnOpts :: wake_opts
  nb_Close :: "('w, unit) prim option"

record target_cluster =
  tc_Name :: string
  tc_Kubeconfig :: string
  tc_TalosConfig :: string
  tc_InventoryPath :: string

record 'w cluster_provider =
  cp_Target :: target_cluster
  cp_Inventory :: "inventory option"
  cp_BMCCreds :: "(string \<Rightarrow> string \<times> string) option"
  cp_Config :: op_config
  cp_Build :: "'w builder option"

definition provider_spec :: "'w cluster_provider \<Rightarrow> node_spec \<Rightarrow> node_spec" where
  "provider_spec p spec =
     (case cp_BMCCreds p of
        None \<Rightarrow> spec
      | Some creds \<Rightarrow>
          (case creds (bmc_Type (ns_BMC spec)) of
             (user, pass) \<Rightarrow>
               spec\<lparr>ns_BMC := (ns_BMC spec)\<lparr>bmc_Username := user, bmc_Password := pass\<rparr>\<rparr>))"

definition provider_config :: "'w cluster_provider \<Rightarrow> op_config" where
  "provider_config p =
     (cp_Config p)\<lparr>cf_Kubeconfig := tc_Kubeconfig (cp_Target p), cf_Talosconfig := tc_TalosConfig (cp_Target p)\<rparr>"

definition provider_backends :: "node_spec \<Rightarrow> op_config \<Rightarrow> 'w backends \<Rightarrow> 'w node_backends" where
  "provider_backends spec cfg be =
     \<lparr>nb_Power = be_Power be,
      nb_Drain = operate_drain_deps be,
      nb_PowerOn = \<lparr>po_Power = be_Power be, po_Talos = tb_Reachable (be_Talos be),
                    po_Nodes = no_Gater (be_Nodes be), po_Now = None\<rparr>,
      nb_Gater = Some (no_Gater (be_Nodes be)),
      nb_DrainOpts = operate_drain_opts spec cfg,
      nb_PowerOnOpts =
        \<lparr>po_TalosEndpoint = ns_TalosEndpoint spec, po_ExpectGPU = (length (ns_GPUs spec) > 0),
         po_ReachableTimeout = cf_ReachableTimeout cfg, po_ReadyTimeout = cf_ReadyTimeout cfg,
         po_GPUTimeout = cf_GPUTimeout cfg, po_PollInterval = cf_Poll cfg\<rparr>,
      nb_Close = be_Close be\<rparr>"

definition BackendsFor ::
  "('w, 'rc, 'tc) platform \<Rightarrow> 'w cluster_provider \<Rightarrow> backend_ref \<Rightarrow> ('w, err + 'w node_backends) prim" where
  "BackendsFor pf p ref =
     (if br_Cluster ref \<noteq> [] \<and> br_Cluster ref \<noteq> tc_Name (cp_Target p) then
        pret (Inl (Err (''node '' @ Quote (br_Node ref) @ '' requests clusterRef '' @ Quote (br_Cluster ref) @
          '', provider target is '' @ Quote (tc_Name (cp_Target p)))))
      else
        (case cp_Inventory p of
           None \<Rightarrow> pret (Inl (Err ''inventory not loaded''))
         | Some iv \<Rightarrow>
             (case inv_node iv (br_Node ref) of
                None \<Rightarrow> pret (Inl (Err (''node '' @ Quote (br_Node ref) @ '' not in inventory'')))
              | Some spec0 \<Rightarrow>
                  if \<not> ns_ElasticEligible spec0 then
                    pret (Inl (Err (''node '' @ Quote (br_Node ref) @ '' is not elastic_eligible'')))
                  else
                    (let spec = provider_spec p spec0;
                         cfg = provider_config p;
                         build = (case cp_Build p of None \<Rightarrow> RealBuilder pf | Some b \<Rightarrow> b)
                     in pmap (\<lambda>r. case r of
                            Inl e \<Rightarrow> Inl e
                          | Inr be \<Rightarrow> Inr (provider_backends spec cfg be))
                          (build spec cfg)))))"

section \<open>The reconciler\<close>

type_synonym object_key = "string \<times> string"

record 'w mgmt_client =
  mg_Get :: "object_key \<Rightarrow> ('w, err + elastic_node) prim"
  mg_UpdateStatus :: "elastic_node \<Rightarrow> ('w, err option) prim"
  mg_IsNotFound :: "err \<Rightarrow> bool"
  mg_IsConflict :: "err \<Rightarrow> bool"

text \<open>
  \<open>rc_history\<close>: what a read of the object gives from each instant on, in the order of the instants.
\<close>

record 'w reconciler =
  rc_Client :: "'w mgmt_client"
  rc_Backends :: "backend_ref \<Rightarrow> ('w, err + 'w node_backends) prim"
  rc_Resync :: duration
  rc_IntentPoll :: duration
  rc_MaxConcurrentReconciles :: int
  rc_Now :: "(time \<Rightarrow> time) option"
  rc_history :: "(time \<times> (err + elastic_node)) list"

record reconcile_result =
  rr_Requeue :: bool
  rr_RequeueAfter :: duration

definition no_requeue :: reconcile_result where
  "no_requeue = \<lparr>rr_Requeue = False, rr_RequeueAfter = 0\<rparr>"

definition defaultResync :: duration where "defaultResync = 60 * Second"

definition rc_resync :: "'w reconciler \<Rightarrow> duration" where
  "rc_resync r = (if rc_Resync r > 0 then rc_Resync r else defaultResync)"

definition rc_intentPoll :: "'w reconciler \<Rightarrow> duration" where
  "rc_intentPoll r = (if rc_IntentPoll r > 0 then rc_IntentPoll r else 2 * Second)"

text \<open>The number of workers \<open>SetupWithManager\<close> asks controller-runtime for.\<close>

definition rc_maxConcurrentReconciles :: "'w reconciler \<Rightarrow> int" where
  "rc_maxConcurrentReconciles r = (if rc_MaxConcurrentReconciles r > 0 then rc_MaxConcurrentReconciles r else 4)"

definition rc_now :: "'w reconciler \<Rightarrow> 'w lworld \<Rightarrow> time" where
  "rc_now r w = (case rc_Now r of Some f \<Rightarrow> f (w_clock w) | None \<Rightarrow> w_clock w)"

subsection \<open>Observation\<close>

definition observePower :: "'w bmc_adapter \<Rightarrow> ctx \<Rightarrow> 'w lworld \<Rightarrow> (bmc_power \<times> bool) \<times> 'w lworld" where
  "observePower p c w =
     (case invoke EvGetPowerState (bmc_GetPowerState p) c w of
        (res, w') \<Rightarrow> (if \<not> res_OK res then (BmcUnknown, False) else (res_PowerState res, True), w'))"

definition or_false :: "err + bool \<Rightarrow> bool" where
  "or_false r = (case r of Inl _ \<Rightarrow> False | Inr b \<Rightarrow> b)"

definition observeNode ::
  "'w node_gater option \<Rightarrow> string \<Rightarrow> ctx \<Rightarrow> 'w lworld \<Rightarrow> (bool \<times> bool \<times> bool) \<times> 'w lworld" where
  "observeNode g node c w =
     (case g of
        None \<Rightarrow> ((False, False, False), w)
      | Some g \<Rightarrow>
          (let (r1, w1) = invoke (EvIsNodeReady node) (ng_IsNodeReady g node) c w;
               (r2, w2) = invoke (EvNodeHasGPU node) (ng_NodeHasGPUCapacity g node) c w1;
               (r3, w3) = invoke (EvIsNodeSchedulable node) (ng_IsNodeSchedulable g node) c w2
           in ((or_false r1, or_false r2, or_false r3), w3)))"

definition powerEnum :: "bmc_power \<Rightarrow> en_power" where
  "powerEnum p = (case p of BmcOn \<Rightarrow> EnPowerOn | BmcOff \<Rightarrow> EnPowerOff | _ \<Rightarrow> [])"

subsection \<open>Status\<close>

fun put_condition :: "condition \<Rightarrow> condition list \<Rightarrow> condition list" where
  "put_condition cond [] = [cond]"
| "put_condition cond (x # xs) =
     (if cond_Type x \<noteq> cond_Type cond then x # put_condition cond xs
      else (if cond_Status x = cond_Status cond
            then cond\<lparr>cond_LastTransitionTime := cond_LastTransitionTime x\<rparr> else cond) # xs)"

definition setCondition ::
  "string \<Rightarrow> bool \<Rightarrow> int \<Rightarrow> time \<Rightarrow> string \<Rightarrow> string \<Rightarrow> en_status \<Rightarrow> en_status" where
  "setCondition condType ok gen now reason msg s =
     s\<lparr>st_Conditions := put_condition
         \<lparr>cond_Type = condType, cond_Status = (if ok then ''True'' else ''False''),
          cond_ObservedGeneration = gen, cond_LastTransitionTime = now,
          cond_Reason = reason, cond_Message = msg\<rparr> (st_Conditions s)\<rparr>"

definition readyReason :: "en_phase \<Rightarrow> err option \<Rightarrow> string" where
  "readyReason phase opErr = (if opErr \<noteq> None then ''OperationFailed'' else phase)"

definition readyMessage :: "en_phase \<Rightarrow> err option \<Rightarrow> string" where
  "readyMessage phase opErr = (case opErr of Some e \<Rightarrow> Error e | None \<Rightarrow> ''phase='' @ phase)"

definition convergedReason :: "en_phase \<Rightarrow> err option \<Rightarrow> string" where
  "convergedReason phase opErr = (if opErr \<noteq> None then ''Converging'' else phase)"

definition convergedMessage :: "en_power \<Rightarrow> err option \<Rightarrow> string" where
  "convergedMessage desired opErr =
     (case opErr of
        Some e \<Rightarrow> Error e
      | None \<Rightarrow> ''converged to desiredPower='' @ (if desired = [] then EnPowerOn else desired))"

text \<open>The status \<open>writeStatus\<close> wants, from the one the object has.\<close>

definition want_status ::
  "elastic_node \<Rightarrow> en_phase \<Rightarrow> en_power \<Rightarrow> bool \<Rightarrow> bool \<Rightarrow> err option \<Rightarrow> time \<Rightarrow> en_status" where
  "want_status en phase pw ready gpu opErr now =
     (let s0 = en_Status en;
          s1 = (if st_Phase s0 \<noteq> phase then s0\<lparr>st_LastTransitionTime := Some now\<rparr> else s0);
          s2 = s1\<lparr>st_Phase := phase, st_ObservedPower := pw, st_NodeReady := ready,
                  st_GPURegistered := gpu, st_ObservedGeneration := en_Generation en\<rparr>;
          s3 = setCondition ConditionReady ready (en_Generation en) now
                 (readyReason phase opErr) (readyMessage phase opErr) s2;
          converged = (opErr = None \<and> (phase = PhaseReady \<or> phase = PhaseOff))
      in setCondition ConditionConverged converged (en_Generation en) now
           (convergedReason phase opErr) (convergedMessage (sp_DesiredPower (en_Spec en)) opErr) s3)"

text \<open>The error of a failed update is only logged; the object in hand has the new status either way.\<close>

definition writeStatus ::
  "'w reconciler \<Rightarrow> ctx \<Rightarrow> elastic_node \<Rightarrow> en_phase \<Rightarrow> en_power \<Rightarrow> bool \<Rightarrow> bool \<Rightarrow> err option \<Rightarrow> 'w lworld \<Rightarrow>
   elastic_node \<times> 'w lworld" where
  "writeStatus r c en phase pw ready gpu opErr w =
     (let want = want_status en phase pw ready gpu opErr (rc_now r w)
      in if en_Status en = want then (en, w)
         else
           (let en' = en\<lparr>en_Status := want\<rparr>
            in case invoke (EvUpdateStatus phase) (mg_UpdateStatus (rc_Client r) en') c w of
                 (_, w') \<Rightarrow> (en', w')))"

definition finish ::
  "'w reconciler \<Rightarrow> ctx \<Rightarrow> elastic_node \<Rightarrow> en_phase \<Rightarrow> bmc_power \<Rightarrow> bool \<Rightarrow> bool \<Rightarrow> err option \<Rightarrow> 'w lworld \<Rightarrow>
   (reconcile_result \<times> err option) \<times> 'w lworld" where
  "finish r c en phase pw ready gpu opErr w =
     (case writeStatus r c en phase (powerEnum pw) ready gpu opErr w of
        (_, w') \<Rightarrow>
          (if opErr \<noteq> None then (no_requeue, opErr)
           else (\<lparr>rr_Requeue = False, rr_RequeueAfter = rc_resync r\<rparr>, None), w'))"

subsection \<open>The watch on the intent\<close>

definition intent_of :: "elastic_node \<Rightarrow> en_power" where
  "intent_of en = (if sp_DesiredPower (en_Spec en) = [] then EnPowerOn else sp_DesiredPower (en_Spec en))"

fun reply_at :: "err + elastic_node \<Rightarrow> (time \<times> (err + elastic_node)) list \<Rightarrow> time \<Rightarrow> err + elastic_node" where
  "reply_at cur [] t = cur"
| "reply_at cur ((t0, r) # log) t = (if t0 \<le> t then reply_at r log t else cur)"

text \<open>Whether a reading makes the watcher cancel: the object is gone, or its intent is another one.\<close>

definition cancels :: "('w mgmt_client) \<Rightarrow> en_power \<Rightarrow> err + elastic_node \<Rightarrow> bool" where
  "cancels cl desired r =
     (case r of Inl e \<Rightarrow> mg_IsNotFound cl e | Inr latest \<Rightarrow> intent_of latest \<noteq> desired)"

fun first_tick :: "(time \<Rightarrow> bool) \<Rightarrow> duration \<Rightarrow> nat \<Rightarrow> time \<Rightarrow> time option" where
  "first_tick P poll 0 t = None"
| "first_tick P poll (Suc n) t = (if P (t + poll) then Some (t + poll) else first_tick P poll n (t + poll))"

text \<open>
  The ticks that matter: from the last change of the history on every reading is the same, so one
  tick behind it decides for all later ones.
\<close>

definition tick_bound :: "(time \<times> 'a) list \<Rightarrow> time \<Rightarrow> duration \<Rightarrow> nat" where
  "tick_bound log t poll = (if log = [] then 1 else nat ((fst (last log) - t) div poll) + 2)"

text \<open>\<open>cancelOnDesiredChange\<close> entered at \<open>t\<close>: the instant at which the watcher cancels, if it ever would.\<close>

definition cancelOnDesiredChange :: "'w reconciler \<Rightarrow> elastic_node \<Rightarrow> en_power \<Rightarrow> time \<Rightarrow> time option" where
  "cancelOnDesiredChange r en desired t =
     first_tick (\<lambda>u. cancels (rc_Client r) desired (reply_at (Inr en) (rc_history r) u))
       (rc_intentPoll r) (tick_bound (rc_history r) t (rc_intentPoll r)) t"

text \<open>\<open>desiredChanged()\<close> asked at \<open>now\<close>.\<close>

definition desiredChanged :: "time option \<Rightarrow> time \<Rightarrow> bool" where
  "desiredChanged cancel now = (case cancel of None \<Rightarrow> False | Some t \<Rightarrow> t \<le> now)"

subsection \<open>Reconcile\<close>

text \<open>
  An operation under the watch: the lifecycle run under the derived context and whether, at its end,
  the watcher had seen another intent.
\<close>

definition under_watch ::
  "'w reconciler \<Rightarrow> ctx \<Rightarrow> elastic_node \<Rightarrow> en_power \<Rightarrow>
   (ctx \<Rightarrow> 'w lworld \<Rightarrow> (step list \<times> err option) \<times> 'w lworld) \<Rightarrow> 'w lworld \<Rightarrow> (err option \<times> bool) \<times> 'w lworld" where
  "under_watch r c en desired op w =
     (let cancel = cancelOnDesiredChange r en desired (w_clock w)
      in case op (WithCancelAt c cancel) w of
           ((_, e), w') \<Rightarrow> ((e, desiredChanged cancel (w_clock w')), w'))"

definition converge_off ::
  "'w reconciler \<Rightarrow> ctx \<Rightarrow> elastic_node \<Rightarrow> 'w node_backends \<Rightarrow> bmc_power \<times> bool \<Rightarrow> bool \<Rightarrow> bool \<Rightarrow> 'w lworld \<Rightarrow>
   (reconcile_result \<times> err option) \<times> 'w lworld" where
  "converge_off r c en be observed ready gpu w =
     (case observed of
        (pw, powerKnown) \<Rightarrow>
          if powerKnown \<and> pw = BmcOff then finish r c en PhaseOff BmcOff False False None w
          else
            (case under_watch r c en EnPowerOff
                    (\<lambda>opCtx. DrainShutdown opCtx (en_Name en) (nb_Drain be) (nb_DrainOpts be)) w of
               ((Some dErr, changed), w1) \<Rightarrow>
                 if changed then ((\<lparr>rr_Requeue = True, rr_RequeueAfter = 0\<rparr>, None), w1)
                 else finish r c en PhaseBlocked pw ready gpu
                        (Some (wrap (''drain-shutdown '' @ en_Name en @ '': '') dErr)) w1
             | ((None, _), w1) \<Rightarrow>
                 (case observePower (nb_Power be) c w1 of
                    ((pw', _), w2) \<Rightarrow> finish r c en PhaseOff pw' False False None w2)))"

definition converge_on ::
  "'w reconciler \<Rightarrow> ctx \<Rightarrow> elastic_node \<Rightarrow> 'w node_backends \<Rightarrow> bmc_power \<times> bool \<Rightarrow> bool \<Rightarrow> bool \<Rightarrow> bool \<Rightarrow> 'w lworld \<Rightarrow>
   (reconcile_result \<times> err option) \<times> 'w lworld" where
  "converge_on r c en be observed ready gpu schedulable w =
     (let desired = intent_of en;
          gpuOK = (\<not> po_ExpectGPU (nb_PowerOnOpts be) \<or> gpu)
      in case observed of
           (pw, powerKnown) \<Rightarrow>
             if powerKnown \<and> pw = BmcOn \<and> ready \<and> schedulable \<and> gpuOK
             then finish r c en PhaseReady BmcOn True gpu None w
             else if \<not> powerKnown \<and> ready \<and> schedulable \<and> gpuOK
             then finish r c en PhaseReady BmcOn True gpu None w
             else
               (case under_watch r c en desired
                       (\<lambda>opCtx. PowerOn opCtx (en_Name en) (nb_PowerOn be) (nb_PowerOnOpts be)) w of
                  ((Some pErr, changed), w1) \<Rightarrow>
                    if changed then ((\<lparr>rr_Requeue = True, rr_RequeueAfter = 0\<rparr>, None), w1)
                    else finish r c en PhasePoweringOn pw ready gpu
                           (Some (wrap (''power-on '' @ en_Name en @ '': '') pErr)) w1
                | ((None, _), w1) \<Rightarrow>
                    (case observePower (nb_Power be) c w1 of
                       ((pw', _), w2) \<Rightarrow>
                         (case observeNode (nb_Gater be) (en_Name en) c w2 of
                            ((ready', gpu', _), w3) \<Rightarrow> finish r c en PhaseReady pw' ready' gpu' None w3))))"

definition converge ::
  "'w reconciler \<Rightarrow> ctx \<Rightarrow> elastic_node \<Rightarrow> 'w node_backends \<Rightarrow> 'w lworld \<Rightarrow>
   (reconcile_result \<times> err option) \<times> 'w lworld" where
  "converge r c en be w =
     (case observePower (nb_Power be) c w of
        (observed, w1) \<Rightarrow>
          (case observeNode (nb_Gater be) (en_Name en) c w1 of
             ((ready, gpu, schedulable), w2) \<Rightarrow>
               if intent_of en = EnPowerOff then converge_off r c en be observed ready gpu w2
               else converge_on r c en be observed ready gpu schedulable w2))"

definition reconcile_object ::
  "'w reconciler \<Rightarrow> ctx \<Rightarrow> elastic_node \<Rightarrow> 'w lworld \<Rightarrow> (reconcile_result \<times> err option) \<times> 'w lworld" where
  "reconcile_object r c en w =
     (case invoke (\<lambda>x. EvBuild (case x of Inl e \<Rightarrow> Some e | Inr _ \<Rightarrow> None))
             (rc_Backends r \<lparr>br_Node = en_Name en, br_Cluster = sp_ClusterRef (en_Spec en)\<rparr>) c w of
        (Inl e, w1) \<Rightarrow>
          finish r c en PhaseError BmcUnset False False
            (Some (wrap (''backends for '' @ en_Name en @ '': '') e)) w1
      | (Inr be, w1) \<Rightarrow>
          (case converge r c en be w1 of (res, w2) \<Rightarrow> (res, run_close (nb_Close be) c w2)))"

definition Reconcile ::
  "'w reconciler \<Rightarrow> ctx \<Rightarrow> object_key \<Rightarrow> 'w lworld \<Rightarrow> (reconcile_result \<times> err option) \<times> 'w lworld" where
  "Reconcile r c key w =
     (case invoke (\<lambda>x. EvGetObject (case x of Inl e \<Rightarrow> Some e | Inr _ \<Rightarrow> None)) (mg_Get (rc_Client r) key) c w of
        (Inl e, w1) \<Rightarrow> ((no_requeue, if mg_IsNotFound (rc_Client r) e then None else Some e), w1)
      | (Inr en, w1) \<Rightarrow> reconcile_object r c en w1)"

end
