(* ===== verification/Controller_Props.thy ===== *)
theory Controller_Props
  imports Controller Operate_Props
begin

text \<open>
  Properties of the reconciler: the intent alone decides the direction, the status is never read back,
  a status that is up to date is not written again, a changed intent aborts a running operation within
  one poll, and only eligible nodes of the inventory are operated on.
\<close>

section \<open>Logs without events of a kind\<close>

definition adds_none :: "('e \<Rightarrow> bool) \<Rightarrow> ('w, 'e) world \<Rightarrow> ('w, 'e) world \<Rightarrow> bool" where
  "adds_none P w w' \<longleftrightarrow> (\<exists>evs. w_trace w' = w_trace w @ evs \<and> filter P evs = [])"

lemma adds_none_refl [simp]: "adds_none P w w"
  by (simp add: adds_none_def)

lemma adds_none_trans [trans]: "adds_none P w w1 \<Longrightarrow> adds_none P w1 w2 \<Longrightarrow> adds_none P w w2"
  by (fastforce simp: adds_none_def)

lemma adds_none_invoke: "invoke ev f c w = (r, w') \<Longrightarrow> \<not> P (ev r) \<Longrightarrow> adds_none P w w'"
  by (auto simp: adds_none_def w_trace_invoke)

lemma adds_none_run_close: "\<not> P EvClose \<Longrightarrow> adds_none P w (run_close cl c w)"
  by (auto simp: adds_none_def w_trace_run_close)

text \<open>The events a kind may not contain for the observations and the status writes to be harmless.\<close>

definition bookkeeping :: "(event \<Rightarrow> bool) \<Rightarrow> bool" where
  "bookkeeping P \<longleftrightarrow>
     (\<forall>r. \<not> P (EvGetPowerState r)) \<and> (\<forall>n r. \<not> P (EvIsNodeReady n r)) \<and> (\<forall>n r. \<not> P (EvNodeHasGPU n r)) \<and>
     (\<forall>n r. \<not> P (EvIsNodeSchedulable n r)) \<and> (\<forall>ph e. \<not> P (EvUpdateStatus ph e)) \<and> (\<forall>e. \<not> P (EvBuild e)) \<and>
     \<not> P EvClose"

lemma bookkeeping_kinds: "bookkeeping cuts_power" "bookkeeping returns_to_service"
  by (simp_all add: bookkeeping_def)

lemma adds_none_observePower:
  "bookkeeping P \<Longrightarrow> observePower p c w = (r, w') \<Longrightarrow> adds_none P w w'"
  by (auto simp: observePower_def bookkeeping_def split: prod.splits elim!: adds_none_invoke)

lemma adds_none_observeNode:
  assumes "bookkeeping P" and "observeNode g node c w = (r, w')"
  shows "adds_none P w w'"
proof (cases g)
  case None
  with assms(2) show ?thesis by (simp add: observeNode_def)
next
  case (Some g')
  obtain r1 w1 where 1: "invoke (EvIsNodeReady node) (ng_IsNodeReady g' node) c w = (r1, w1)"
    by (rule prod.exhaust)
  obtain r2 w2 where 2: "invoke (EvNodeHasGPU node) (ng_NodeHasGPUCapacity g' node) c w1 = (r2, w2)"
    by (rule prod.exhaust)
  obtain r3 w3 where 3: "invoke (EvIsNodeSchedulable node) (ng_IsNodeSchedulable g' node) c w2 = (r3, w3)"
    by (rule prod.exhaust)
  have "adds_none P w w1" "adds_none P w1 w2" "adds_none P w2 w3"
    using 1 2 3 assms(1) by (auto simp: bookkeeping_def elim!: adds_none_invoke)
  moreover have "w' = w3" using assms(2) Some by (simp add: observeNode_def 1 2 3)
  ultimately show ?thesis by (blast intro: adds_none_trans)
qed

lemma adds_none_finish:
  "bookkeeping P \<Longrightarrow> finish r c en ph pw rd g e w = (res, w') \<Longrightarrow> adds_none P w w'"
  by (auto simp: finish_def writeStatus_def Let_def bookkeeping_def split: prod.splits if_splits
      elim!: adds_none_invoke)

lemma adds_none_under_watch:
  assumes "under_watch r c en desired op w = (res, w')"
    and "\<And>c' out w1. op c' w = (out, w1) \<Longrightarrow> adds_none P w w1"
  shows "adds_none P w w'"
  using assms by (auto simp: under_watch_def Let_def split: prod.splits)

section \<open>Direction\<close>

lemma wake_spec_no_cut:
  assumes "wake_spec probe gpu node endpoint evs steps ok"
  shows "filter cuts_power evs = []"
proof -
  have polls: "\<forall>x \<in> set evs. \<not> cuts_power x" if "polled_until ev e evs" "\<forall>r. \<not> cuts_power (ev r)" for ev e evs
    using polled_until_set [OF that(1)] that(2) by blast
  have waits: "\<forall>x \<in> set evs. \<not> cuts_power x" if "waited needed ev evs" "\<forall>r. \<not> cuts_power (ev r)" for needed ev evs
    using waited_set [OF that(1)] that(2) by blast
  have on: "\<forall>x \<in> set a. \<not> cuts_power x" if "powered_log a" for a
    using that by (auto simp: powered_log_def)
  from assms show ?thesis
    by (cases rule: wake_spec.cases) (auto simp: filter_empty_conv dest!: polls waits on)
qed

lemma PowerOn_no_cut: "PowerOn c node deps opts w = (res, w') \<Longrightarrow> adds_none cuts_power w w'"
  using PowerOn_trace wake_spec_no_cut unfolding adds_none_def by (metis surj_pair)

lemma DrainShutdown_adds_no_return:
  "DrainShutdown c node deps opts w = (res, w') \<Longrightarrow> adds_none returns_to_service w w'"
  unfolding adds_none_def by (rule DrainShutdown_no_return)

lemma converge_off_adds_none:
  assumes P: "bookkeeping P" and run: "converge_off r c en be observed ready gpu w = (res, w')"
    and drain: "\<And>c' out w1. DrainShutdown c' (en_Name en) (nb_Drain be) (nb_DrainOpts be) w = (out, w1) \<Longrightarrow> adds_none P w w1"
  shows "adds_none P w w'"
proof -
  obtain pw known where o: "observed = (pw, known)" by (rule prod.exhaust)
  obtain e ch w1 where u: "under_watch r c en EnPowerOff
      (\<lambda>opCtx. DrainShutdown opCtx (en_Name en) (nb_Drain be) (nb_DrainOpts be)) w = ((e, ch), w1)"
    by (metis surj_pair)
  have w1: "adds_none P w w1" using adds_none_under_watch [OF u] drain by blast
  obtain pw' k' w2 where p: "observePower (nb_Power be) c w1 = ((pw', k'), w2)" by (metis surj_pair)
  have w2: "adds_none P w w2" using w1 adds_none_observePower [OF P p] by (rule adds_none_trans)
  note fin = adds_none_finish [OF P]
  show ?thesis
  proof (cases "known \<and> pw = BmcOff")
    case True
    with run o show ?thesis by (auto simp: converge_off_def intro: fin)
  next
    case False
    with run o u p w1 w2 show ?thesis
      by (cases e) (auto simp: converge_off_def split: if_splits intro: adds_none_trans [OF _ fin])
  qed
qed

lemma converge_on_adds_none:
  assumes P: "bookkeeping P" and run: "converge_on r c en be observed ready gpu sched w = (res, w')"
    and wake: "\<And>c' out w1. PowerOn c' (en_Name en) (nb_PowerOn be) (nb_PowerOnOpts be) w = (out, w1) \<Longrightarrow> adds_none P w w1"
  shows "adds_none P w w'"
proof -
  obtain pw known where o: "observed = (pw, known)" by (rule prod.exhaust)
  obtain e ch w1 where u: "under_watch r c en (intent_of en)
      (\<lambda>opCtx. PowerOn opCtx (en_Name en) (nb_PowerOn be) (nb_PowerOnOpts be)) w = ((e, ch), w1)"
    by (metis surj_pair)
  have w1: "adds_none P w w1" using adds_none_under_watch [OF u] wake by blast
  obtain pw' k' w2 where p: "observePower (nb_Power be) c w1 = ((pw', k'), w2)" by (metis surj_pair)
  obtain rd' g' s' w3 where n: "observeNode (nb_Gater be) (en_Name en) c w2 = ((rd', g', s'), w3)" by (metis surj_pair)
  have w3: "adds_none P w w3"
    using w1 adds_none_observePower [OF P p] adds_none_observeNode [OF P n] by (blast intro: adds_none_trans)
  note fin = adds_none_finish [OF P]
  let ?up = "ready \<and> sched \<and> (\<not> po_ExpectGPU (nb_PowerOnOpts be) \<or> gpu)"
  show ?thesis
  proof (cases "(known \<and> pw = BmcOn \<or> \<not> known) \<and> ?up")
    case True
    with run o show ?thesis by (auto simp: converge_on_def Let_def split: if_splits intro: fin)
  next
    case False
    then have "\<not> (known \<and> pw = BmcOn \<and> ?up)" "\<not> (\<not> known \<and> ?up)" by auto
    with run o u p n w1 w3 show ?thesis
      by (cases e) (auto simp: converge_on_def Let_def split: if_splits intro: adds_none_trans [OF _ fin])
  qed
qed

lemma converge_adds_none:
  assumes P: "bookkeeping P" and run: "converge r c en be w = (res, w')"
    and drain: "\<And>c' w out w1. intent_of en = EnPowerOff \<Longrightarrow>
      DrainShutdown c' (en_Name en) (nb_Drain be) (nb_DrainOpts be) w = (out, w1) \<Longrightarrow> adds_none P w w1"
    and wake: "\<And>c' w out w1. intent_of en \<noteq> EnPowerOff \<Longrightarrow>
      PowerOn c' (en_Name en) (nb_PowerOn be) (nb_PowerOnOpts be) w = (out, w1) \<Longrightarrow> adds_none P w w1"
  shows "adds_none P w w'"
proof -
  obtain obs w1 where p: "observePower (nb_Power be) c w = (obs, w1)" by (rule prod.exhaust)
  obtain rd g s w2 where n: "observeNode (nb_Gater be) (en_Name en) c w1 = ((rd, g, s), w2)" by (metis surj_pair)
  have w2: "adds_none P w w2"
    using adds_none_observePower [OF P p] adds_none_observeNode [OF P n] by (rule adds_none_trans)
  have "adds_none P w2 w'"
  proof (cases "intent_of en = EnPowerOff")
    case True
    with run p n have "converge_off r c en be obs rd g w2 = (res, w')" by (simp add: converge_def)
    then show ?thesis by (rule converge_off_adds_none [OF P]) (rule drain [OF True])
  next
    case False
    with run p n have "converge_on r c en be obs rd g s w2 = (res, w')" by (simp add: converge_def)
    then show ?thesis by (rule converge_on_adds_none [OF P]) (rule wake [OF False])
  qed
  with w2 show ?thesis by (rule adds_none_trans)
qed

lemma reconcile_object_adds_none:
  fixes r :: "'w reconciler"
  assumes P: "bookkeeping P" and run: "reconcile_object r c en w = (res, w')"
    and drain: "\<And>(be :: 'w node_backends) c' (w :: 'w lworld) out w1.
      \<exists>t s d s'. rc_Backends r \<lparr>br_Node = en_Name en, br_Cluster = sp_ClusterRef (en_Spec en)\<rparr> c t s = (Inr be, d, s') \<Longrightarrow>
      intent_of en = EnPowerOff \<Longrightarrow>
      DrainShutdown c' (en_Name en) (nb_Drain be) (nb_DrainOpts be) w = (out, w1) \<Longrightarrow> adds_none P w w1"
    and wake: "\<And>(be :: 'w node_backends) c' (w :: 'w lworld) out w1.
      \<exists>t s d s'. rc_Backends r \<lparr>br_Node = en_Name en, br_Cluster = sp_ClusterRef (en_Spec en)\<rparr> c t s = (Inr be, d, s') \<Longrightarrow>
      intent_of en \<noteq> EnPowerOff \<Longrightarrow>
      PowerOn c' (en_Name en) (nb_PowerOn be) (nb_PowerOnOpts be) w = (out, w1) \<Longrightarrow> adds_none P w w1"
  shows "adds_none P w w'"
proof -
  let ?ev = "\<lambda>x :: err + 'w node_backends. EvBuild (case x of Inl e \<Rightarrow> Some e | Inr _ \<Rightarrow> None)"
  obtain b w1 where b: "invoke ?ev (rc_Backends r \<lparr>br_Node = en_Name en, br_Cluster = sp_ClusterRef (en_Spec en)\<rparr>)
      c w = (b, w1)" by (rule prod.exhaust)
  have w1: "adds_none P w w1" using adds_none_invoke [OF b] P by (simp add: bookkeeping_def)
  show ?thesis
  proof (cases b)
    case (Inl e)
    with run b w1 show ?thesis
      by (auto simp: reconcile_object_def intro: adds_none_trans [OF _ adds_none_finish [OF P]])
  next
    case (Inr be)
    obtain out w2 where cv: "converge r c en be w1 = (out, w2)" by (rule prod.exhaust)
    have "\<exists>t s d s'. rc_Backends r \<lparr>br_Node = en_Name en, br_Cluster = sp_ClusterRef (en_Spec en)\<rparr> c t s = (Inr be, d, s')"
      using b Inr by (auto simp: invoke_def split: prod.splits)
    note built = drain [OF this] wake [OF this]
    have "adds_none P w1 w2" by (rule converge_adds_none [OF P cv]) (use built in blast)+
    moreover have "adds_none P w2 (run_close (nb_Close be) c w2)"
      using P by (intro adds_none_run_close) (simp add: bookkeeping_def)
    moreover have "w' = run_close (nb_Close be) c w2" using run b Inr cv by (simp add: reconcile_object_def)
    ultimately show ?thesis using w1 by (blast intro: adds_none_trans)
  qed
qed

text \<open>
  C24 (safety, the intent decides the direction). A reconcile of an object whose intent is not \<open>Off\<close>, an
  empty or unknown one included, makes no call that takes the node down; a reconcile of an object whose
  intent is \<open>Off\<close> makes none that powers it on or uncordons it.
\<close>

theorem reconcile_follows_intent:
  "case reconcile_object r c en w of
     (res, w') \<Rightarrow>
       if intent_of en = EnPowerOff then adds_none returns_to_service w w' else adds_none cuts_power w w'"
proof -
  obtain res w' where run: "reconcile_object r c en w = (res, w')" by (rule prod.exhaust)
  have "adds_none returns_to_service w w'" if "intent_of en = EnPowerOff"
    using that by (intro reconcile_object_adds_none [OF bookkeeping_kinds(2) run])
      (auto intro: DrainShutdown_adds_no_return)
  moreover have "adds_none cuts_power w w'" if "intent_of en \<noteq> EnPowerOff"
    using that by (intro reconcile_object_adds_none [OF bookkeeping_kinds(1) run]) (auto intro: PowerOn_no_cut)
  ultimately show ?thesis using run by simp
qed

section \<open>Status writes\<close>

definition find_condition :: "string \<Rightarrow> condition list \<Rightarrow> condition option" where
  "find_condition typ xs = find (\<lambda>x. cond_Type x = typ) xs"

lemma find_put_condition:
  "find_condition typ (put_condition cond xs) =
   (if typ = cond_Type cond
    then Some (case find_condition typ xs of
                 Some x \<Rightarrow> if cond_Status x = cond_Status cond
                           then cond\<lparr>cond_LastTransitionTime := cond_LastTransitionTime x\<rparr> else cond
               | None \<Rightarrow> cond)
    else find_condition typ xs)"
  by (induction xs) (auto simp: find_condition_def)

text \<open>Setting a condition to what it already says, at whatever time, changes nothing.\<close>

lemma put_condition_same:
  assumes "find_condition (cond_Type cond) xs = Some x"
    and "x = cond\<lparr>cond_LastTransitionTime := cond_LastTransitionTime x\<rparr>"
  shows "put_condition cond xs = xs"
  using assms
proof (induction xs)
  case Nil
  then show ?case by (simp add: find_condition_def)
next
  case (Cons y ys)
  show ?case
  proof (cases "cond_Type y = cond_Type cond")
    case True
    with Cons.prems have y: "x = y" by (simp add: find_condition_def)
    have "cond_Status y = cond_Status cond" using Cons.prems(2) y by (metis condition.select_convs(2) condition.surjective condition.update_convs(4))
    with True Cons.prems(2) y show ?thesis by simp
  next
    case False
    with Cons show ?thesis by (simp add: find_condition_def)
  qed
qed

lemma find_condition_set:
  "\<exists>x. find_condition (cond_Type cond) (put_condition cond xs) = Some x \<and>
     x = cond\<lparr>cond_LastTransitionTime := cond_LastTransitionTime x\<rparr>"
  by (auto simp: find_put_condition split: option.splits)

lemma want_status_idem:
  "want_status (en\<lparr>en_Status := want_status en phase pw ready gpu e now\<rparr>) phase pw ready gpu e now' =
   want_status en phase pw ready gpu e now"
proof -
  define cr where "cr t = \<lparr>cond_Type = ConditionReady, cond_Status = (if ready then ''True'' else ''False''),
     cond_ObservedGeneration = en_Generation en, cond_LastTransitionTime = t,
     cond_Reason = readyReason phase e, cond_Message = readyMessage phase e\<rparr>" for t
  define cc where "cc t = \<lparr>cond_Type = ConditionConverged,
     cond_Status = (if e = None \<and> (phase = PhaseReady \<or> phase = PhaseOff) then ''True'' else ''False''),
     cond_ObservedGeneration = en_Generation en, cond_LastTransitionTime = t,
     cond_Reason = convergedReason phase e,
     cond_Message = convergedMessage (sp_DesiredPower (en_Spec en)) e\<rparr>" for t
  define xs where "xs = put_condition (cc now) (put_condition (cr now) (st_Conditions (en_Status en)))"
  have up: "(cr now)\<lparr>cond_LastTransitionTime := t\<rparr> = (cr now')\<lparr>cond_LastTransitionTime := t\<rparr>"
    "(cc now)\<lparr>cond_LastTransitionTime := t\<rparr> = (cc now')\<lparr>cond_LastTransitionTime := t\<rparr>" for t
    by (simp_all add: cr_def cc_def)
  have ct: "cond_Type (cr t) = ConditionReady" "cond_Type (cc t) = ConditionConverged" for t
    by (simp_all add: cr_def cc_def)
  have ne: "ConditionReady \<noteq> ConditionConverged" by (simp add: ConditionReady_def ConditionConverged_def)
  obtain x where "find_condition ConditionReady xs = Some x" "x = (cr now')\<lparr>cond_LastTransitionTime := cond_LastTransitionTime x\<rparr>"
    using find_condition_set [of "cr now" "st_Conditions (en_Status en)"] ne
    by (auto simp: xs_def find_put_condition ct up)
  then have "put_condition (cr now') xs = xs" using put_condition_same [of "cr now'"] by (simp add: ct)
  moreover obtain y where "find_condition ConditionConverged xs = Some y" "y = (cc now')\<lparr>cond_LastTransitionTime := cond_LastTransitionTime y\<rparr>"
    using find_condition_set [of "cc now" "put_condition (cr now) (st_Conditions (en_Status en))"]
    by (auto simp: xs_def ct up)
  then have "put_condition (cc now') xs = xs" using put_condition_same [of "cc now'"] by (simp add: ct)
  ultimately have same: "put_condition (cc now') (put_condition (cr now') xs) = xs" by simp
  have W: "want_status x phase pw ready gpu e t =
      (if st_Phase (en_Status x) \<noteq> phase then (en_Status x)\<lparr>st_LastTransitionTime := Some t\<rparr> else en_Status x)
      \<lparr>st_Phase := phase, st_ObservedPower := pw, st_NodeReady := ready, st_GPURegistered := gpu,
       st_ObservedGeneration := en_Generation en,
       st_Conditions := put_condition (cc t) (put_condition (cr t) (st_Conditions (en_Status x)))\<rparr>"
    if "en_Generation x = en_Generation en" "en_Spec x = en_Spec en" for x t
    by (simp add: want_status_def setCondition_def Let_def cr_def cc_def that)
  define s where "s = want_status en phase pw ready gpu e now"
  have "st_Phase s = phase" "st_ObservedPower s = pw" "st_NodeReady s = ready" "st_GPURegistered s = gpu"
    "st_ObservedGeneration s = en_Generation en" "st_Conditions s = xs"
    by (simp_all add: s_def W xs_def)
  then have "want_status (en\<lparr>en_Status := s\<rparr>) phase pw ready gpu e now' = s"
    by (subst W) (simp_all add: same)
  then show ?thesis by (simp add: s_def)
qed

lemma want_status_fix:
  assumes "en_Status en = want_status en phase pw ready gpu e now"
  shows "want_status en phase pw ready gpu e now' = en_Status en"
proof -
  have "en\<lparr>en_Status := want_status en phase pw ready gpu e now\<rparr> = en" using assms by simp
  with want_status_idem [of en phase pw ready gpu e now now'] assms show ?thesis by metis
qed

text \<open>
  C26 (invariant, transition-only writes). A reconcile that observes what the status already says does
  not write it: after a write, the same observation at any later time finds nothing to change and makes
  no call, and the times of the last transitions stay.
\<close>

theorem status_written_once:
  "case writeStatus r c en phase pw ready gpu e w of
     (en', w') \<Rightarrow> writeStatus r c' en' phase pw ready gpu e w2 = (en', w2)"
proof (cases "en_Status en = want_status en phase pw ready gpu e (rc_now r w)")
  case True
  then show ?thesis by (simp add: writeStatus_def Let_def want_status_fix [OF True])
next
  case False
  then show ?thesis by (simp add: writeStatus_def Let_def want_status_idem split: prod.splits)
qed

section \<open>The status is not read back\<close>

definition is_update :: "event \<Rightarrow> bool" where
  "is_update e = (case e of EvUpdateStatus _ _ \<Rightarrow> True | _ \<Rightarrow> False)"

abbreviation acts :: "event list \<Rightarrow> event list" where
  "acts evs \<equiv> filter (\<lambda>e. \<not> is_update e) evs"

text \<open>Two outcomes that agree but for status writes.\<close>

definition same_but_status :: "'r \<times> 'w lworld \<Rightarrow> 'r \<times> 'w lworld \<Rightarrow> bool" where
  "same_but_status a b \<longleftrightarrow> fst a = fst b \<and> acts (w_trace (snd a)) = acts (w_trace (snd b))"

lemma finish_acts: "acts (w_trace (snd (finish r c en ph pw rd g e w))) = acts (w_trace w)"
  by (auto simp: finish_def writeStatus_def Let_def invoke_def is_update_def split: prod.splits)

lemma finish_same:
  "same_but_status (finish r c en ph pw rd g e w) (finish r c en2 ph pw rd g e w)"
  by (simp add: same_but_status_def finish_acts) (simp add: finish_def split: prod.splits)

lemma same_run_close:
  "same_but_status (res, w) (res2, w2) \<Longrightarrow> same_but_status (res, run_close cl c w) (res2, run_close cl c w2)"
  by (auto simp: same_but_status_def w_trace_run_close)

lemma intent_of_status [simp]: "intent_of (en\<lparr>en_Status := st\<rparr>) = intent_of en"
  by (simp add: intent_of_def)

lemma reply_at_status:
  "cancels cl d (reply_at (Inr (en\<lparr>en_Status := st\<rparr>)) log t) = cancels cl d (reply_at (Inr en) log t)"
  by (cases log) (auto simp: cancels_def)

lemma under_watch_status [simp]: "under_watch r c (en\<lparr>en_Status := st\<rparr>) d op w = under_watch r c en d op w"
  by (simp add: under_watch_def cancelOnDesiredChange_def reply_at_status)

lemma same_but_status_refl [simp]: "same_but_status a a"
  by (simp add: same_but_status_def)

lemma converge_off_status:
  "same_but_status (converge_off r c (en\<lparr>en_Status := st\<rparr>) be obs rd g w) (converge_off r c en be obs rd g w)"
  by (auto simp: converge_off_def finish_same split: prod.splits option.splits)

lemma converge_on_status:
  "same_but_status (converge_on r c (en\<lparr>en_Status := st\<rparr>) be obs rd g s w) (converge_on r c en be obs rd g s w)"
  by (auto simp: converge_on_def Let_def finish_same split: prod.splits option.splits)

lemma converge_status:
  "same_but_status (converge r c (en\<lparr>en_Status := st\<rparr>) be w) (converge r c en be w)"
  by (simp add: converge_def converge_off_status converge_on_status split: prod.splits)

text \<open>
  C25 (safety, level-triggered). The status of an object is never an input of the control loop: two
  reconciles of objects that differ only in their status return the same and make the same calls, status
  writes aside.
\<close>

theorem reconcile_ignores_status:
  "same_but_status (reconcile_object r c (en\<lparr>en_Status := st\<rparr>) w) (reconcile_object r c en w)"
proof -
  let ?ev = "\<lambda>x :: err + 'a node_backends. EvBuild (case x of Inl e \<Rightarrow> Some e | Inr _ \<Rightarrow> None)"
  obtain b w1 where b: "invoke ?ev (rc_Backends r \<lparr>br_Node = en_Name en, br_Cluster = sp_ClusterRef (en_Spec en)\<rparr>)
      c w = (b, w1)" by (rule prod.exhaust)
  show ?thesis
  proof (cases b)
    case (Inl e)
    with b show ?thesis by (simp add: reconcile_object_def finish_same)
  next
    case (Inr be)
    obtain res w2 where 1: "converge r c (en\<lparr>en_Status := st\<rparr>) be w1 = (res, w2)" by (rule prod.exhaust)
    obtain res' w2' where 2: "converge r c en be w1 = (res', w2')" by (rule prod.exhaust)
    have "same_but_status (res, w2) (res', w2')" using converge_status [where st = st and en = en] 1 2 by metis
    with b Inr 1 2 show ?thesis by (simp add: reconcile_object_def same_run_close)
  qed
qed

section \<open>The watch on the intent\<close>

lemma rc_intentPoll_pos [simp]: "0 < rc_intentPoll r"
  by (simp add: rc_intentPoll_def)

lemma first_tick_least:
  assumes "P (t + int k * poll)" and "1 \<le> k" and "k \<le> n" and "0 < poll"
  shows "\<exists>t'. first_tick P poll n t = Some t' \<and> t < t' \<and> t' \<le> t + int k * poll"
  using assms
proof (induction n arbitrary: t k)
  case 0
  then show ?case by simp
next
  case (Suc n)
  show ?case
  proof (cases "P (t + poll)")
    case True
    have "1 * poll \<le> int k * poll" using Suc.prems by (intro mult_right_mono) auto
    with True Suc.prems show ?thesis by simp
  next
    case False
    then have "k \<noteq> 1" using Suc.prems(1) by auto
    then obtain j where j: "k = Suc j" "1 \<le> j" using Suc.prems(2) by (cases k) auto
    have "P (t + poll + int j * poll)" using Suc.prems(1) j by (simp add: algebra_simps)
    from Suc.IH [OF this j(2)] Suc.prems(3,4) j(1) obtain t' where
      "first_tick P poll n (t + poll) = Some t'" "t + poll < t'" "t' \<le> t + poll + int j * poll" by auto
    with False j Suc.prems(4) show ?thesis by (auto simp: algebra_simps)
  qed
qed

text \<open>Behind the last change of the history every reading is the same.\<close>

lemma reply_at_after:
  assumes "sorted (map fst log)" and "log \<noteq> [] \<Longrightarrow> fst (last log) \<le> u" and "u \<le> v"
  shows "reply_at cur log v = reply_at cur log u"
  using assms
proof (induction cur log u rule: reply_at.induct)
  case (1 cur t)
  then show ?case by simp
next
  case (2 cur t0 r log t)
  have "t0 \<le> t"
  proof (cases "log = []")
    case True
    with 2 show ?thesis by simp
  next
    case False
    then have "fst (last log) \<in> set (map fst log)" by simp
    with 2(2) have "t0 \<le> fst (last log)" by auto
    with 2(3) False show ?thesis by simp
  qed
  moreover have "reply_at r log v = reply_at r log t"
  proof (rule "2.IH" [OF \<open>t0 \<le> t\<close>])
    show "sorted (map fst log)" using 2(2) by simp
    show "fst (last log) \<le> t" if "log \<noteq> []" using 2(3) that by simp
    show "t \<le> v" by (rule 2(4))
  qed
  ultimately show ?case using 2(4) by simp
qed

lemma tick_bound_last:
  assumes "0 < poll" and "log \<noteq> []"
  shows "fst (last log) \<le> t + int (tick_bound log t poll) * poll"
proof -
  let ?d = "fst (last log) - t"
  have "?d div poll * poll + ?d mod poll = ?d" by (rule div_mult_mod_eq)
  moreover have "?d mod poll < poll" using assms(1) by simp
  moreover have "(?d div poll + 1) * poll = ?d div poll * poll + poll" by (simp add: algebra_simps)
  ultimately have "?d \<le> (?d div poll + 1) * poll" by linarith
  also have "\<dots> \<le> int (nat (?d div poll) + 2) * poll" using assms(1) by (intro mult_right_mono) auto
  finally show ?thesis using assms(2) by (simp add: tick_bound_def)
qed

lemma cancelOnDesiredChange_tick:
  assumes sorted: "sorted (map fst (rc_history r))"
    and hit: "cancels (rc_Client r) desired (reply_at (Inr en) (rc_history r) (t + int k * rc_intentPoll r))"
    and k: "1 \<le> k"
  shows "\<exists>t'. cancelOnDesiredChange r en desired t = Some t' \<and> t < t' \<and> t' \<le> t + int k * rc_intentPoll r"
proof -
  let ?poll = "rc_intentPoll r" and ?log = "rc_history r"
  let ?P = "\<lambda>u. cancels (rc_Client r) desired (reply_at (Inr en) ?log u)"
  let ?n = "tick_bound ?log t ?poll"
  show ?thesis
  proof (cases "k \<le> ?n")
    case True
    from first_tick_least [where P = ?P, OF hit k True rc_intentPoll_pos] show ?thesis by (simp add: cancelOnDesiredChange_def)
  next
    case False
    have n: "1 \<le> ?n" by (simp add: tick_bound_def)
    have le: "int ?n * ?poll \<le> int k * ?poll"
      using False less_imp_le [OF rc_intentPoll_pos] by (intro mult_right_mono) auto
    have "reply_at (Inr en) ?log (t + int k * ?poll) = reply_at (Inr en) ?log (t + int ?n * ?poll)"
      using le by (intro reply_at_after [OF sorted] tick_bound_last rc_intentPoll_pos) auto
    with hit have "?P (t + int ?n * ?poll)" by simp
    from first_tick_least [where P = ?P, OF this n order.refl rc_intentPoll_pos]
    obtain t' where "cancelOnDesiredChange r en desired t = Some t'" "t < t'" "t' \<le> t + int ?n * ?poll"
      by (auto simp: cancelOnDesiredChange_def)
    moreover from this(3) le have "t' \<le> t + int k * ?poll" by linarith
    ultimately show ?thesis by blast
  qed
qed


section \<open>The provider\<close>

text \<open>
  C29 (safety, eligibility). The provider yields backends only for a node that the inventory has and
  marks as elastic, on the cluster it serves, and assembles them for that entry, with the credentials
  of the operator and the paths of its target cluster.
\<close>

theorem provider_only_eligible:
  assumes "BackendsFor pf p ref c t s = (Inr nb, d, s')"
  shows "(br_Cluster ref = [] \<or> br_Cluster ref = tc_Name (cp_Target p)) \<and>
    (\<exists>iv spec be. cp_Inventory p = Some iv \<and> inv_node iv (br_Node ref) = Some spec \<and> ns_ElasticEligible spec \<and>
       builder_of pf (cp_Build p) (provider_spec p spec) (provider_config p) c t s = (Inr be, d, s') \<and>
       nb = provider_backends (provider_spec p spec) (provider_config p) be)"
  using assms
  by (auto simp: BackendsFor_def pret_def pmap_def Let_def builder_of_def
      split: if_splits option.splits sum.splits prod.splits)

definition lab_provider :: "lab cluster_provider" where
  "lab_provider =
     \<lparr>cp_Target = \<lparr>tc_Name = ''main'', tc_Kubeconfig = ''kube'', tc_TalosConfig = ''talos'', tc_InventoryPath = []\<rparr>,
      cp_Inventory = Some lab_inv, cp_BMCCreds = None, cp_Config = lab_cfg, cp_Build = Some lab_builder\<rparr>"

lemma lab_provider_builds:
  "BackendsFor (lab_platform_on no_ws) lab_provider \<lparr>br_Node = ''node-1'', br_Cluster = []\<rparr> c t s =
   (Inr (provider_backends lab_node (provider_config lab_provider) lab_backends), 0, s)"
  by (simp add: BackendsFor_def lab_provider_def inv_node_def lab_inv_def provider_spec_def pmap_def
      lab_builder_def quiet_def Let_def) (simp add: lab_node_def)

theorem provider_only_eligible_witness:
  "\<exists>iv spec. cp_Inventory lab_provider = Some iv \<and> inv_node iv ''node-1'' = Some spec \<and> ns_ElasticEligible spec"
  using provider_only_eligible [OF lab_provider_builds [of background 0 lab_running]] by auto

definition lab_object :: "string \<Rightarrow> elastic_node" where
  "lab_object desired =
     \<lparr>en_Name = ''node-1'', en_Namespace = ''default'', en_Generation = 1,
      en_Spec = \<lparr>sp_DesiredPower = desired, sp_DesiredReason = [], sp_ClusterRef = []\<rparr>,
      en_Status = \<lparr>st_Phase = [], st_ObservedPower = [], st_NodeReady = False, st_GPURegistered = False,
        st_ObservedGeneration = 0, st_LastTransitionTime = None, st_Conditions = []\<rparr>\<rparr>"

text \<open>A reconciler on the machine of \<open>Lab\<close>; five seconds into the run the intent becomes \<open>On\<close>.\<close>

definition lab_reconciler :: "lab reconciler" where
  "lab_reconciler =
     \<lparr>rc_Client = \<lparr>mg_Get = (\<lambda>_. quiet (Inr (lab_object ''Off''))), mg_UpdateStatus = (\<lambda>_. quiet None),
                   mg_IsNotFound = (\<lambda>_. False), mg_IsConflict = (\<lambda>_. False)\<rparr>,
      rc_Backends = BackendsFor (lab_platform_on no_ws) lab_provider,
      rc_Resync = 0, rc_IntentPoll = 0, rc_MaxConcurrentReconciles = 0, rc_Now = None,
      rc_history = [(5 * Second, Inr (lab_object ''On''))]\<rparr>"


section \<open>The node acted on\<close>

definition acts_elsewhere :: "string \<Rightarrow> event \<Rightarrow> bool" where
  "acts_elsewhere n e =
     (case e of EvCordon m _ \<Rightarrow> m \<noteq> n | EvDrain m _ \<Rightarrow> m \<noteq> n | EvUncordon m _ \<Rightarrow> m \<noteq> n | _ \<Rightarrow> False)"

lemma bookkeeping_acts_elsewhere: "bookkeeping (acts_elsewhere n)"
  by (simp add: bookkeeping_def acts_elsewhere_def)

lemma reading_not_elsewhere: "is_reading x \<Longrightarrow> \<not> acts_elsewhere n x"
  by (cases x) (auto simp: acts_elsewhere_def)

lemma drain_spec_here:
  assumes "drain_spec gate force node endpoint evs steps ok"
  shows "filter (acts_elsewhere node) evs = []"
proof -
  have log: "\<forall>y \<in> set (detached_log gate node). \<not> acts_elsewhere node y"
    by (auto simp: detached_log_def gate_log_def acts_elsewhere_def split: option.splits)
  note polls = readings_of_polls [THEN reading_not_elsewhere]
  from assms show ?thesis
    by (cases rule: drain_spec.cases) (use log polls in \<open>auto simp: filter_empty_conv acts_elsewhere_def\<close>)
qed

lemma wake_spec_here:
  assumes "wake_spec probe gpu node endpoint evs steps ok"
  shows "filter (acts_elsewhere node) evs = []"
proof -
  have polls: "\<forall>x \<in> set evs. \<not> acts_elsewhere node x" if "polled_until ev e evs" "\<forall>r. \<not> acts_elsewhere node (ev r)" for ev e evs
    using polled_until_set [OF that(1)] that(2) by blast
  have waits: "\<forall>x \<in> set evs. \<not> acts_elsewhere node x" if "waited needed ev evs" "\<forall>r. \<not> acts_elsewhere node (ev r)" for needed ev evs
    using waited_set [OF that(1)] that(2) by blast
  have on: "\<forall>x \<in> set a. \<not> acts_elsewhere node x" if "powered_log a" for a
    using that by (auto simp: powered_log_def acts_elsewhere_def)
  from assms show ?thesis
    by (cases rule: wake_spec.cases)
       (auto simp: filter_empty_conv acts_elsewhere_def dest!: polls waits on)
qed

text \<open>
  C30 (functional). The operator cordons, drains and uncordons the Kubernetes node that has the name of
  the object, whatever \<open>kube_node_name\<close> the inventory gives for it; the command line and the HTTP API
  act on \<open>kube_node_name\<close>.
\<close>

theorem operator_acts_on_object_name:
  "case reconcile_object r c en w of (res, w') \<Rightarrow> adds_none (acts_elsewhere (en_Name en)) w w'"
proof -
  obtain res w' where run: "reconcile_object r c en w = (res, w')" by (rule prod.exhaust)
  have "adds_none (acts_elsewhere (en_Name en)) w1 w2"
    if "DrainShutdown c' (en_Name en) deps opts w1 = (out, w2)" for c' deps opts w1 out w2
    using DrainShutdown_trace drain_spec_here that unfolding adds_none_def by (metis surj_pair)
  moreover have "adds_none (acts_elsewhere (en_Name en)) w1 w2"
    if "PowerOn c' (en_Name en) deps opts w1 = (out, w2)" for c' deps opts w1 out w2
    using PowerOn_trace wake_spec_here that unfolding adds_none_def by (metis surj_pair)
  ultimately have "adds_none (acts_elsewhere (en_Name en)) w w'"
    by (intro reconcile_object_adds_none [OF bookkeeping_acts_elsewhere run])
  with run show ?thesis by simp
qed

text \<open>
  A power state that cannot be read does not hold a drain back: the node is drained, and when that
  fails the object is \<open>Blocked\<close>, not in \<open>Error\<close>.
\<close>

lemma unreadable_power_drains:
  assumes "intent_of en = EnPowerOff"
    and "observePower (nb_Power be) c w = ((pw, False), w1)" and "observeNode (nb_Gater be) (en_Name en) c w1 = ((ready, gpu, sched), w2)"
    and "under_watch r c en EnPowerOff (\<lambda>opCtx. DrainShutdown opCtx (en_Name en) (nb_Drain be) (nb_DrainOpts be)) w2 =
      ((Some e, False), w3)"
  shows "converge r c en be w =
    finish r c en PhaseBlocked pw ready gpu (Some (wrap (''drain-shutdown '' @ en_Name en @ '': '') e)) w3"
  using assms by (simp add: converge_def converge_off_def)

end
