(* ===== verification/Http_Client.thy ===== *)
theory Http_Client
  imports Go_Runtime
begin

text \<open>
  What the BMC drivers use of \<^verbatim>\<open>net/http\<close> and \<^verbatim>\<open>net/url\<close>. A request is data; sending it is a call
  into the outside world that fails, or yields the status of the response and what reading its body
  gives. \<open>hl_Check\<close> is the error of \<open>NewRequestWithContext\<close> (a malformed URL), \<open>hl_ParseURL\<close> the URL
  parser of \<^verbatim>\<open>net/url\<close>.
\<close>

record http_out =
  ho_Method :: string
  ho_URL :: string
  ho_Headers :: "(string \<times> string) list"
  ho_BasicAuth :: "(string \<times> string) option"
  ho_Digest :: "(string \<times> string) option"
  ho_Timeout :: duration
  ho_Body :: "string option"

record http_in =
  hi_StatusCode :: int
  hi_Status :: string
  hi_Body :: "err + string"

text \<open>The parts of a parsed URL and its text with the path replaced.\<close>

record url_parts =
  u_Scheme :: string
  u_Host :: string
  u_Path :: string
  u_WithPath :: "string \<Rightarrow> string"

record 'w http_lib =
  hl_ParseURL :: "string \<Rightarrow> err + url_parts"
  hl_Check :: "http_out \<Rightarrow> err option"
  hl_Do :: "http_out \<Rightarrow> ('w, err + http_in) prim"

definition is_2xx :: "int \<Rightarrow> bool" where
  "is_2xx status \<longleftrightarrow> \<not> (status < 200 \<or> status > 299)"

definition http_send :: "'w http_lib \<Rightarrow> http_out \<Rightarrow> ('w, err + http_in) prim" where
  "http_send lib req = (case hl_Check lib req of Some e \<Rightarrow> pret (Inl e) | None \<Rightarrow> hl_Do lib req)"

end
