(* ===== verification/Redfish.thy ===== *)
theory Redfish
  imports Bmc Json Http_Client
begin

text \<open>
  \<^verbatim>\<open>internal/bmc/redfish/redfish.go\<close>: the driver for Redfish BMCs. \<open>GetPowerState\<close> satisfies the
  contract \<open>power_reader\<close>.
\<close>

section \<open>Client\<close>

definition systemPath :: string where
  "systemPath = ''/redfish/v1/Systems/System.Embedded.1''"

definition resetPath :: string where
  "resetPath = systemPath @ ''/Actions/ComputerSystem.Reset''"

definition resetOn :: string where "resetOn = ''On''"
definition resetGracefulShutdown :: string where "resetGracefulShutdown = ''GracefulShutdown''"
definition resetForceOff :: string where "resetForceOff = ''ForceOff''"
definition resetForceRestart :: string where "resetForceRestart = ''ForceRestart''"

record redfish_client =
  rf_BaseURL :: string
  rf_Username :: string
  rf_Password :: string
  rf_Timeout :: duration

definition normalizeBaseURL :: "'w http_lib \<Rightarrow> string \<Rightarrow> string" where
  "normalizeBaseURL lib host =
     (if HasPrefix host ''http://'' \<or> HasPrefix host ''https://'' then
        (case hl_ParseURL lib host of
           Inr parsed \<Rightarrow> u_Scheme parsed @ ''://'' @ u_Host parsed
         | Inl _ \<Rightarrow> host)
      else ''https://'' @ host)"

definition redfish_New :: "'w http_lib \<Rightarrow> string \<Rightarrow> string \<Rightarrow> string \<Rightarrow> redfish_client" where
  "redfish_New lib host username password =
     \<lparr>rf_BaseURL = normalizeBaseURL lib host, rf_Username = username, rf_Password = password,
      rf_Timeout = 10 * Second\<rparr>"

section \<open>Requests\<close>

definition redfish_request :: "redfish_client \<Rightarrow> string \<Rightarrow> string \<Rightarrow> string option \<Rightarrow> http_out" where
  "redfish_request cl method path body =
     \<lparr>ho_Method = method, ho_URL = rf_BaseURL cl @ path,
      ho_Headers = (''Accept'', ''application/json'') #
        (if body \<noteq> None then [(''Content-Type'', ''application/json'')] else []),
      ho_BasicAuth = (if rf_Username cl \<noteq> [] then Some (rf_Username cl, rf_Password cl) else None),
      ho_Digest = None, ho_Timeout = rf_Timeout cl, ho_Body = body\<rparr>"

text \<open>\<open>do\<close>: the body, the status and the transport error.\<close>

definition redfish_do ::
  "'w http_lib \<Rightarrow> redfish_client \<Rightarrow> string \<Rightarrow> string \<Rightarrow> string option \<Rightarrow> ('w, string \<times> int \<times> err option) prim" where
  "redfish_do lib cl method path body =
     pmap (\<lambda>r. case r of
         Inl e \<Rightarrow> ([], 0, Some e)
       | Inr resp \<Rightarrow>
           (case hi_Body resp of
              Inl e \<Rightarrow> ([], hi_StatusCode resp, Some e)
            | Inr b \<Rightarrow> (b, hi_StatusCode resp, None)))
       (http_send lib (redfish_request cl method path body))"

definition redfish_mapReadPowerState :: "string \<Rightarrow> bmc_power" where
  "redfish_mapReadPowerState s = (if s = ''On'' then BmcOn else if s = ''Off'' then BmcOff else BmcUnknown)"

definition redfish_intendedPowerState :: "string \<Rightarrow> bmc_power" where
  "redfish_intendedPowerState resetType =
     (if resetType = resetOn \<or> resetType = resetForceRestart then BmcOn
      else if resetType = resetGracefulShutdown \<or> resetType = resetForceOff then BmcOff
      else BmcUnknown)"

text \<open>\<open>json.Unmarshal\<close> of the ComputerSystem resource into its field \<open>PowerState\<close>.\<close>

definition decode_system :: "string \<Rightarrow> err + string" where
  "decode_system raw =
     (case json_Unmarshal raw of
        Inl e \<Rightarrow> Inl e
      | Inr v \<Rightarrow>
          (case struct_members v of
             Inl e \<Rightarrow> Inl e
           | Inr ms \<Rightarrow> decode_string [] (field_values ''PowerState'' ms)))"

definition redfish_read :: "string \<times> int \<times> err option \<Rightarrow> bmc_result" where
  "redfish_read r =
     (case r of (raw, status, e) \<Rightarrow>
        let failed = (\<lambda>msg. \<lparr>res_OK = False, res_PowerState = BmcUnknown, res_Error = msg, res_Raw = raw\<rparr>)
        in case e of
             Some e \<Rightarrow> failed (Error e)
           | None \<Rightarrow>
               if status < 200 \<or> status > 299 then failed (''redfish GET system: HTTP '' @ int_str status)
               else
                 (case decode_system raw of
                    Inl e \<Rightarrow> failed (''redfish decode system: '' @ Error e)
                  | Inr ps \<Rightarrow>
                      (let state = redfish_mapReadPowerState ps
                       in if state = BmcUnknown
                          then \<lparr>res_OK = False, res_PowerState = state,
                                res_Error = ''redfish unexpected PowerState '' @ Quote ps, res_Raw = raw\<rparr>
                          else \<lparr>res_OK = True, res_PowerState = state, res_Error = [], res_Raw = raw\<rparr>)))"

definition redfish_GetPowerState :: "'w http_lib \<Rightarrow> redfish_client \<Rightarrow> ('w, bmc_result) prim" where
  "redfish_GetPowerState lib cl = pmap redfish_read (redfish_do lib cl ''GET'' systemPath None)"

definition reset_body :: "string \<Rightarrow> string" where
  \<open>reset_body resetType = ''{"ResetType":'' @ Quote resetType @ ''}''\<close>

definition redfish_reset_result :: "string \<Rightarrow> string \<times> int \<times> err option \<Rightarrow> bmc_result" where
  "redfish_reset_result resetType r =
     (case r of (raw, status, e) \<Rightarrow>
        let failed = (\<lambda>msg. \<lparr>res_OK = False, res_PowerState = BmcUnknown, res_Error = msg, res_Raw = raw\<rparr>)
        in case e of
             Some e \<Rightarrow> failed (Error e)
           | None \<Rightarrow>
               if status < 200 \<or> status > 299
               then failed (''redfish reset '' @ resetType @ '': HTTP '' @ int_str status)
               else \<lparr>res_OK = True, res_PowerState = redfish_intendedPowerState resetType,
                     res_Error = [], res_Raw = raw\<rparr>)"

definition redfish_reset :: "'w http_lib \<Rightarrow> redfish_client \<Rightarrow> string \<Rightarrow> ('w, bmc_result) prim" where
  "redfish_reset lib cl resetType =
     pmap (redfish_reset_result resetType) (redfish_do lib cl ''POST'' resetPath (Some (reset_body resetType)))"

definition redfish_adapter :: "'w http_lib \<Rightarrow> redfish_client \<Rightarrow> 'w bmc_adapter" where
  "redfish_adapter lib cl =
     \<lparr>bmc_GetPowerState = redfish_GetPowerState lib cl,
      bmc_PowerOn = redfish_reset lib cl resetOn,
      bmc_SoftOff = redfish_reset lib cl resetGracefulShutdown,
      bmc_HardOff = redfish_reset lib cl resetForceOff,
      bmc_Reset = redfish_reset lib cl resetForceRestart\<rparr>"

definition redfish_factory :: "'w http_lib \<Rightarrow> 'w bmc_factory" where
  "redfish_factory lib host username password = redfish_adapter lib (redfish_New lib host username password)"

section \<open>The contract of the reading\<close>

lemma redfish_read_off:
  "res_PowerState (redfish_read (raw, status, e)) = BmcOff \<longleftrightarrow>
   e = None \<and> is_2xx status \<and> decode_system raw = Inr ''Off''"
  by (auto simp: redfish_read_def redfish_mapReadPowerState_def is_2xx_def Let_def
      split: option.splits sum.splits if_splits)

lemma redfish_read_on:
  "res_PowerState (redfish_read (raw, status, e)) = BmcOn \<longleftrightarrow>
   e = None \<and> is_2xx status \<and> decode_system raw = Inr ''On''"
  by (auto simp: redfish_read_def redfish_mapReadPowerState_def is_2xx_def Let_def
      split: option.splits sum.splits if_splits)

lemma redfish_read_ok:
  "res_OK (redfish_read r) \<longleftrightarrow> res_PowerState (redfish_read r) \<in> {BmcOn, BmcOff}"
  "\<not> res_OK (redfish_read r) \<longleftrightarrow> res_PowerState (redfish_read r) = BmcUnknown"
  by (auto simp: redfish_read_def redfish_mapReadPowerState_def Let_def
      split: option.splits sum.splits if_splits prod.splits)

lemma redfish_GetPowerState_reads:
  "redfish_GetPowerState lib cl c t s = (r, dt, s') \<Longrightarrow> \<exists>q. r = redfish_read q"
  by (auto simp: redfish_GetPowerState_def pmap_def split: prod.splits)

interpretation redfish: power_reader "redfish_GetPowerState lib cl" for lib cl
proof (unfold_locales, goal_cases)
  case (1 c t s r dt s')
  then show ?case using redfish_GetPowerState_reads redfish_read_ok(1) by metis
next
  case (2 c t s r dt s')
  then show ?case using redfish_GetPowerState_reads redfish_read_ok(2) by metis
qed

end
