(* ===== verification/Xml.thy ===== *)
theory Xml
  imports Json
begin

text \<open>
  The part of \<^verbatim>\<open>encoding/xml\<close> the AMT driver uses: the token stream of a strict \<open>Decoder\<close> over start
  and end elements, character data, comments, processing instructions and directives, and
  \<open>DecodeElement\<close> into a string. Names are ASCII names (bytes above 127 are name bytes); a document
  type with an internal subset ends at its first closing bracket. An error and the end of the input
  are both \<open>None\<close>: the callers do not tell them apart.
\<close>

section \<open>Names\<close>

definition is_alpha :: "char \<Rightarrow> bool" where
  "is_alpha c \<longleftrightarrow> (let n = (of_char c :: nat) in 65 \<le> n \<and> n \<le> 90 \<or> 97 \<le> n \<and> n \<le> 122 \<or> 128 \<le> n)"

definition name_start :: "char \<Rightarrow> bool" where
  "name_start c \<longleftrightarrow> is_alpha c \<or> c = CHR ''_'' \<or> c = CHR '':''"

definition name_byte :: "char \<Rightarrow> bool" where
  "name_byte c \<longleftrightarrow> name_start c \<or> is_digit c \<or> c = CHR ''.'' \<or> c = CHR ''-''"

text \<open>A name at the front of the text, and the rest.\<close>

definition xml_name :: "string \<Rightarrow> (string \<times> string) option" where
  "xml_name s =
     (case s of
        [] \<Rightarrow> None
      | c # _ \<Rightarrow> if name_start c then Some (takeWhile name_byte s, dropWhile name_byte s) else None)"

text \<open>The prefix and the local part; a name with a colon at an end is all local.\<close>

definition split_name :: "string \<Rightarrow> (string \<times> string) option" where
  "split_name n =
     (let pre = takeWhile (\<lambda>c. c \<noteq> CHR '':'') n; post = dropWhile (\<lambda>c. c \<noteq> CHR '':'') n
      in if post = [] then Some ([], n)
         else if CHR '':'' \<in> set (tl post) then None
         else if pre = [] \<or> tl post = [] then Some ([], n)
         else Some (pre, tl post))"

definition ns_name :: "string \<Rightarrow> ((string \<times> string) \<times> string) option" where
  "ns_name s =
     (case xml_name s of
        None \<Rightarrow> None
      | Some (n, r) \<Rightarrow> map_option (\<lambda>p. (p, r)) (split_name n))"

section \<open>Character data\<close>

definition xml_entity :: "string \<Rightarrow> string option" where
  "xml_entity e =
     (if e = ''lt'' then Some ''<''
      else if e = ''gt'' then Some ''>''
      else if e = ''amp'' then Some ''&''
      else if e = ''apos'' then Some [CHR 0x27]
      else if e = ''quot'' then Some [CHR 0x22]
      else
        (case e of
           CHR ''#'' # CHR ''x'' # hs \<Rightarrow>
             (if hs \<noteq> [] \<and> list_all (\<lambda>c. hex_val c \<noteq> None) hs
              then (let n = foldl (\<lambda>n c. n * 16 + the (hex_val c)) 0 hs
                    in if n \<le> 0x10FFFF then Some (utf8 n) else None)
              else None)
         | CHR ''#'' # ds \<Rightarrow>
             (if ds \<noteq> [] \<and> list_all is_digit ds \<and> digits_nat ds \<le> 0x10FFFF
              then Some (utf8 (digits_nat ds)) else None)
         | _ \<Rightarrow> None))"

definition xml_char_ok :: "char \<Rightarrow> bool" where
  "xml_char_ok c \<longleftrightarrow> (let n = (of_char c :: nat) in n = 9 \<or> n = 10 \<or> n = 13 \<or> 32 \<le> n)"

text \<open>The value of a piece of text: entities replaced, line ends made \<open>\n\<close>.\<close>

function xml_text :: "string \<Rightarrow> string option" where
  "xml_text [] = Some []"
| "xml_text (c # cs) =
     (if c = CHR ''&'' then
        (let e = takeWhile (\<lambda>x. x \<noteq> CHR '';'') cs; r = dropWhile (\<lambda>x. x \<noteq> CHR '';'') cs
         in if r = [] then None
            else (case xml_entity e of
                    None \<Rightarrow> None
                  | Some u \<Rightarrow> map_option (\<lambda>t. u @ t) (xml_text (tl r))))
      else if c = CHR 0x0D then
        (case cs of
           CHR 0x0A # ds \<Rightarrow> map_option (\<lambda>t. CHR 0x0A # t) (xml_text ds)
         | _ \<Rightarrow> map_option (\<lambda>t. CHR 0x0A # t) (xml_text cs))
      else if \<not> xml_char_ok c then None
      else map_option (\<lambda>t. c # t) (xml_text cs))"
  by pat_completeness auto
termination
proof (relation "measure length", goal_cases)
  case (2 c cs e r u)
  have "length (tl r) < length r" using 2 by simp
  also have "length r \<le> length cs" using 2 by (simp add: length_dropWhile_le)
  finally show ?case by simp
qed auto

definition xml_chardata :: "string \<Rightarrow> string option" where
  "xml_chardata s = (if Contains s '']]>'' then None else xml_text s)"

section \<open>Markup\<close>

text \<open>What follows the first occurrence of \<open>sub\<close>, and what precedes it.\<close>

fun cut_at :: "string \<Rightarrow> string \<Rightarrow> (string \<times> string) option" where
  "cut_at sub [] = (if sub = [] then Some ([], []) else None)"
| "cut_at sub (c # cs) =
     (if HasPrefix (c # cs) sub then Some ([], drop (length sub) (c # cs))
      else map_option (\<lambda>(a, r). (c # a, r)) (cut_at sub cs))"

definition xml_space :: "string \<Rightarrow> string" where
  "xml_space s = dropWhile is_ws s"

text \<open>
  The attributes of a start tag, up to its end: \<open>Some (em, rest)\<close>, where \<open>em\<close> says that the tag
  ended in \<open>/>\<close>. A value is quoted, has no \<open><\<close> and well-formed entities.
\<close>

definition xml_attr :: "string \<Rightarrow> string option" where
  "xml_attr s =
     (case ns_name s of
        None \<Rightarrow> None
      | Some (_, r) \<Rightarrow>
          (case xml_space r of
             [] \<Rightarrow> None
           | e # es \<Rightarrow>
               if e \<noteq> CHR ''='' then None
               else
                 (case xml_space es of
                    [] \<Rightarrow> None
                  | q # qs \<Rightarrow>
                      if q \<noteq> CHR 0x22 \<and> q \<noteq> CHR 0x27 then None
                      else
                        (case cut_at [q] qs of
                           None \<Rightarrow> None
                         | Some (v, r2) \<Rightarrow>
                             if CHR ''<'' \<in> set v \<or> xml_text v = None then None else Some r2))))"

lemma cut_at_length: "cut_at sub s = Some (a, r) \<Longrightarrow> length r \<le> length s"
  by (induction s arbitrary: a) (auto split: if_splits)

lemma xml_space_length: "length (xml_space s) \<le> length s"
  by (simp add: xml_space_def length_dropWhile_le)

lemma xml_space_Cons_length: "xml_space s = c # cs \<Longrightarrow> length cs < length s"
  using xml_space_length [of s] by simp

lemma xml_name_length: "xml_name s = Some (n, r) \<Longrightarrow> length r < length s"
  by (auto simp: xml_name_def name_byte_def le_imp_less_Suc length_dropWhile_le split: list.splits if_splits)

lemma ns_name_length: "ns_name s = Some (p, r) \<Longrightarrow> length r < length s"
  by (auto simp: ns_name_def dest: xml_name_length split: option.splits)

lemma xml_attr_length: "xml_attr s = Some r \<Longrightarrow> length r < length s"
  by (auto simp: xml_attr_def split: option.splits list.splits if_splits
      dest!: ns_name_length xml_space_Cons_length cut_at_length)

function xml_attrs :: "string \<Rightarrow> (bool \<times> string) option" where
  "xml_attrs s =
     (case xml_space s of
        [] \<Rightarrow> None
      | c # cs \<Rightarrow>
          if c = CHR ''>'' then Some (False, cs)
          else if c = CHR ''/'' then
            (case cs of CHR ''>'' # r \<Rightarrow> Some (True, r) | _ \<Rightarrow> None)
          else
            (case xml_attr (c # cs) of
               None \<Rightarrow> None
             | Some r \<Rightarrow> xml_attrs r))"
  by pat_completeness auto
termination
proof (relation "measure length", goal_cases)
  case (2 s c cs r)
  then show ?case using xml_space_length [of s] by (auto dest!: xml_attr_length)
qed auto

declare xml_attrs.simps [simp del]

lemma xml_attrs_length: "xml_attrs s = Some (e, r) \<Longrightarrow> length r < length s"
proof (induction s rule: xml_attrs.induct)
  case (1 s)
  obtain c cs where c: "xml_space s = c # cs"
    using "1.prems" by (cases "xml_space s") (auto simp: xml_attrs.simps [of s])
  note le = xml_space_Cons_length [OF c]
  show ?case
  proof (cases "c = CHR ''>'' \<or> c = CHR ''/''")
    case True
    with "1.prems" c le show ?thesis
      by (auto simp: xml_attrs.simps [of s] split: list.splits char.splits bool.splits if_splits)
  next
    case False
    then obtain t where t: "xml_attr (c # cs) = Some t" "xml_attrs t = Some (e, r)"
      using "1.prems" c by (auto simp: xml_attrs.simps [of s] split: option.splits)
    have "length r < length t" using "1.IH" [OF c] False t by auto
    with xml_attr_length [OF t(1)] le show ?thesis by simp
  qed
qed

text \<open>The pseudo-attribute \<open>param\<close> of the text of an XML declaration (\<open>procInst\<close>).\<close>

function pi_param :: "string \<Rightarrow> string \<Rightarrow> string" where
  "pi_param param s =
     (case cut_at (param @ ''='') s of
        None \<Rightarrow> []
      | Some (_, r) \<Rightarrow>
          (case r of
             [] \<Rightarrow> []
           | c # cs \<Rightarrow>
               if c = CHR 0x27 \<or> c = CHR 0x22
               then (case cut_at [c] cs of None \<Rightarrow> [] | Some (v, _) \<Rightarrow> v)
               else pi_param param cs))"
  by pat_completeness auto
termination
  by (relation "measure (\<lambda>(p, s). length s)") (auto dest!: cut_at_length)

declare pi_param.simps [simp del]

definition pi_ok :: "string \<Rightarrow> string \<Rightarrow> bool" where
  "pi_ok target content =
     (if target = ''xml''
      then (let ver = pi_param ''version'' content; enc = pi_param ''encoding'' content
            in (ver = [] \<or> ver = ''1.0'') \<and> (enc = [] \<or> EqualFold enc ''utf-8''))
      else True)"

section \<open>Tokens\<close>

datatype xtok =
    XStart "string \<times> string"
  | XEmpty "string \<times> string"
  | XEnd "string \<times> string"
  | XText string
  | XMisc

definition xml_end_tag :: "string \<Rightarrow> (xtok \<times> string) option" where
  "xml_end_tag s =
     (case ns_name s of
        None \<Rightarrow> None
      | Some (n, r) \<Rightarrow> (case xml_space r of CHR ''>'' # r2 \<Rightarrow> Some (XEnd n, r2) | _ \<Rightarrow> None))"

definition xml_start_tag :: "string \<Rightarrow> (xtok \<times> string) option" where
  "xml_start_tag s =
     (case ns_name s of
        None \<Rightarrow> None
      | Some (n, r) \<Rightarrow>
          (case xml_attrs r of
             None \<Rightarrow> None
           | Some (em, r2) \<Rightarrow> Some (if em then XEmpty n else XStart n, r2)))"

definition xml_proc_inst :: "string \<Rightarrow> (xtok \<times> string) option" where
  "xml_proc_inst s =
     (case xml_name s of
        None \<Rightarrow> None
      | Some (target, r) \<Rightarrow>
          (case cut_at ''?>'' (xml_space r) of
             None \<Rightarrow> None
           | Some (content, r2) \<Rightarrow> if pi_ok target content then Some (XMisc, r2) else None))"

definition xml_bang :: "string \<Rightarrow> (xtok \<times> string) option" where
  "xml_bang s =
     (if HasPrefix s ''--'' then
        (case cut_at ''--'' (drop 2 s) of
           Some (_, CHR ''>'' # r) \<Rightarrow> Some (XMisc, r)
         | _ \<Rightarrow> None)
      else if HasPrefix s ''[CDATA['' then
        (case cut_at '']]>'' (drop 7 s) of
           Some (v, r) \<Rightarrow> if list_all xml_char_ok v then Some (XText v, r) else None
         | None \<Rightarrow> None)
      else map_option (\<lambda>(_, r). (XMisc, r)) (cut_at ''>'' s))"

definition xml_next :: "string \<Rightarrow> (xtok \<times> string) option" where
  "xml_next s =
     (case s of
        [] \<Rightarrow> None
      | c # cs \<Rightarrow>
          if c \<noteq> CHR ''<'' then
            map_option (\<lambda>t. (XText t, dropWhile (\<lambda>x. x \<noteq> CHR ''<'') s))
              (xml_chardata (takeWhile (\<lambda>x. x \<noteq> CHR ''<'') s))
          else
            (case cs of
               CHR ''/'' # r \<Rightarrow> xml_end_tag r
             | CHR ''?'' # r \<Rightarrow> xml_proc_inst r
             | CHR ''!'' # r \<Rightarrow> xml_bang r
             | _ \<Rightarrow> xml_start_tag cs))"

lemma xml_end_tag_length: "xml_end_tag s = Some (tok, r) \<Longrightarrow> length r < length s"
  by (auto simp: xml_end_tag_def split: option.splits list.splits char.splits bool.splits
      dest!: ns_name_length xml_space_Cons_length)

lemma xml_start_tag_length: "xml_start_tag s = Some (tok, r) \<Longrightarrow> length r < length s"
  by (auto simp: xml_start_tag_def split: option.splits dest!: ns_name_length xml_attrs_length)

lemma xml_proc_inst_length: "xml_proc_inst s = Some (tok, r) \<Longrightarrow> length r < length s"
proof -
  have "length r2 < length s" if "xml_name s = Some (n, r1)" "cut_at p (xml_space r1) = Some (a, r2)" for n r1 p a r2
    using xml_name_length [OF that(1)] cut_at_length [OF that(2)] xml_space_length [of r1] by simp
  then show "xml_proc_inst s = Some (tok, r) \<Longrightarrow> length r < length s"
    by (auto simp: xml_proc_inst_def split: option.splits if_splits)
qed

lemma xml_bang_length: "xml_bang s = Some (tok, r) \<Longrightarrow> length r \<le> length s"
  by (auto simp: xml_bang_def split: option.splits list.splits char.splits bool.splits if_splits
      dest!: cut_at_length)

lemma xml_next_length:
  assumes "xml_next s = Some (tok, r)"
  shows "length r < length s"
proof (cases s)
  case Nil
  with assms show ?thesis by (simp add: xml_next_def)
next
  case (Cons c cs)
  show ?thesis
  proof (cases "c = CHR ''<''")
    case True
    with Cons assms show ?thesis
      by (auto simp: xml_next_def split: list.splits char.splits bool.splits
          dest!: xml_end_tag_length xml_proc_inst_length xml_bang_length xml_start_tag_length)
  next
    case False
    with Cons assms show ?thesis
      by (auto simp: xml_next_def le_imp_less_Suc length_dropWhile_le)
  qed
qed

section \<open>Elements\<close>

text \<open>
  \<open>DecodeElement\<close> into a string, behind the start tag: the character data of the element itself;
  elements inside it are skipped. \<open>open\<close> are the elements opened since, the innermost first.
\<close>

function xml_content :: "(string \<times> string) list \<Rightarrow> (string \<times> string) \<Rightarrow> string \<Rightarrow> string \<Rightarrow> string option" where
  "xml_content opened self acc s =
     (case xml_next s of
        None \<Rightarrow> None
      | Some (tok, r) \<Rightarrow>
          (case tok of
             XStart n \<Rightarrow> xml_content (n # opened) self acc r
           | XEmpty n \<Rightarrow> xml_content opened self acc r
           | XText t \<Rightarrow> xml_content opened self (if opened = [] then acc @ t else acc) r
           | XMisc \<Rightarrow> xml_content opened self acc r
           | XEnd n \<Rightarrow>
               (case opened of
                  [] \<Rightarrow> if n = self then Some acc else None
                | m # ms \<Rightarrow> if n = m then xml_content ms self acc r else None)))"
  by pat_completeness auto
termination
  by (relation "measure (\<lambda>(opened, self, acc, s). length s)") (auto dest: xml_next_length)

declare xml_content.simps [simp del]

text \<open>
  The first element whose local name satisfies \<open>want\<close>, and its content; \<open>opened\<close> are the elements open
  around it. A tag that closes another element than the innermost is an error.
\<close>

function xml_find :: "(string \<Rightarrow> bool) \<Rightarrow> (string \<times> string) list \<Rightarrow> string \<Rightarrow> string option" where
  "xml_find want opened s =
     (case xml_next s of
        None \<Rightarrow> None
      | Some (tok, r) \<Rightarrow>
          (case tok of
             XStart n \<Rightarrow> if want (snd n) then xml_content [] n [] r else xml_find want (n # opened) r
           | XEmpty n \<Rightarrow> if want (snd n) then Some [] else xml_find want opened r
           | XText t \<Rightarrow> xml_find want opened r
           | XMisc \<Rightarrow> xml_find want opened r
           | XEnd n \<Rightarrow>
               (case opened of
                  [] \<Rightarrow> None
                | m # ms \<Rightarrow> if n = m then xml_find want ms r else None)))"
  by pat_completeness auto
termination
  by (relation "measure (\<lambda>(want, opened, s). length s)") (auto dest: xml_next_length)

declare xml_find.simps [simp del]

end
