(* ===== verification/Amt.thy ===== *)
theory Amt
  imports Bmc Xml Http_Client
begin

text \<open>
  \<^verbatim>\<open>internal/bmc/amtwsman/amtwsman.go\<close>: the driver for Intel AMT over WS-Man. A reading is an
  Enumerate followed by a Pull; a power change is one invocation. \<open>GetPowerState\<close> satisfies the
  contract \<open>power_reader\<close>. The random source of \<open>randomHex\<close> and the HTTP client, whose transport answers
  digest challenges with the credentials of the request, are parameters.
\<close>

section \<open>Constants\<close>

definition cim_schema :: string where
  "cim_schema = ''http://schemas.dmtf.org/wbem/wscim/1/cim-schema/2/''"

definition defaultAMTPort :: string where "defaultAMTPort = ''16992''"
definition resourceAssocPower :: string where
  "resourceAssocPower = cim_schema @ ''CIM_AssociatedPowerManagementService''"
definition resourcePowerSvc :: string where
  "resourcePowerSvc = cim_schema @ ''CIM_PowerManagementService''"
definition resourceSystem :: string where
  "resourceSystem = cim_schema @ ''CIM_ComputerSystem''"

definition enumNamespace :: string where
  "enumNamespace = ''http://schemas.xmlsoap.org/ws/2004/09/enumeration''"
definition enumerateAction :: string where "enumerateAction = enumNamespace @ ''/Enumerate''"
definition pullAction :: string where "pullAction = enumNamespace @ ''/Pull''"
definition powerChangeAction :: string where
  "powerChangeAction = resourcePowerSvc @ ''/RequestPowerStateChange''"

definition line :: "string \<Rightarrow> string" where
  "line s = CHR 0x0A # s"

definition powerSvcSelectors :: string where
  \<open>powerSvcSelectors =
     line ''    <w:SelectorSet>'' @
     line ''      <w:Selector Name="CreationClassName">CIM_PowerManagementService</w:Selector>'' @
     line ''      <w:Selector Name="Name">Intel(r) AMT Power Management Service</w:Selector>'' @
     line ''      <w:Selector Name="SystemCreationClassName">CIM_ComputerSystem</w:Selector>'' @
     line ''      <w:Selector Name="SystemName">Intel(r) AMT</w:Selector>'' @
     line ''    </w:SelectorSet>''\<close>

definition amtPowerOn :: int where "amtPowerOn = 2"
definition amtPowerCycle :: int where "amtPowerCycle = 5"
definition amtPowerOffHard :: int where "amtPowerOffHard = 6"
definition amtPowerOffSoft :: int where "amtPowerOffSoft = 8"
definition amtPowerReset :: int where "amtPowerReset = 10"

section \<open>Client\<close>

record amt_client =
  amt_Endpoint :: string
  amt_Username :: string
  amt_Password :: string
  amt_Digest :: "(string \<times> string) option"
  amt_Timeout :: duration

record 'w amt_lib =
  al_HTTP :: "'w http_lib"
  al_Rand :: "nat \<Rightarrow> ('w, err + nat list) prim"

definition normalizeEndpoint :: "'w http_lib \<Rightarrow> string \<Rightarrow> string" where
  "normalizeEndpoint lib host =
     (if HasPrefix host ''http://'' \<or> HasPrefix host ''https://'' then
        (case hl_ParseURL lib host of
           Inl _ \<Rightarrow> host
         | Inr parsed \<Rightarrow>
             if u_Path parsed \<noteq> [] \<and> u_Path parsed \<noteq> ''/'' then host
             else u_WithPath parsed ''/wsman'')
      else if Contains host '':'' then ''http://'' @ host @ ''/wsman''
      else ''http://'' @ host @ '':'' @ defaultAMTPort @ ''/wsman'')"

definition amt_New :: "'w http_lib \<Rightarrow> string \<Rightarrow> string \<Rightarrow> string \<Rightarrow> amt_client" where
  "amt_New lib host username password =
     \<lparr>amt_Endpoint = normalizeEndpoint lib host, amt_Username = username, amt_Password = password,
      amt_Digest = (if username \<noteq> [] then Some (username, password) else None),
      amt_Timeout = 10 * Second\<rparr>"

section \<open>Envelopes\<close>

definition randomHex :: "'w amt_lib \<Rightarrow> nat \<Rightarrow> ('w, string) prim" where
  "randomHex lib n =
     pbind (al_Rand lib n)
       (\<lambda>r c t s. case r of
           Inl _ \<Rightarrow> (int_str t, 0, s)
         | Inr b \<Rightarrow> (hex_EncodeToString b, 0, s))"

definition envelope_text :: "amt_client \<Rightarrow> string \<Rightarrow> string \<Rightarrow> string \<Rightarrow> string \<Rightarrow> string \<Rightarrow> string" where
  \<open>envelope_text cl action resource selectorSet body messageID =
     ''<?xml version="1.0" encoding="UTF-8"?>'' @
     line ''<s:Envelope xmlns:s="http://www.w3.org/2003/05/soap-envelope" xmlns:a="http://schemas.xmlsoap.org/ws/2004/08/addressing" xmlns:w="http://schemas.dmtf.org/wbem/wsman/1/wsman.xsd">'' @
     line ''  <s:Header>'' @
     line ''    <a:To>'' @ amt_Endpoint cl @ ''</a:To>'' @
     line ''    <w:ResourceURI s:mustUnderstand="true">'' @ resource @ ''</w:ResourceURI>'' @
     line ''    <a:ReplyTo><a:Address s:mustUnderstand="true">http://schemas.xmlsoap.org/ws/2004/08/addressing/role/anonymous</a:Address></a:ReplyTo>'' @
     line ''    <a:Action s:mustUnderstand="true">'' @ action @ ''</a:Action>'' @
     line ''    <w:MaxEnvelopeSize s:mustUnderstand="true">153600</w:MaxEnvelopeSize>'' @
     line ''    <a:MessageID>'' @ messageID @ ''</a:MessageID>'' @
     line ''    <w:OperationTimeout>PT60S</w:OperationTimeout>'' @ selectorSet @
     line ''  </s:Header>'' @
     line ''  <s:Body>'' @ body @ ''</s:Body>'' @
     line ''</s:Envelope>''\<close>

definition envelope :: "'w amt_lib \<Rightarrow> amt_client \<Rightarrow> string \<Rightarrow> string \<Rightarrow> string \<Rightarrow> string \<Rightarrow> ('w, string) prim" where
  "envelope lib cl action resource selectorSet body =
     pmap (\<lambda>hex. envelope_text cl action resource selectorSet body (''uuid:'' @ hex)) (randomHex lib 16)"

definition power_change_body :: "int \<Rightarrow> string" where
  \<open>power_change_body powerState =
     ''<p:RequestPowerStateChange_INPUT xmlns:p="'' @ resourcePowerSvc @ ''"><p:PowerState>'' @ int_str powerState @
     ''</p:PowerState><p:ManagedElement><a:Address>http://schemas.xmlsoap.org/ws/2004/08/addressing/role/anonymous</a:Address><a:ReferenceParameters><w:ResourceURI>'' @
     resourceSystem @
     ''</w:ResourceURI><w:SelectorSet><w:Selector Name="CreationClassName">CIM_ComputerSystem</w:Selector><w:Selector Name="Name">ManagedSystem</w:Selector></w:SelectorSet></a:ReferenceParameters></p:ManagedElement></p:RequestPowerStateChange_INPUT>''\<close>

definition powerChangeEnvelope :: "'w amt_lib \<Rightarrow> amt_client \<Rightarrow> int \<Rightarrow> ('w, string) prim" where
  "powerChangeEnvelope lib cl powerState =
     envelope lib cl powerChangeAction resourcePowerSvc powerSvcSelectors (power_change_body powerState)"

section \<open>Replies\<close>

definition parseStringElement :: "string \<Rightarrow> string \<Rightarrow> string option" where
  "parseStringElement raw name = map_option TrimSpace (xml_find (\<lambda>nm. EqualFold nm name) [] raw)"

definition parseIntegerElement :: "string \<Rightarrow> string \<Rightarrow> int option" where
  "parseIntegerElement raw name =
     (case parseStringElement raw name of
        None \<Rightarrow> None
      | Some text \<Rightarrow> Atoi (TrimSpace text))"

definition amt_mapReadPowerState :: "int \<Rightarrow> bmc_power" where
  "amt_mapReadPowerState code =
     (if code = 2 then BmcOn else if code \<in> {6, 8, 13} then BmcOff else BmcUnknown)"

definition amt_intendedPowerState :: "int \<Rightarrow> bmc_power" where
  "amt_intendedPowerState code =
     (if code \<in> {amtPowerOn, amtPowerCycle, amtPowerReset} then BmcOn
      else if code \<in> {amtPowerOffHard, amtPowerOffSoft} then BmcOff
      else BmcUnknown)"

definition ParsePowerState :: "string \<Rightarrow> bmc_power" where
  "ParsePowerState raw =
     (case parseIntegerElement raw ''PowerState'' of
        None \<Rightarrow> BmcUnknown
      | Some value \<Rightarrow> amt_mapReadPowerState value)"

definition parseReturnValue :: "string \<Rightarrow> int option" where
  "parseReturnValue raw = parseIntegerElement raw ''ReturnValue''"

definition readWSManResponse :: "http_in \<Rightarrow> string \<times> err option" where
  "readWSManResponse resp =
     (case hi_Body resp of
        Inl e \<Rightarrow> ([], Some e)
      | Inr b \<Rightarrow>
          if hi_StatusCode resp < 200 \<or> hi_StatusCode resp > 299
          then (b, Some (Err (''amt wsman '' @ hi_Status resp)))
          else (b, None))"

definition setWSManHeaders :: "string \<Rightarrow> string \<Rightarrow> (string \<times> string) list" where
  \<open>setWSManHeaders action resource =
     [(''Content-Type'', ''application/soap+xml;charset="utf-8"''), (''SOAPAction'', action),
      (''ResourceURI'', resource)]\<close>

definition amt_request :: "amt_client \<Rightarrow> string \<Rightarrow> string \<Rightarrow> string \<Rightarrow> http_out" where
  "amt_request cl action resource body =
     \<lparr>ho_Method = ''POST'', ho_URL = amt_Endpoint cl, ho_Headers = setWSManHeaders action resource,
      ho_BasicAuth = None, ho_Digest = amt_Digest cl, ho_Timeout = amt_Timeout cl, ho_Body = Some body\<rparr>"

definition post :: "'w amt_lib \<Rightarrow> amt_client \<Rightarrow> string \<Rightarrow> string \<Rightarrow> string \<Rightarrow> ('w, string \<times> err option) prim" where
  "post lib cl action resource body =
     pmap (\<lambda>r. case r of Inl e \<Rightarrow> ([], Some e) | Inr resp \<Rightarrow> readWSManResponse resp)
       (http_send (al_HTTP lib) (amt_request cl action resource body))"

section \<open>Operations\<close>

definition amt_failed :: "string \<Rightarrow> string \<Rightarrow> bmc_result" where
  "amt_failed msg raw = \<lparr>res_OK = False, res_PowerState = BmcUnknown, res_Error = msg, res_Raw = raw\<rparr>"

definition enumerate_body :: string where
  \<open>enumerate_body = ''<n:Enumerate xmlns:n="'' @ enumNamespace @ ''"/>''\<close>

definition pull_body :: "string \<Rightarrow> string" where
  \<open>pull_body enumCtx =
     ''<n:Pull xmlns:n="'' @ enumNamespace @ ''"><n:EnumerationContext>'' @ enumCtx @
     ''</n:EnumerationContext><n:MaxElements>1</n:MaxElements></n:Pull>''\<close>

definition pull_result :: "string \<times> err option \<Rightarrow> bmc_result" where
  "pull_result r =
     (case r of
        (pullRaw, Some e) \<Rightarrow> amt_failed (Error e) pullRaw
      | (pullRaw, None) \<Rightarrow>
          (let state = ParsePowerState pullRaw
           in if state = BmcUnknown
              then \<lparr>res_OK = False, res_PowerState = state,
                    res_Error = ''power state not found in AMT response'', res_Raw = pullRaw\<rparr>
              else \<lparr>res_OK = True, res_PowerState = state, res_Error = [], res_Raw = pullRaw\<rparr>))"

definition amt_call :: "'w amt_lib \<Rightarrow> amt_client \<Rightarrow> string \<Rightarrow> string \<Rightarrow> ('w, string \<times> err option) prim" where
  "amt_call lib cl action body =
     pbind (envelope lib cl action resourceAssocPower [] body)
       (\<lambda>env. post lib cl action resourceAssocPower env)"

definition amt_GetPowerState :: "'w amt_lib \<Rightarrow> amt_client \<Rightarrow> ('w, bmc_result) prim" where
  "amt_GetPowerState lib cl =
     pbind (amt_call lib cl enumerateAction enumerate_body)
       (\<lambda>r. case r of
           (enumRaw, Some e) \<Rightarrow> pret (amt_failed (Error e) enumRaw)
         | (enumRaw, None) \<Rightarrow>
             (case parseStringElement enumRaw ''EnumerationContext'' of
                None \<Rightarrow> pret (amt_failed ''AMT enumerate returned no context'' enumRaw)
              | Some enumCtx \<Rightarrow> pmap pull_result (amt_call lib cl pullAction (pull_body enumCtx))))"

definition power_change_result :: "int \<Rightarrow> string \<times> err option \<Rightarrow> bmc_result" where
  "power_change_result powerState r =
     (case r of
        (raw, Some e) \<Rightarrow> amt_failed (Error e) raw
      | (raw, None) \<Rightarrow>
          (let accepted = \<lparr>res_OK = True, res_PowerState = amt_intendedPowerState powerState,
                           res_Error = [], res_Raw = raw\<rparr>
           in case parseReturnValue raw of
                Some returnValue \<Rightarrow>
                  if returnValue \<noteq> 0 \<and> returnValue \<noteq> 4096
                  then amt_failed (''AMT power action returned '' @ int_str returnValue) raw
                  else accepted
              | None \<Rightarrow> accepted))"

definition requestPowerChange :: "'w amt_lib \<Rightarrow> amt_client \<Rightarrow> int \<Rightarrow> ('w, bmc_result) prim" where
  "requestPowerChange lib cl powerState =
     pbind (powerChangeEnvelope lib cl powerState)
       (\<lambda>env. pmap (power_change_result powerState) (post lib cl powerChangeAction resourcePowerSvc env))"

definition amt_adapter :: "'w amt_lib \<Rightarrow> amt_client \<Rightarrow> 'w bmc_adapter" where
  "amt_adapter lib cl =
     \<lparr>bmc_GetPowerState = amt_GetPowerState lib cl,
      bmc_PowerOn = requestPowerChange lib cl amtPowerOn,
      bmc_SoftOff = requestPowerChange lib cl amtPowerOffSoft,
      bmc_HardOff = requestPowerChange lib cl amtPowerOffHard,
      bmc_Reset = requestPowerChange lib cl amtPowerReset\<rparr>"

definition amt_factory :: "'w amt_lib \<Rightarrow> 'w bmc_factory" where
  "amt_factory lib host username password =
     amt_adapter lib (amt_New (al_HTTP lib) host username password)"

section \<open>The contract of the reading\<close>

lemma pull_result_ok:
  "res_OK (pull_result r) \<longleftrightarrow> res_PowerState (pull_result r) \<in> {BmcOn, BmcOff}"
  "\<not> res_OK (pull_result r) \<longleftrightarrow> res_PowerState (pull_result r) = BmcUnknown"
  by (auto simp: pull_result_def amt_failed_def ParsePowerState_def amt_mapReadPowerState_def Let_def
      split: option.splits if_splits prod.splits)

text \<open>A reading is a failure or the evaluation of a Pull reply.\<close>

lemma amt_GetPowerState_reads:
  assumes "amt_GetPowerState lib cl c t s = (r, dt, s')"
  shows "(\<exists>msg raw. r = amt_failed msg raw) \<or> (\<exists>q. r = pull_result q)"
  using assms unfolding amt_GetPowerState_def
  by (elim pbindE) (auto simp: pret_def pmap_def split: prod.splits option.splits)

interpretation amt: power_reader "amt_GetPowerState lib cl" for lib cl
proof (unfold_locales, goal_cases)
  case (1 c t s r dt s')
  then show ?case
    using amt_GetPowerState_reads [OF 1(1)] pull_result_ok(1) by (auto simp: amt_failed_def)
next
  case (2 c t s r dt s')
  then show ?case
    using amt_GetPowerState_reads [OF 2(1)] pull_result_ok(2) by (auto simp: amt_failed_def)
qed

end
