(* ===== verification/Drivers.thy ===== *)
theory Drivers
  imports Redfish Amt Inventory
begin

text \<open>
  The BMC drivers together: their registration (the \<open>init\<close> functions of
  \<^verbatim>\<open>internal/bmc/amtwsman\<close> and \<^verbatim>\<open>internal/bmc/redfish\<close>), how it fits the validation of the
  inventory, and what a power reading and a power request tell about the reply of the hardware.
\<close>

section \<open>Registration\<close>

definition amt_init :: "'w amt_lib \<Rightarrow> 'w drivers \<Rightarrow> string + 'w drivers" where
  "amt_init lib d = bmc_Register ''amt'' (Some (amt_factory lib)) d"

definition redfish_init :: "'w http_lib \<Rightarrow> 'w drivers \<Rightarrow> string + 'w drivers" where
  "redfish_init lib d =
     (case bmc_Register ''redfish'' (Some (redfish_factory lib)) d of
        Inl p \<Rightarrow> Inl p
      | Inr d1 \<Rightarrow> bmc_Register ''idrac'' (Some (redfish_factory lib)) d1)"

text \<open>The registry when \<open>main\<close> starts: both packages are imported, each \<open>init\<close> runs once.\<close>

definition registered :: "'w amt_lib \<Rightarrow> 'w http_lib \<Rightarrow> string + 'w drivers" where
  "registered al hl = (case amt_init al Map.empty of Inl p \<Rightarrow> Inl p | Inr d \<Rightarrow> redfish_init hl d)"

lemma registered_drivers:
  "registered al hl =
   Inr [''amt'' \<mapsto> amt_factory al, ''redfish'' \<mapsto> redfish_factory hl, ''idrac'' \<mapsto> redfish_factory hl]"
  by (simp add: registered_def amt_init_def redfish_init_def bmc_Register_def)

text \<open>A reading that keeps the contract of \<open>power_reader\<close>, for every state of the outside world.\<close>

definition honest_reading :: "('w, bmc_result) prim \<Rightarrow> bool" where
  "honest_reading get \<longleftrightarrow>
     (\<forall>c t s. case get c t s of
        (r, _, _) \<Rightarrow> if res_OK r then res_PowerState r \<in> {BmcOn, BmcOff} else res_PowerState r = BmcUnknown)"

context power_reader
begin

lemma honest: "honest_reading get"
  unfolding honest_reading_def
proof (intro allI)
  fix c t s
  obtain r dt s' where g: "get c t s = (r, dt, s')" by (rule prod_cases3)
  show "case get c t s of (r, _, _) \<Rightarrow>
      if res_OK r then res_PowerState r \<in> {BmcOn, BmcOff} else res_PowerState r = BmcUnknown"
    unfolding g using ok_known [OF g] failed_unknown [OF g] by simp
qed

end

lemma factories_honest:
  "honest_reading (bmc_GetPowerState (amt_factory al h u p))"
  "honest_reading (bmc_GetPowerState (redfish_factory hl h u p))"
  by (simp_all add: amt_factory_def amt_adapter_def redfish_factory_def redfish_adapter_def
      amt.honest redfish.honest)

section \<open>Properties\<close>

text \<open>
  C31 (type): an inventory that loads names only BMC types that have a driver. Registration does
  not panic, and for every node of a loaded inventory \<open>bmc.New\<close> yields an adapter, whose readings
  are \<open>on\<close> or \<open>off\<close> exactly when they succeed, whatever the BMC answers.
\<close>

theorem loaded_nodes_have_drivers:
  assumes "Load unmarshal data = Inr iv" and "inv_node iv name = Some node"
  shows "\<exists>d a. registered al hl = Inr d \<and>
           bmc_New d (bmc_Type (ns_BMC node)) (bmc_Host (ns_BMC node)) username password = Inr a \<and>
           honest_reading (bmc_GetPowerState a)"
proof -
  have "valid_node name node"
    using assms by (auto simp: Load_Inr_iff dest: valid_inventory_node)
  then have "bmc_Type (ns_BMC node) \<in> {''amt'', ''idrac'', ''redfish''}" by (simp add: valid_node_def)
  then show ?thesis
    by (auto simp: registered_drivers bmc_New_def factories_honest)
qed

text \<open>An HTTP library without a network, and a source of random bytes.\<close>

definition dead_http :: "unit http_lib" where
  "dead_http =
     \<lparr>hl_ParseURL = (\<lambda>s. Inl (Err ''not a URL'')), hl_Check = (\<lambda>_. None),
      hl_Do = (\<lambda>_ c t s. (Inl (Err ''connection refused''), 0, s))\<rparr>"

definition dead_amt :: "unit amt_lib" where
  "dead_amt = \<lparr>al_HTTP = dead_http, al_Rand = (\<lambda>n c t s. (Inr (replicate n 0), 0, s))\<rparr>"

theorem loaded_nodes_have_drivers_witness:
  "\<exists>d a. registered dead_amt dead_http = Inr d \<and>
     bmc_New d (bmc_Type (ns_BMC lab_node)) (bmc_Host (ns_BMC lab_node)) ''admin'' ''secret'' = Inr a \<and>
     honest_reading (bmc_GetPowerState a)"
  by (rule loaded_nodes_have_drivers [OF lab_inv_loads, where name = "''node-1''"]) (simp add: inv_node_def lab_inv_def)

text \<open>
  C32 (functional): a Redfish reading says \<open>off\<close> exactly when the request went through, the status
  was 2xx and the body is a JSON object whose \<open>PowerState\<close> is the string \<open>Off\<close>. An error, another
  status, broken JSON, a missing field, \<open>PoweringOff\<close> and every other value never read as off.
\<close>

theorem redfish_off_iff:
  "case redfish_GetPowerState lib cl c t s of
     (r, dt, s') \<Rightarrow>
       res_PowerState r = BmcOff \<longleftrightarrow>
       (\<exists>resp body.
          http_send lib (redfish_request cl ''GET'' systemPath None) c t s = (Inr resp, dt, s') \<and>
          hi_Body resp = Inr body \<and> is_2xx (hi_StatusCode resp) \<and> decode_system body = Inr ''Off'')"
  by (auto simp: redfish_GetPowerState_def redfish_do_def pmap_def redfish_read_off split: prod.splits sum.splits)

text \<open>
  C33 (error): an AMT power request succeeds exactly when the exchange did (2xx, body read) and the
  reply has no \<open>ReturnValue\<close> that reads as a number other than 0 and 4096. A reply that is not XML,
  or has no \<open>ReturnValue\<close> at all, counts as an accepted request. A failed request reports the
  state \<open>unknown\<close>.
\<close>

theorem amt_request_accepted_iff:
  "case powerChangeEnvelope lib cl code c t s of
     (env, d1, s1) \<Rightarrow>
       (case post lib cl powerChangeAction resourcePowerSvc env c (t + int d1) s1 of
          ((raw, e), d2, s2) \<Rightarrow>
            (case requestPowerChange lib cl code c t s of
               (r, dt, s') \<Rightarrow>
                 dt = d1 + d2 \<and> s' = s2 \<and> res_Raw r = raw \<and>
                 (res_OK r \<longleftrightarrow> e = None \<and> parseReturnValue raw \<in> {None, Some 0, Some 4096}) \<and>
                 res_PowerState r = (if res_OK r then amt_intendedPowerState code else BmcUnknown)))"
  by (auto simp: requestPowerChange_def pbind_def pmap_def power_change_result_def amt_failed_def Let_def
      split: prod.splits option.splits)

end
