(* ===== verification/Xml_Stream.thy ===== *)
theory Xml_Stream
  imports Xml
begin

text \<open>
  The XML reader on a document that is put together from pieces: what it has read of a piece does
  not depend on the text behind it (\<open>xml_find_append\<close>), a piece of markup without the wanted element
  is skipped (\<open>xml_find_skip\<close>), and so is character data between two tags (\<open>xml_find_text\<close>). The
  pieces of the SOAP envelopes are closed strings, so each is read once by evaluation.
\<close>

section \<open>Reading a longer text\<close>

text \<open>What the tokenizer has read does not depend on the text behind it.\<close>

lemma HasPrefix_append: "HasPrefix s p \<Longrightarrow> HasPrefix (s @ b) p"
  by (auto simp: HasPrefix_iff)

lemma HasPrefix_append_new: "HasPrefix (s @ b) p \<Longrightarrow> \<not> HasPrefix s p \<Longrightarrow> set s \<subseteq> set p"
  by (auto simp: HasPrefix_iff append_eq_append_conv2)

lemma cut_at_here: "HasPrefix s sub \<Longrightarrow> cut_at sub s = Some ([], drop (length sub) s)"
  by (cases s) (auto simp: HasPrefix_def)

lemma cut_at_some_long: "cut_at sub s = Some (a, r) \<Longrightarrow> length sub \<le> length s"
proof (induction s arbitrary: a)
  case (Cons c cs)
  show ?case
  proof (cases "HasPrefix (c # cs) sub")
    case True
    then have "length (c # cs) = length sub + length (drop (length sub) (c # cs))"
      by (metis HasPrefix_def append_take_drop_id length_append)
    then show ?thesis by linarith
  next
    case False
    with Cons.prems have "\<exists>a'. cut_at sub cs = Some (a', r)" by auto
    with Cons.IH show ?thesis by auto
  qed
qed (auto split: if_splits)

lemma cut_at_append: "cut_at sub s = Some (a, r) \<Longrightarrow> cut_at sub (s @ b) = Some (a, r @ b)"
proof (induction s arbitrary: a)
  case (Cons c cs)
  show ?case
  proof (cases "HasPrefix (c # cs) sub")
    case True
    with Cons.prems have r: "a = []" "r = drop (length sub) (c # cs)" by auto
    have "HasPrefix ((c # cs) @ b) sub" using True by (metis HasPrefix_iff append_assoc)
    from cut_at_here [OF this] r cut_at_some_long [OF Cons.prems] show ?thesis
      by (metis drop_append diff_is_0_eq drop0)
  next
    case False
    then obtain a' where a': "cut_at sub cs = Some (a', r)" "a = c # a'"
      using Cons.prems by auto
    have "\<not> HasPrefix (c # cs @ b) sub"
      using False cut_at_some_long [OF a'(1)] by (cases sub) (auto simp: HasPrefix_def)
    then show ?thesis using Cons.IH [OF a'(1)] a' by auto
  qed
qed (auto simp: cut_at_here split: if_splits)

lemma cut_at_split: "cut_at sub s = Some (a, r) \<Longrightarrow> s = a @ sub @ r"
proof (induction s arbitrary: a)
  case (Cons c cs)
  show ?case
  proof (cases "HasPrefix (c # cs) sub")
    case True
    with Cons.prems show ?thesis by (auto simp: HasPrefix_iff)
  next
    case False
    with Cons show ?thesis by auto
  qed
qed (auto split: if_splits)

lemma takeWhile_stop: "dropWhile P s \<noteq> [] \<Longrightarrow> takeWhile P (s @ b) = takeWhile P s"
  by (induction s) auto

lemma dropWhile_stop: "dropWhile P s \<noteq> [] \<Longrightarrow> dropWhile P (s @ b) = dropWhile P s @ b"
  by (induction s) auto

lemma xml_space_append: "xml_space s = c # r \<Longrightarrow> xml_space (s @ b) = c # r @ b"
  by (simp add: xml_space_def dropWhile_stop)

lemma xml_name_append: "xml_name s = Some (n, r) \<Longrightarrow> r \<noteq> [] \<Longrightarrow> xml_name (s @ b) = Some (n, r @ b)"
  by (cases s) (auto simp: xml_name_def takeWhile_stop dropWhile_stop split: if_splits)

lemma ns_name_append: "ns_name s = Some (n, r) \<Longrightarrow> r \<noteq> [] \<Longrightarrow> ns_name (s @ b) = Some (n, r @ b)"
  by (auto simp: ns_name_def xml_name_append split: option.splits)

lemma xml_attr_Some_iff:
  "xml_attr s = Some r \<longleftrightarrow>
   (\<exists>n r1 es q qs v. ns_name s = Some (n, r1) \<and> xml_space r1 = CHR ''='' # es \<and> xml_space es = q # qs \<and>
      (q = CHR 0x22 \<or> q = CHR 0x27) \<and> cut_at [q] qs = Some (v, r) \<and> CHR ''<'' \<notin> set v \<and> xml_text v \<noteq> None)"
  by (auto simp: xml_attr_def split: option.splits list.splits if_splits)

lemma xml_space_nonempty: "xml_space s = c # r \<Longrightarrow> s \<noteq> []"
  by (auto simp: xml_space_def)

lemma xml_attr_append:
  assumes "xml_attr s = Some r"
  shows "xml_attr (s @ b) = Some (r @ b)"
proof -
  obtain n r1 es q qs v where x: "ns_name s = Some (n, r1)" "xml_space r1 = CHR ''='' # es"
    "xml_space es = q # qs" "cut_at [q] qs = Some (v, r)"
    and y: "q = CHR 0x22 \<or> q = CHR 0x27" "CHR ''<'' \<notin> set v" "xml_text v \<noteq> None"
    using assms unfolding xml_attr_Some_iff by blast
  note ns_name_append [OF x(1) xml_space_nonempty [OF x(2)]]
    xml_space_append [OF x(2)] xml_space_append [OF x(3)] cut_at_append [OF x(4)]
  with y show ?thesis unfolding xml_attr_Some_iff by blast
qed

lemma xml_attrs_append: "xml_attrs s = Some (e, r) \<Longrightarrow> xml_attrs (s @ b) = Some (e, r @ b)"
proof (induction s rule: xml_attrs.induct)
  case (1 s)
  obtain c cs where c: "xml_space s = c # cs"
    using "1.prems" by (cases "xml_space s") (auto simp: xml_attrs.simps [of s])
  note cb = xml_space_append [OF c, of b]
  show ?case
  proof (cases "c = CHR ''>'' \<or> c = CHR ''/''")
    case True
    then show ?thesis
    proof
      assume "c = CHR ''>''"
      with "1.prems" c cb show ?thesis by (simp add: xml_attrs.simps [of s] xml_attrs.simps [of "s @ b"])
    next
      assume slash: "c = CHR ''/''"
      then have "cs = CHR ''>'' # r \<and> e"
        using "1.prems" c
        by (auto simp: xml_attrs.simps [of s] split: list.splits char.splits bool.splits)
      with slash cb show ?thesis by (simp add: xml_attrs.simps [of "s @ b"])
    qed
  next
    case False
    then obtain t where t: "xml_attr (c # cs) = Some t" "xml_attrs t = Some (e, r)"
      using "1.prems" c by (auto simp: xml_attrs.simps [of s] split: option.splits)
    have "xml_attrs (t @ b) = Some (e, r @ b)" using "1.IH" [OF c] False t by auto
    with xml_attr_append [OF t(1), of b] False cb show ?thesis
      by (simp add: xml_attrs.simps [of "s @ b"])
  qed
qed

lemma xml_attrs_nonempty: "xml_attrs s = Some p \<Longrightarrow> s \<noteq> []"
  by (auto simp: xml_attrs.simps [of "[]"] xml_space_def)

lemma xml_start_tag_Some_iff:
  "xml_start_tag s = Some (tok, r) \<longleftrightarrow>
   (\<exists>n r1 em. ns_name s = Some (n, r1) \<and> xml_attrs r1 = Some (em, r) \<and> tok = (if em then XEmpty n else XStart n))"
  by (auto simp: xml_start_tag_def split: option.splits)

lemma xml_start_tag_append:
  "xml_start_tag s = Some (tok, r) \<Longrightarrow> xml_start_tag (s @ b) = Some (tok, r @ b)"
  unfolding xml_start_tag_Some_iff
  by (elim exE conjE)
     (intro exI conjI, rule ns_name_append, assumption, erule xml_attrs_nonempty, erule xml_attrs_append)

lemma xml_end_tag_Some_iff:
  "xml_end_tag s = Some (tok, r) \<longleftrightarrow>
   (\<exists>n r1. ns_name s = Some (n, r1) \<and> xml_space r1 = CHR ''>'' # r \<and> tok = XEnd n)"
  by (auto simp: xml_end_tag_def split: option.splits list.splits char.splits bool.splits)

lemma xml_end_tag_append:
  "xml_end_tag s = Some (tok, r) \<Longrightarrow> xml_end_tag (s @ b) = Some (tok, r @ b)"
  unfolding xml_end_tag_Some_iff
  by (elim exE conjE)
     (intro exI conjI, rule ns_name_append, assumption, erule xml_space_nonempty, erule xml_space_append)

lemma xml_proc_inst_Some_iff:
  "xml_proc_inst s = Some (tok, r) \<longleftrightarrow>
   (\<exists>n r1 v. xml_name s = Some (n, r1) \<and> cut_at ''?>'' (xml_space r1) = Some (v, r) \<and> pi_ok n v \<and> tok = XMisc)"
  by (auto simp: xml_proc_inst_def split: option.splits if_splits)

lemma xml_proc_inst_append:
  assumes "xml_proc_inst s = Some (tok, r)"
  shows "xml_proc_inst (s @ b) = Some (tok, r @ b)"
proof -
  obtain n r1 v where x: "xml_name s = Some (n, r1)" "cut_at ''?>'' (xml_space r1) = Some (v, r)"
    "pi_ok n v" "tok = XMisc"
    using assms unfolding xml_proc_inst_Some_iff by blast
  then obtain c cs where c: "xml_space r1 = c # cs" by (cases "xml_space r1") auto
  from x c xml_name_append [OF x(1) xml_space_nonempty [OF c]] xml_space_append [OF c]
    cut_at_append [OF x(2)] show ?thesis
    unfolding xml_proc_inst_Some_iff by (metis append_Cons)
qed

lemma xml_bang_append:
  assumes "xml_bang s = Some (tok, r)"
  shows "xml_bang (s @ b) = Some (tok, r @ b)"
proof -
  have drop_app: "drop k (s @ b) = drop k s @ b" if "HasPrefix s p" "length p = k" for p k
    using that by (auto simp: HasPrefix_iff)
  consider (comment) "HasPrefix s ''--''" | (cdata) "\<not> HasPrefix s ''--''" "HasPrefix s ''[CDATA[''"
    | (directive) "\<not> HasPrefix s ''--''" "\<not> HasPrefix s ''[CDATA[''" by blast
  then show ?thesis
  proof cases
    case comment
    with assms obtain v where "cut_at ''--'' (drop 2 s) = Some (v, CHR ''>'' # r)" "tok = XMisc"
      by (auto simp: xml_bang_def split: option.splits list.splits char.splits bool.splits)
    with comment HasPrefix_append [OF comment] drop_app [OF comment, of 2] show ?thesis
      by (simp add: xml_bang_def cut_at_append)
  next
    case cdata
    then have "\<not> HasPrefix (s @ b) ''--''" by (auto simp: HasPrefix_iff)
    with assms cdata HasPrefix_append [OF cdata(2)] drop_app [OF cdata(2), of 7] show ?thesis
      by (auto simp: xml_bang_def cut_at_append split: option.splits if_splits)
  next
    case directive
    with assms obtain v where v: "cut_at ''>'' s = Some (v, r)" "tok = XMisc"
      by (auto simp: xml_bang_def)
    have "CHR ''>'' \<in> set s" using cut_at_split [OF v(1)] by simp
    then have "\<not> HasPrefix (s @ b) ''--''" "\<not> HasPrefix (s @ b) ''[CDATA[''"
      using directive HasPrefix_append_new by fastforce+
    with v show ?thesis by (simp add: xml_bang_def cut_at_append)
  qed
qed

text \<open>A token that is not character data at the end of the text stays as it is.\<close>

lemma xml_next_append:
  assumes "xml_next s = Some (tok, r)" and "r = [] \<Longrightarrow> hd s = CHR ''<''"
  shows "xml_next (s @ b) = Some (tok, r @ b)"
proof -
  obtain c cs where s: "s = c # cs" using assms(1) by (cases s) (auto simp: xml_next_def)
  show ?thesis
  proof (cases "c = CHR ''<''")
    case True
    then obtain d ds where cs: "cs = d # ds"
      using assms(1) s by (cases cs) (auto simp: xml_next_def xml_start_tag_def ns_name_def xml_name_def)
    consider "d = CHR ''/''" | "d = CHR ''?''" | "d = CHR ''!''" | (other) "d \<notin> {CHR ''/'', CHR ''?'', CHR ''!''}"
      by blast
    then show ?thesis
    proof cases
      case other
      then have "xml_next (CHR ''<'' # d # x) = xml_start_tag (d # x)" for x
        by (auto simp: xml_next_def split: char.splits bool.splits)
      with assms s cs True xml_start_tag_append [of "d # ds" tok r b] show ?thesis by simp
    qed (use assms s cs True in \<open>auto simp: xml_next_def xml_end_tag_append xml_proc_inst_append xml_bang_append\<close>)
  next
    case False
    then have "dropWhile (\<lambda>x. x \<noteq> CHR ''<'') s \<noteq> []"
      using assms s by (force simp: xml_next_def)
    from takeWhile_stop [OF this] dropWhile_stop [OF this] False assms s show ?thesis
      by (auto simp: xml_next_def)
  qed
qed

lemma xml_next_Nil [simp]: "xml_next [] = None"
  by (simp add: xml_next_def)

lemma xml_content_Nil [simp]: "xml_content opened self acc [] = None"
  by (simp add: xml_content.simps)

lemma xml_find_Nil [simp]: "xml_find want opened [] = None"
  by (simp add: xml_find.simps)

text \<open>The kind of a token shows in its first byte.\<close>

lemma xml_next_text_iff:
  "xml_next s = Some (tok, r) \<Longrightarrow> hd s = CHR ''<'' \<or> (\<exists>t. tok = XText t)"
  by (cases s) (auto simp: xml_next_def split: if_splits)

lemma xml_content_append:
  "xml_content opened self acc s = Some v \<Longrightarrow> xml_content opened self acc (s @ b) = Some v"
proof (induction opened self acc s rule: xml_content.induct)
  case (1 opened self acc s)
  obtain tok r where n: "xml_next s = Some (tok, r)"
    using "1.prems" by (cases "xml_next s") (auto simp: xml_content.simps [of _ _ _ s])
  have "xml_next (s @ b) = Some (tok, r @ b)"
    using "1.prems" n xml_next_text_iff [OF n]
    by (intro xml_next_append) (auto simp: xml_content.simps [of _ _ _ s])
  with 1 n show ?case
    by (auto simp: xml_content.simps [of _ _ _ s] xml_content.simps [of _ _ _ "s @ b"]
        split: xtok.splits list.splits if_splits)
qed

lemma xml_find_append:
  "xml_find want opened s = Some v \<Longrightarrow> xml_find want opened (s @ b) = Some v"
proof (induction want opened s rule: xml_find.induct)
  case (1 want opened s)
  obtain tok r where n: "xml_next s = Some (tok, r)"
    using "1.prems" by (cases "xml_next s") (auto simp: xml_find.simps [of _ _ s])
  have "xml_next (s @ b) = Some (tok, r @ b)"
    using "1.prems" n xml_next_text_iff [OF n]
    by (intro xml_next_append) (auto simp: xml_find.simps [of _ _ s])
  with 1 n show ?case
    by (auto simp: xml_find.simps [of _ _ s] xml_find.simps [of _ _ "s @ b"] xml_content_append
        split: xtok.splits list.splits if_splits)
qed

section \<open>Skipping a part of a document\<close>

text \<open>
  \<open>xml_skip\<close> reads a whole piece of markup that has no wanted element and yields the elements
  open behind it; \<open>xml_find\<close> goes on from there.
\<close>

function xml_skip :: "(string \<Rightarrow> bool) \<Rightarrow> (string \<times> string) list \<Rightarrow> string \<Rightarrow> (string \<times> string) list option" where
  "xml_skip want opened s =
     (if s = [] then Some opened
      else
        (case xml_next s of
           None \<Rightarrow> None
         | Some (tok, r) \<Rightarrow>
             (case tok of
                XStart n \<Rightarrow> if want (snd n) then None else xml_skip want (n # opened) r
              | XEmpty n \<Rightarrow> if want (snd n) then None else xml_skip want opened r
              | XText t \<Rightarrow> if r = [] then None else xml_skip want opened r
              | XMisc \<Rightarrow> xml_skip want opened r
              | XEnd n \<Rightarrow>
                  (case opened of
                     [] \<Rightarrow> None
                   | m # ms \<Rightarrow> if n = m then xml_skip want ms r else None))))"
  by pat_completeness auto
termination
  by (relation "measure (\<lambda>(want, opened, s). length s)") (auto dest: xml_next_length)

declare xml_skip.simps [simp del]

lemma xml_find_skip:
  "xml_skip want opened s = Some opened' \<Longrightarrow> xml_find want opened (s @ b) = xml_find want opened' b"
proof (induction want opened s rule: xml_skip.induct)
  case (1 want opened s)
  show ?case
  proof (cases "s = []")
    case True
    with "1.prems" show ?thesis by (simp add: xml_skip.simps)
  next
    case False
    then obtain tok r where n: "xml_next s = Some (tok, r)"
      using "1.prems" by (cases "xml_next s") (auto simp: xml_skip.simps [of _ _ s])
    have "xml_next (s @ b) = Some (tok, r @ b)"
      using "1.prems" False n xml_next_text_iff [OF n]
      by (intro xml_next_append) (auto simp: xml_skip.simps [of _ _ s])
    with 1 n False show ?thesis
      by (auto simp: xml_skip.simps [of _ _ s] xml_find.simps [of _ _ "s @ b"]
          split: xtok.splits list.splits if_splits)
  qed
qed

text \<open>Character data between two tags is skipped.\<close>

definition xml_plain :: "string \<Rightarrow> bool" where
  "xml_plain t \<longleftrightarrow> CHR ''<'' \<notin> set t \<and> xml_chardata t \<noteq> None"

lemma xml_find_text:
  assumes "xml_plain t" and "hd b = CHR ''<''" and "b \<noteq> []"
  shows "xml_find want opened (t @ b) = xml_find want opened b"
proof (cases "t = []")
  case False
  then obtain c cs where t: "t = c # cs" by (cases t) auto
  obtain v where v: "xml_chardata t = Some v" using assms(1) by (auto simp: xml_plain_def)
  obtain b' where b: "b = CHR ''<'' # b'" using assms(2,3) by (cases b) auto
  have "takeWhile (\<lambda>x. x \<noteq> CHR ''<'') (t @ b) = t" "dropWhile (\<lambda>x. x \<noteq> CHR ''<'') (t @ b) = b"
    using assms(1) b by (auto simp: xml_plain_def takeWhile_append dropWhile_append)
  with assms(1) t v have "xml_next (t @ b) = Some (XText v, b)"
    by (auto simp: xml_next_def xml_plain_def)
  then show ?thesis by (subst xml_find.simps) simp
qed simp

end
