(* ===== verification/Sim_Amt.thy ===== *)
theory Sim_Amt
  imports Amt Xml_Stream
begin

text \<open>
  \<^verbatim>\<open>internal/sim/amt.go\<close>: the simulator of an AMT endpoint, and the AMT driver of
  \<^verbatim>\<open>internal/bmc/amtwsman\<close> run against it. A request is handled under the handler's mutex, so a
  handler call is one step on the state.
\<close>

section \<open>Handler\<close>

definition amtEnumerateAction :: string where
  "amtEnumerateAction = ''http://schemas.xmlsoap.org/ws/2004/09/enumeration/Enumerate''"
definition amtPullAction :: string where
  "amtPullAction = ''http://schemas.xmlsoap.org/ws/2004/09/enumeration/Pull''"
definition amtPowerChangeAction :: string where
  "amtPowerChangeAction = ''http://schemas.dmtf.org/wbem/wscim/1/cim-schema/2/CIM_PowerManagementService/RequestPowerStateChange''"

definition amtCodeOn :: int where "amtCodeOn = 2"
definition amtCodeCycle :: int where "amtCodeCycle = 5"
definition amtCodeOffHard :: int where "amtCodeOffHard = 6"
definition amtCodeOffSoft :: int where "amtCodeOffSoft = 8"
definition amtCodeReset :: int where "amtCodeReset = 10"
definition amtReadStateOn :: int where "amtReadStateOn = 2"
definition amtReadStateOff :: int where "amtReadStateOff = 8"

record AMTHandler =
  ah_on :: bool
  ah_realm :: string
  ah_enumToken :: string

definition NewAMTHandler :: "bool \<Rightarrow> string \<Rightarrow> AMTHandler" where
  "NewAMTHandler initiallyOn realm =
     \<lparr>ah_on = initiallyOn, ah_realm = realm, ah_enumToken = ''SIM-ENUM-CTX''\<rparr>"

definition amt_IsOn :: "AMTHandler \<Rightarrow> bool" where
  "amt_IsOn h = ah_on h"

definition amt_SetPower :: "bool \<Rightarrow> AMTHandler \<Rightarrow> AMTHandler" where
  "amt_SetPower on h = h\<lparr>ah_on := on\<rparr>"

text \<open>A request as the server sees it, and its answer.\<close>

record sim_request =
  sq_Path :: string
  sq_Headers :: "(string \<times> string) list"
  sq_Body :: string

record sim_response =
  sp_Status :: int
  sp_Headers :: "(string \<times> string) list"
  sp_Body :: string

text \<open>\<open>Header.Get\<close>: names are compared without regard to case; a missing header is the empty string.\<close>

definition header_Get :: "(string \<times> string) list \<Rightarrow> string \<Rightarrow> string" where
  "header_Get hs name = (case find (\<lambda>(n, _). EqualFold n name) hs of None \<Rightarrow> [] | Some (_, v) \<Rightarrow> v)"

definition enumerateResponse :: "AMTHandler \<Rightarrow> string" where
  \<open>enumerateResponse h =
     ''<?xml version="1.0" encoding="UTF-8"?><a:Envelope xmlns:a="http://www.w3.org/2003/05/soap-envelope" xmlns:g="http://schemas.xmlsoap.org/ws/2004/09/enumeration"><a:Body><g:EnumerateResponse><g:EnumerationContext>'' @
     ah_enumToken h @
     ''</g:EnumerationContext></g:EnumerateResponse></a:Body></a:Envelope>''\<close>

definition pullResponse :: "AMTHandler \<Rightarrow> string" where
  \<open>pullResponse h =
     (let state = (if ah_on h then amtReadStateOn else amtReadStateOff)
      in ''<?xml version="1.0" encoding="UTF-8"?><a:Envelope xmlns:a="http://www.w3.org/2003/05/soap-envelope" xmlns:g="http://schemas.xmlsoap.org/ws/2004/09/enumeration" xmlns:h="http://schemas.dmtf.org/wbem/wscim/1/cim-schema/2/CIM_AssociatedPowerManagementService"><a:Body><g:PullResponse><g:Items><h:CIM_AssociatedPowerManagementService><h:PowerState>'' @
         int_str state @
         ''</h:PowerState></h:CIM_AssociatedPowerManagementService></g:Items><g:EndOfSequence></g:EndOfSequence></g:PullResponse></a:Body></a:Envelope>'')\<close>

text \<open>\<open>DecodeElement\<close> into an \<open>int\<close>: an empty element is 0.\<close>

definition parsePowerStateInput :: "string \<Rightarrow> int option" where
  "parsePowerStateInput raw =
     (case xml_find (\<lambda>nm. nm = ''PowerState'') [] raw of
        None \<Rightarrow> None
      | Some v \<Rightarrow> if v = [] then Some 0 else Atoi (TrimSpace v))"

definition powerChangeResponse :: "string \<Rightarrow> AMTHandler \<Rightarrow> string \<times> AMTHandler" where
  \<open>powerChangeResponse reqBody h =
     (''<?xml version="1.0" encoding="UTF-8"?><a:Envelope xmlns:a="http://www.w3.org/2003/05/soap-envelope" xmlns:g="http://schemas.dmtf.org/wbem/wscim/1/cim-schema/2/CIM_PowerManagementService"><a:Body><g:RequestPowerStateChange_OUTPUT><g:ReturnValue>0</g:ReturnValue></g:RequestPowerStateChange_OUTPUT></a:Body></a:Envelope>'',
      case parsePowerStateInput reqBody of
        None \<Rightarrow> h
      | Some code \<Rightarrow>
          if code \<in> {amtCodeOn, amtCodeCycle, amtCodeReset} then h\<lparr>ah_on := True\<rparr>
          else if code \<in> {amtCodeOffHard, amtCodeOffSoft} then h\<lparr>ah_on := False\<rparr>
          else h)\<close>

definition amt_ServeHTTP :: "sim_request \<Rightarrow> AMTHandler \<Rightarrow> sim_response \<times> AMTHandler" where
  \<open>amt_ServeHTTP r h =
     (if ah_realm h \<noteq> [] \<and> header_Get (sq_Headers r) ''Authorization'' = []
      then (\<lparr>sp_Status = 401,
             sp_Headers = [(''WWW-Authenticate'',
               ''Digest realm='' @ Quote (ah_realm h) @ '', nonce="sim-nonce", qop="auth"'')],
             sp_Body = []\<rparr>, h)
      else
        (let soap = [(''Content-Type'', ''application/soap+xml;charset="utf-8"'')];
             action = header_Get (sq_Headers r) ''SOAPAction''
         in if action = amtEnumerateAction
            then (\<lparr>sp_Status = 200, sp_Headers = soap, sp_Body = enumerateResponse h\<rparr>, h)
            else if action = amtPullAction
            then (\<lparr>sp_Status = 200, sp_Headers = soap, sp_Body = pullResponse h\<rparr>, h)
            else if action = amtPowerChangeAction
            then (case powerChangeResponse (sq_Body r) h of
                    (b, h') \<Rightarrow> (\<lparr>sp_Status = 200, sp_Headers = soap, sp_Body = b\<rparr>, h'))
            else (\<lparr>sp_Status = 400, sp_Headers = soap, sp_Body = []\<rparr>, h)))\<close>

definition amt_mux :: "sim_request \<Rightarrow> AMTHandler \<Rightarrow> sim_response \<times> AMTHandler" where
  "amt_mux r h =
     (if sq_Path r = ''/wsman'' then amt_ServeHTTP r h
      else (\<lparr>sp_Status = 404, sp_Headers = [], sp_Body = ''404 page not found'' @ [CHR 0x0A]\<rparr>, h))"

end
