(* ===== verification/Sim_Amt_Props.thy ===== *)
theory Sim_Amt_Props
  imports Sim_Amt
begin

text \<open>
  The AMT driver against the simulator, over the whole exchange: headers, digest challenge, SOAP
  envelopes, XML replies. \<open>sim_wire\<close> is the network between them: it delivers a request to the
  server under \<open>base\<close>; as the digest transport of the client does, it answers a challenge by
  sending the request once more with an \<open>Authorization\<close> header, when there are credentials.
\<close>

section \<open>The network\<close>

definition received :: "sim_response \<Rightarrow> http_in" where
  "received r = \<lparr>hi_StatusCode = sp_Status r, hi_Status = int_str (sp_Status r), hi_Body = Inr (sp_Body r)\<rparr>"

definition digest_header :: "string \<times> string \<Rightarrow> (string \<times> string) list" where
  "digest_header cr = [(''Authorization'', ''Digest username='' @ Quote (fst cr))]"

definition on_wire :: "string \<Rightarrow> http_out \<Rightarrow> (string \<times> string) list \<Rightarrow> sim_request" where
  "on_wire base req auth =
     \<lparr>sq_Path = drop (length base) (ho_URL req), sq_Headers = auth @ ho_Headers req,
      sq_Body = (case ho_Body req of None \<Rightarrow> [] | Some b \<Rightarrow> b)\<rparr>"

definition sim_wire :: "string \<Rightarrow> http_out \<Rightarrow> (AMTHandler, err + http_in) prim" where
  "sim_wire base req c t h =
     (if \<not> HasPrefix (ho_URL req) base then (Inl (Err ''no such host''), 0, h)
      else
        (case amt_mux (on_wire base req []) h of
           (resp, h1) \<Rightarrow>
             (case ho_Digest req of
                Some cr \<Rightarrow>
                  if sp_Status resp = 401
                  then (case amt_mux (on_wire base req (digest_header cr)) h1 of
                          (resp2, h2) \<Rightarrow> (Inr (received resp2), 0, h2))
                  else (Inr (received resp), 0, h1)
              | None \<Rightarrow> (Inr (received resp), 0, h1))))"

definition sim_lib :: "string \<Rightarrow> (nat \<Rightarrow> time \<Rightarrow> err + nat list) \<Rightarrow> AMTHandler amt_lib" where
  "sim_lib base bytes =
     \<lparr>al_HTTP = \<lparr>hl_ParseURL = (\<lambda>s. Inl (Err ''unused'')), hl_Check = (\<lambda>_. None), hl_Do = sim_wire base\<rparr>,
      al_Rand = (\<lambda>n c t s. (bytes n t, 0, s))\<rparr>"

section \<open>What the simulator reads\<close>

lemma Contains_set: "Contains s sub \<Longrightarrow> set sub \<subseteq> set s"
proof (induction s)
  case (Cons a s)
  then show ?case by (cases "HasPrefix (a # s) sub") (auto simp: HasPrefix_iff, metis Un_iff set_ConsD set_append)
qed simp

lemma xml_text_plain: "\<forall>c \<in> set t. c \<noteq> CHR ''&'' \<and> c \<noteq> CHR 0x0D \<and> xml_char_ok c \<Longrightarrow> xml_text t \<noteq> None"
  by (induction t) auto

lemma xml_plainI:
  assumes "\<And>c. c \<in> set t \<Longrightarrow> c \<notin> {CHR ''<'', CHR ''&'', CHR '']'', CHR 0x0D} \<and> xml_char_ok c"
  shows "xml_plain t"
proof -
  have "CHR ''<'' \<notin> set t" "CHR '']'' \<notin> set t" using assms by blast+
  moreover from this have "\<not> Contains t '']]>''" using Contains_set by fastforce
  moreover have "xml_text t \<noteq> None" using assms by (intro xml_text_plain) blast
  ultimately show ?thesis by (simp add: xml_plain_def xml_chardata_def)
qed

definition id_char :: "char \<Rightarrow> bool" where
  "id_char c \<longleftrightarrow> (let n = (of_char c :: nat) in n = 45 \<or> 48 \<le> n \<and> n \<le> 58 \<or> 97 \<le> n \<and> n \<le> 122)"

lemma id_char_plain: "\<forall>c \<in> set t. id_char c \<Longrightarrow> xml_plain t"
  by (rule xml_plainI) (auto simp: id_char_def xml_char_ok_def Let_def)

lemma digit_id: "id_char (digit n)"
  by (simp add: digit_def id_char_def)

lemma hex_digit_id: "n < 16 \<Longrightarrow> id_char (hex_digit n)"
  by (simp add: hex_digit_def id_char_def)

lemma nat_str_id: "\<forall>c \<in> set (nat_str n). id_char c"
  by (induction n rule: nat_str.induct) (subst nat_str.simps, auto simp: digit_id)

lemma int_str_id: "\<forall>c \<in> set (int_str i). id_char c"
  using nat_str_id by (auto simp: int_str_def id_char_def)

lemma hex_EncodeToString_id: "\<forall>c \<in> set (hex_EncodeToString bs). id_char c"
  by (auto simp: hex_EncodeToString_def hex_digit_id)

text \<open>The pieces of the envelope of a power change around the endpoint and the message id.\<close>

abbreviation wants_state :: "string \<Rightarrow> bool" where
  "wants_state \<equiv> (\<lambda>nm. nm = ''PowerState'')"

definition env_head :: string where
  \<open>env_head =
     ''<?xml version="1.0" encoding="UTF-8"?>'' @
     line ''<s:Envelope xmlns:s="http://www.w3.org/2003/05/soap-envelope" xmlns:a="http://schemas.xmlsoap.org/ws/2004/08/addressing" xmlns:w="http://schemas.dmtf.org/wbem/wsman/1/wsman.xsd">'' @
     line ''  <s:Header>'' @
     line ''    <a:To>''\<close>

definition env_mid :: "string \<Rightarrow> string \<Rightarrow> string" where
  \<open>env_mid action resource =
     ''</a:To>'' @
     line ''    <w:ResourceURI s:mustUnderstand="true">'' @ resource @ ''</w:ResourceURI>'' @
     line ''    <a:ReplyTo><a:Address s:mustUnderstand="true">http://schemas.xmlsoap.org/ws/2004/08/addressing/role/anonymous</a:Address></a:ReplyTo>'' @
     line ''    <a:Action s:mustUnderstand="true">'' @ action @ ''</a:Action>'' @
     line ''    <w:MaxEnvelopeSize s:mustUnderstand="true">153600</w:MaxEnvelopeSize>'' @
     line ''    <a:MessageID>''\<close>

definition env_tail :: "string \<Rightarrow> string" where
  \<open>env_tail selectorSet =
     ''</a:MessageID>'' @
     line ''    <w:OperationTimeout>PT60S</w:OperationTimeout>'' @ selectorSet @
     line ''  </s:Header>'' @
     line ''  <s:Body>''\<close>

definition change_open :: string where
  \<open>change_open = ''<p:RequestPowerStateChange_INPUT xmlns:p="'' @ resourcePowerSvc @ ''">''\<close>

definition state_elem :: "int \<Rightarrow> string" where
  "state_elem code = ''<p:PowerState>'' @ int_str code @ ''</p:PowerState>''"

lemma envelope_text_pieces:
  "envelope_text cl action resource sel body mid =
   env_head @ amt_Endpoint cl @ env_mid action resource @ mid @ env_tail sel @ body @ ''</s:Body>'' @ line ''</s:Envelope>''"
  by (simp add: envelope_text_def env_head_def env_mid_def env_tail_def line_def)

lemma power_change_body_pieces: "\<exists>rest. power_change_body code = change_open @ state_elem code @ rest"
  by (simp add: power_change_body_def change_open_def state_elem_def)

definition open_To :: "(string \<times> string) list" where
  "open_To = [(''a'', ''To''), (''s'', ''Header''), (''s'', ''Envelope'')]"

definition open_Id :: "(string \<times> string) list" where
  "open_Id = [(''a'', ''MessageID''), (''s'', ''Header''), (''s'', ''Envelope'')]"

definition open_Body :: "(string \<times> string) list" where
  "open_Body = [(''s'', ''Body''), (''s'', ''Envelope'')]"

definition open_Change :: "(string \<times> string) list" where
  "open_Change = (''p'', ''RequestPowerStateChange_INPUT'') # open_Body"

lemma skip_head: "xml_skip wants_state [] env_head = Some open_To"
  by code_simp

lemma skip_mid: "xml_skip wants_state open_To (env_mid powerChangeAction resourcePowerSvc) = Some open_Id"
  by code_simp

lemma skip_tail: "xml_skip wants_state open_Id (env_tail powerSvcSelectors) = Some open_Body"
  by code_simp

lemma skip_change: "xml_skip wants_state open_Body change_open = Some open_Change"
  by code_simp

abbreviation amt_codes :: "int set" where
  "amt_codes \<equiv> {amtPowerOn, amtPowerOffSoft, amtPowerOffHard, amtPowerReset}"

lemma find_state:
  "list_all (\<lambda>code. xml_find wants_state open_Change (state_elem code) = Some (int_str code) \<and>
      int_str code \<noteq> [] \<and> Atoi (TrimSpace (int_str code)) = Some code)
     [amtPowerOn, amtPowerOffSoft, amtPowerOffHard, amtPowerReset]"
  by code_simp

lemma piece_starts:
  "env_mid action resource \<noteq> []" "hd (env_mid action resource @ b) = CHR ''<''"
  "env_tail sel \<noteq> []" "hd (env_tail sel @ b) = CHR ''<''"
  by (simp_all add: env_mid_def env_tail_def)

text \<open>Whatever the endpoint and the message id, the simulator reads the requested code.\<close>

lemma sim_reads_change:
  assumes "xml_plain (amt_Endpoint cl)" and "xml_plain mid" and "code \<in> amt_codes"
  shows "parsePowerStateInput
           (envelope_text cl powerChangeAction resourcePowerSvc powerSvcSelectors (power_change_body code) mid) =
         Some code"
proof -
  obtain rest where body: "power_change_body code = change_open @ state_elem code @ rest"
    using power_change_body_pieces by blast
  have code: "xml_find wants_state open_Change (state_elem code) = Some (int_str code)"
    "int_str code \<noteq> []" "Atoi (TrimSpace (int_str code)) = Some code"
    using find_state assms(3) by auto
  have "xml_find wants_state []
          (envelope_text cl powerChangeAction resourcePowerSvc powerSvcSelectors (power_change_body code) mid) =
        Some (int_str code)"
    by (simp add: envelope_text_pieces body xml_find_skip [OF skip_head] xml_find_skip [OF skip_mid]
        xml_find_skip [OF skip_tail] xml_find_skip [OF skip_change] xml_find_append [OF code(1)]
        xml_find_text [OF assms(1)] xml_find_text [OF assms(2)] piece_starts)
  with code show ?thesis by (simp add: parsePowerStateInput_def)
qed

section \<open>What the driver reads\<close>

lemma driver_reads_enumerate:
  assumes "ah_enumToken h = ''SIM-ENUM-CTX''"
  shows "parseStringElement (enumerateResponse h) ''EnumerationContext'' = Some ''SIM-ENUM-CTX''"
proof -
  have "parseStringElement (enumerateResponse (NewAMTHandler True [])) ''EnumerationContext'' = Some ''SIM-ENUM-CTX''"
    by code_simp
  then show ?thesis using assms by (simp add: enumerateResponse_def NewAMTHandler_def)
qed

definition pull_head :: string where
  \<open>pull_head =
     ''<?xml version="1.0" encoding="UTF-8"?><a:Envelope xmlns:a="http://www.w3.org/2003/05/soap-envelope" xmlns:g="http://schemas.xmlsoap.org/ws/2004/09/enumeration" xmlns:h="http://schemas.dmtf.org/wbem/wscim/1/cim-schema/2/CIM_AssociatedPowerManagementService"><a:Body><g:PullResponse><g:Items><h:CIM_AssociatedPowerManagementService>''\<close>

definition pull_elem :: "int \<Rightarrow> string" where
  "pull_elem code = ''<h:PowerState>'' @ int_str code @ ''</h:PowerState>''"

definition open_Item :: "(string \<times> string) list" where
  "open_Item = [(''h'', ''CIM_AssociatedPowerManagementService''), (''g'', ''Items''), (''g'', ''PullResponse''),
     (''a'', ''Body''), (''a'', ''Envelope'')]"

lemma pullResponse_pieces:
  "\<exists>rest. pullResponse h = pull_head @ pull_elem (if ah_on h then 2 else 8) @ rest"
  by (simp add: pullResponse_def pull_head_def pull_elem_def amtReadStateOn_def amtReadStateOff_def)

lemma skip_pull: "xml_skip (\<lambda>nm. EqualFold nm ''PowerState'') [] pull_head = Some open_Item"
  by code_simp

lemma find_pull:
  "xml_find (\<lambda>nm. EqualFold nm ''PowerState'') open_Item (pull_elem 2) = Some ''2''"
  "xml_find (\<lambda>nm. EqualFold nm ''PowerState'') open_Item (pull_elem 8) = Some ''8''"
  by code_simp+

lemma driver_reads_pull:
  "ParsePowerState (pullResponse h) = (if ah_on h then BmcOn else BmcOff)"
proof -
  obtain rest where p: "pullResponse h = pull_head @ pull_elem (if ah_on h then 2 else 8) @ rest"
    using pullResponse_pieces by blast
  have "xml_find (\<lambda>nm. EqualFold nm ''PowerState'') [] (pullResponse h) = Some (if ah_on h then ''2'' else ''8'')"
    by (simp add: p xml_find_skip [OF skip_pull] xml_find_append [OF find_pull(1)] xml_find_append [OF find_pull(2)])
  moreover have "Atoi (TrimSpace (TrimSpace ''2'')) = Some 2" "Atoi (TrimSpace (TrimSpace ''8'')) = Some 8"
    by code_simp+
  ultimately show ?thesis
    by (simp add: ParsePowerState_def parseIntegerElement_def parseStringElement_def amt_mapReadPowerState_def)
qed

lemma driver_reads_return: "parseReturnValue (fst (powerChangeResponse b h)) = Some 0"
proof -
  have "parseReturnValue (fst (powerChangeResponse [] (NewAMTHandler True []))) = Some 0"
    by code_simp
  then show ?thesis by (simp add: powerChangeResponse_def)
qed

section \<open>The exchange\<close>

text \<open>The client can be heard: it speaks to the simulator and has credentials if they are asked for.\<close>

definition can_talk :: "string \<Rightarrow> string \<Rightarrow> amt_client \<Rightarrow> bool" where
  "can_talk base realm cl \<longleftrightarrow>
     amt_Endpoint cl = base @ ''/wsman'' \<and> xml_plain (amt_Endpoint cl) \<and> (realm = [] \<or> amt_Digest cl \<noteq> None)"

lemma soap_action [simp]:
  "header_Get (setWSManHeaders action resource) ''SOAPAction'' = action"
  "header_Get (setWSManHeaders action resource) ''Authorization'' = []"
  "header_Get (digest_header cr @ setWSManHeaders action resource) ''SOAPAction'' = action"
  "header_Get (digest_header cr @ setWSManHeaders action resource) ''Authorization'' \<noteq> []"
  by (simp_all add: header_Get_def setWSManHeaders_def digest_header_def EqualFold_def ToLower_def lower_char_def)

text \<open>The handler's answer once the client is authenticated.\<close>

definition answer :: "string \<Rightarrow> string \<Rightarrow> AMTHandler \<Rightarrow> string \<times> AMTHandler" where
  "answer action body h =
     (if action = amtEnumerateAction then (enumerateResponse h, h)
      else if action = amtPullAction then (pullResponse h, h)
      else powerChangeResponse body h)"

lemma post_reaches_sim:
  assumes "can_talk base (ah_realm h) cl" and "action \<in> {amtEnumerateAction, amtPullAction, amtPowerChangeAction}"
  shows "post (sim_lib base bytes) cl action resource body c t h =
         (case answer action body h of (raw, h') \<Rightarrow> ((raw, None), 0, h'))"
proof -
  have url: "HasPrefix (amt_Endpoint cl) base" "drop (length base) (amt_Endpoint cl) = ''/wsman''"
    using assms(1) by (auto simp: can_talk_def HasPrefix_iff)
  show ?thesis
    using assms url
    by (cases "ah_realm h = []"; cases "amt_Digest cl")
       (auto simp: can_talk_def post_def pmap_def http_send_def sim_lib_def sim_wire_def amt_request_def
         on_wire_def amt_mux_def amt_ServeHTTP_def received_def readWSManResponse_def answer_def Let_def
         split: prod.splits)
qed

lemma actions_agree:
  "enumerateAction = amtEnumerateAction" "pullAction = amtPullAction" "powerChangeAction = amtPowerChangeAction"
  by (simp_all add: enumerateAction_def amtEnumerateAction_def pullAction_def amtPullAction_def
      powerChangeAction_def amtPowerChangeAction_def resourcePowerSvc_def cim_schema_def enumNamespace_def)

lemma actions_differ:
  "amtEnumerateAction \<noteq> amtPullAction" "amtEnumerateAction \<noteq> amtPowerChangeAction" "amtPullAction \<noteq> amtPowerChangeAction"
  by (simp_all add: amtEnumerateAction_def amtPullAction_def amtPowerChangeAction_def)

lemma randomHex_id:
  "\<exists>hex. randomHex (sim_lib base bytes) n c t h = (hex, 0, h) \<and> (\<forall>c \<in> set hex. id_char c)"
  by (auto simp: randomHex_def pbind_def sim_lib_def int_str_id hex_EncodeToString_id split: sum.splits)

lemma envelope_runs:
  "\<exists>mid. xml_plain mid \<and>
     envelope (sim_lib base bytes) cl action resource sel body c t h =
       (envelope_text cl action resource sel body mid, 0, h)"
proof -
  obtain hex where hex: "randomHex (sim_lib base bytes) 16 c t h = (hex, 0, h)" "\<forall>c \<in> set hex. id_char c"
    using randomHex_id by blast
  then have "xml_plain (''uuid:'' @ hex)" by (intro id_char_plain) (auto simp: id_char_def)
  with hex(1) show ?thesis by (intro exI [of _ "''uuid:'' @ hex"]) (simp add: envelope_def pmap_def)
qed

lemma amt_call_reaches_sim:
  assumes "can_talk base (ah_realm h) cl" and "action \<in> {amtEnumerateAction, amtPullAction}"
  shows "amt_call (sim_lib base bytes) cl action body c t h =
         ((fst (answer action [] h), None), 0, h)"
proof -
  obtain mid where env: "envelope (sim_lib base bytes) cl action resourceAssocPower [] body c t h =
      (envelope_text cl action resourceAssocPower [] body mid, 0, h)"
    using envelope_runs by blast
  have "answer action b h = (fst (answer action [] h), h)" for b
    using assms(2) by (cases "action = amtEnumerateAction") (simp_all add: answer_def)
  moreover have "post (sim_lib base bytes) cl action resource b c t h =
      (case answer action b h of (raw, h') \<Rightarrow> ((raw, None), 0, h'))" for resource b t
    using assms(2) by (intro post_reaches_sim [OF assms(1)]) blast
  ultimately have "post (sim_lib base bytes) cl action resource b c t h =
      ((fst (answer action [] h), None), 0, h)" for resource b t
    by (metis (no_types, lifting) case_prod_conv)
  with env show ?thesis by (simp add: amt_call_def pbind_def)
qed

lemma sim_read:
  assumes "can_talk base (ah_realm h) cl" and "ah_enumToken h = ''SIM-ENUM-CTX''"
  shows "amt_GetPowerState (sim_lib base bytes) cl c t h =
         (\<lparr>res_OK = True, res_PowerState = (if ah_on h then BmcOn else BmcOff), res_Error = [],
           res_Raw = pullResponse h\<rparr>, 0, h)"
  using driver_reads_enumerate [OF assms(2)] actions_differ
  by (simp add: amt_GetPowerState_def pbind_def pmap_def amt_call_reaches_sim [OF assms(1)] actions_agree
      answer_def pull_result_def driver_reads_pull)

lemma sim_change:
  assumes "can_talk base (ah_realm h) cl" and "code \<in> amt_codes"
  shows "\<exists>raw. requestPowerChange (sim_lib base bytes) cl code c t h =
         (\<lparr>res_OK = True, res_PowerState = amt_intendedPowerState code, res_Error = [], res_Raw = raw\<rparr>, 0,
          h\<lparr>ah_on := (amt_intendedPowerState code = BmcOn)\<rparr>)"
proof -
  let ?text = "envelope_text cl powerChangeAction resourcePowerSvc powerSvcSelectors (power_change_body code)"
  obtain mid where mid: "xml_plain mid"
    "envelope (sim_lib base bytes) cl powerChangeAction resourcePowerSvc powerSvcSelectors
       (power_change_body code) c t h = (?text mid, 0, h)"
    using envelope_runs by blast
  have "xml_plain (amt_Endpoint cl)" using assms(1) unfolding can_talk_def by blast
  then have read: "parsePowerStateInput (?text mid) = Some code"
    using sim_reads_change mid(1) assms(2) by blast
  obtain raw h' where raw: "powerChangeResponse (?text mid) h = (raw, h')" by (rule prod.exhaust)
  then have "h' = h\<lparr>ah_on := (amt_intendedPowerState code = BmcOn)\<rparr>"
    using read assms(2)
    by (auto simp: powerChangeResponse_def amt_intendedPowerState_def amtPowerOn_def amtPowerOffSoft_def
        amtPowerOffHard_def amtPowerReset_def amtPowerCycle_def amtCodeOn_def amtCodeCycle_def amtCodeReset_def
        amtCodeOffHard_def amtCodeOffSoft_def)
  moreover have "parseReturnValue raw = Some 0"
    using driver_reads_return [of "?text mid" h] raw by simp
  ultimately show ?thesis
    using mid raw actions_differ post_reaches_sim [OF assms(1), of powerChangeAction]
    by (simp add: requestPowerChange_def powerChangeEnvelope_def pbind_def pmap_def actions_agree answer_def
        power_change_result_def)
qed


definition lab_amt_client :: amt_client where
  "lab_amt_client =
     \<lparr>amt_Endpoint = ''http://127.0.0.1:16992/wsman'', amt_Username = ''admin'', amt_Password = ''secret'',
      amt_Digest = Some (''admin'', ''secret''), amt_Timeout = 10 * Second\<rparr>"

lemma lab_can_talk: "can_talk ''http://127.0.0.1:16992'' ''AMT'' lab_amt_client"
  by code_simp


end
