(* ===== verification/Disk.thy ===== *)
theory Disk
  imports Go_Runtime "HOL-Library.AList" "HOL-Library.State_Monad" "HOL-Library.List_Lexorder" "HOL-Library.Char_ord"
begin

text \<open>
  The operating system as \<^verbatim>\<open>internal/store/filestore.go\<close> uses it: the files below the root of the
  store, the system calls on them, the clock and the random source. A computation is a state
  transformer of the \<open>host\<close>. Every system call consumes one entry of \<open>h_faults\<close>: \<open>Some e\<close> makes it
  fail with \<open>e\<close>, \<open>None\<close> lets it go on, and so does an exhausted list. Facts that hold for every
  \<open>h_faults\<close> hold however the disk fails. In the same way \<open>h_delays\<close> is the time that passes
  before each reading of the clock.

  \<open>Data\<close> is a file with its bytes. \<open>Junk\<close> is one whose bytes are not known: it was created empty, or a
  write to it did not finish; nothing but lock and temporary files gets there. \<open>Subdir\<close> is a directory
  that is not empty.
\<close>

section \<open>Files\<close>

datatype content = Data string | Junk | Subdir

text \<open>A path below the root: the directory and the name in it.\<close>

type_synonym path = "string \<times> string"

record host =
  h_dirs :: "string list"
  h_files :: "(path \<times> content) list"
  h_clock :: time
  h_delays :: "nat list"
  h_faults :: "err option list"
  h_random :: "(err + nat list) list"

definition file_at :: "host \<Rightarrow> path \<Rightarrow> content option" where
  "file_at h p = map_of (h_files h) p"

section \<open>System calls\<close>

definition is_a_directory :: err where "is_a_directory = Err ''is a directory''"

definition syscall :: "(host, err option) state" where
  "syscall = State (\<lambda>h. case h_faults h of [] \<Rightarrow> (None, h) | f # fs \<Rightarrow> (f, h\<lparr>h_faults := fs\<rparr>))"

definition put_file :: "path \<Rightarrow> content \<Rightarrow> (host, unit) state" where
  "put_file p f = State (\<lambda>h. ((), h\<lparr>h_files := AList.update p f (h_files h)\<rparr>))"

definition drop_file :: "path \<Rightarrow> (host, unit) state" where
  "drop_file p = State (\<lambda>h. ((), h\<lparr>h_files := AList.delete p (h_files h)\<rparr>))"

definition look :: "path \<Rightarrow> (host, content option) state" where
  "look p = State (\<lambda>h. (file_at h p, h))"

definition has_dir :: "string \<Rightarrow> (host, bool) state" where
  "has_dir d = State (\<lambda>h. (d \<in> set (h_dirs h), h))"

text \<open>\<open>m\<close>, and \<open>k\<close> when it reports no error.\<close>

definition on_success :: "(host, err option) state \<Rightarrow> (host, err option) state \<Rightarrow> (host, err option) state" where
  "on_success m k = do { e \<leftarrow> m; case e of Some e \<Rightarrow> State_Monad.return (Some e) | None \<Rightarrow> k }"

definition os_MkdirAll :: "string \<Rightarrow> (host, err option) state" where
  "os_MkdirAll d = on_success syscall (State (\<lambda>h. (None, h\<lparr>h_dirs := List.insert d (h_dirs h)\<rparr>)))"

definition os_ReadFile :: "path \<Rightarrow> (host, err + content) state" where
  "os_ReadFile p = do {
     e \<leftarrow> syscall;
     f \<leftarrow> look p;
     State_Monad.return
       (case e of
          Some e \<Rightarrow> Inl e
        | None \<Rightarrow>
            (case f of
               None \<Rightarrow> Inl ErrNotExist
             | Some Subdir \<Rightarrow> Inl is_a_directory
             | Some f \<Rightarrow> Inr f))
   }"

text \<open>Opening a file for writing: the directory exists and the name is not a directory.\<close>

definition os_open :: "path \<Rightarrow> (host, err option) state" where
  "os_open p = on_success syscall (do {
     d \<leftarrow> has_dir (fst p);
     f \<leftarrow> look p;
     State_Monad.return
       (if \<not> d then Some ErrNotExist else if f = Some Subdir then Some is_a_directory else None)
   })"

text \<open>\<open>OpenFile(p, O_CREATE|O_RDWR)\<close> of a lock file: it is created empty.\<close>

definition os_OpenLock :: "path \<Rightarrow> (host, err option) state" where
  "os_OpenLock p = on_success (os_open p) (do {
     f \<leftarrow> look p;
     (if f = None then put_file p Junk else State_Monad.return ());
     State_Monad.return None
   })"

text \<open>\<open>WriteFile\<close>: the file is truncated first, so a write that fails leaves it half written.\<close>

definition os_WriteFile :: "path \<Rightarrow> content \<Rightarrow> (host, err option) state" where
  "os_WriteFile p f = on_success (os_open p) (do {
     put_file p Junk;
     on_success syscall (do { put_file p f; State_Monad.return None })
   })"

definition os_Rename :: "path \<Rightarrow> path \<Rightarrow> (host, err option) state" where
  "os_Rename p q = on_success syscall (do {
     f \<leftarrow> look p;
     g \<leftarrow> look q;
     (case f of
        None \<Rightarrow> State_Monad.return (Some ErrNotExist)
      | Some f \<Rightarrow>
          if g = Some Subdir then State_Monad.return (Some is_a_directory)
          else do { drop_file p; put_file q f; State_Monad.return None })
   })"

definition os_Remove :: "path \<Rightarrow> (host, err option) state" where
  "os_Remove p = on_success syscall (do {
     f \<leftarrow> look p;
     (case f of
        None \<Rightarrow> State_Monad.return (Some ErrNotExist)
      | Some Subdir \<Rightarrow> State_Monad.return (Some (Err ''directory not empty''))
      | Some _ \<Rightarrow> do { drop_file p; State_Monad.return None })
   })"

text \<open>The names in a directory in ascending order, each with whether it is a directory itself.\<close>

definition dir_names :: "string \<Rightarrow> host \<Rightarrow> string list" where
  "dir_names d h = sort (remdups (map (snd \<circ> fst) (filter (\<lambda>(p, _). fst p = d) (h_files h))))"

definition os_ReadDir :: "string \<Rightarrow> (host, err + (string \<times> bool) list) state" where
  "os_ReadDir d = do {
     e \<leftarrow> syscall;
     State (\<lambda>h.
       (case e of
          Some e \<Rightarrow> Inl e
        | None \<Rightarrow>
            if d \<notin> set (h_dirs h) then Inl ErrNotExist
            else Inr (map (\<lambda>n. (n, file_at h (d, n) = Some Subdir)) (dir_names d h)), h))
   }"

definition time_Now :: "(host, time) state" where
  "time_Now = State (\<lambda>h.
     case h_delays h of
       [] \<Rightarrow> (h_clock h, h)
     | dt # ds \<Rightarrow> (h_clock h + int dt, h\<lparr>h_clock := h_clock h + int dt, h_delays := ds\<rparr>))"

text \<open>\<open>rand.Read\<close> of the given number of bytes; an exhausted source yields zeros.\<close>

definition rand_Read :: "nat \<Rightarrow> (host, err + nat list) state" where
  "rand_Read n = State (\<lambda>h.
     case h_random h of [] \<Rightarrow> (Inr (replicate n 0), h) | r # rs \<Rightarrow> (r, h\<lparr>h_random := rs\<rparr>))"

end
