(* ===== verification/Store.thy ===== *)
theory Store
  imports Disk Operation_Json
begin

text \<open>
  \<^verbatim>\<open>internal/store/store.go\<close> and \<^verbatim>\<open>internal/store/filestore.go\<close>: the state store on files. One
  document per key and kind; a write goes to a temporary file under an advisory lock and is renamed
  over the document. A file is the text of its document, as \<open>json.MarshalIndent\<close> writes it and
  \<open>json.Unmarshal\<close> reads it.
\<close>

section \<open>Data\<close>

definition StorePowerOn :: string where "StorePowerOn = ''on''"
definition StorePowerOff :: string where "StorePowerOff = ''off''"

record lease =
  ls_Node :: string
  ls_Actor :: string
  ls_LockID :: string
  ls_ExpiresAt :: time

definition encode_lease :: "lease \<Rightarrow> jtree" where
  "encode_lease l =
     JtObj [(''node'', JtStr (ls_Node l)), (''actor'', JtStr (ls_Actor l)),
            (''lock_id'', JtStr (ls_LockID l)), (''expires_at'', JtTime (ls_ExpiresAt l))]"

definition decode_lease :: "jtree \<Rightarrow> lease \<times> err option" where
  "decode_lease v =
     (case tree_members v of
        (ms, e0) \<Rightarrow>
          (let (n, e1) = tree_str [] (tree_field ''node'' ms);
               (a, e2) = tree_str [] (tree_field ''actor'' ms);
               (i, e3) = tree_str [] (tree_field ''lock_id'' ms);
               (t, e4) = tree_time zero_time (tree_field ''expires_at'' ms)
           in (\<lparr>ls_Node = n, ls_Actor = a, ls_LockID = i, ls_ExpiresAt = t\<rparr>,
               first_err e0 (first_err e1 (first_err e2 (first_err e3 e4))))))"

definition decode_desired :: "jtree \<Rightarrow> string \<times> err option" where
  "decode_desired v =
     (case tree_members v of
        (ms, e0) \<Rightarrow> (let (s, e1) = tree_str [] (tree_field ''state'' ms) in (s, first_err e0 e1)))"

text \<open>Into \<open>map[string]any\<close>: the nil map for null, the first of equal keys overwritten by the last.\<close>

fun decode_observed :: "jtree \<Rightarrow> (string \<times> jtree) list option \<times> err option" where
  "decode_observed (JtObj ms) = (Some (sort_key fst (fold (\<lambda>(k, v). AList.update k v) ms [])), None)"
| "decode_observed JtNull = (None, None)"
| "decode_observed _ = (None, Some bad_type)"

section \<open>Documents\<close>

definition safeKey :: "string \<Rightarrow> string" where
  "safeKey key = ReplaceAll (ReplaceAll key ''/'' ''--'') ''..'' ''__''"

definition store_path :: "string \<Rightarrow> string \<Rightarrow> path" where
  "store_path kind key = (kind, safeKey key @ ''.json'')"

definition lock_path :: "path \<Rightarrow> path" where "lock_path p = (fst p, snd p @ ''.lock'')"
definition tmp_path :: "path \<Rightarrow> path" where "tmp_path p = (fst p, snd p @ ''.tmp'')"

definition readJSON :: "string \<Rightarrow> string \<Rightarrow> (jtree \<Rightarrow> 'a \<times> err option) \<Rightarrow> 'a \<Rightarrow> (host, 'a \<times> bool \<times> err option) state" where
  "readJSON kind key decode zero = do {
     r \<leftarrow> os_ReadFile (store_path kind key);
     State_Monad.return
       (case r of
          Inl e \<Rightarrow> if errors_Is e ErrNotExist then (zero, False, None) else (zero, False, Some e)
        | Inr (Data s) \<Rightarrow>
            (case text_tree s of
               None \<Rightarrow> (zero, True, Some bad_text)
             | Some t \<Rightarrow> (case decode t of (v, e) \<Rightarrow> (v, True, e)))
        | Inr _ \<Rightarrow> (zero, True, Some bad_text))
   }"

definition writeJSON :: "string \<Rightarrow> string \<Rightarrow> jtree \<Rightarrow> (host, err option) state" where
  "writeJSON kind key v =
     (let path = store_path kind key
      in on_success (os_OpenLock (lock_path path))
        (on_success syscall
          (if \<not> marshal_ok v then State_Monad.return (Some (Err ''json: unsupported value''))
           else on_success (os_WriteFile (tmp_path path) (Data (tree_text v))) (os_Rename (tmp_path path) path))))"

definition store_dirs :: "string list" where
  "store_dirs = [''desired'', ''observed'', ''locks'', ''operations'', ''last-success'']"

definition NewFileStore :: "(host, err option) state" where
  "NewFileStore = fold (\<lambda>d m. on_success m (os_MkdirAll d)) store_dirs (State_Monad.return None)"

definition randomID :: "(host, err + string) state" where
  "randomID = do {
     r \<leftarrow> rand_Read 8;
     State_Monad.return
       (case r of
          Inl e \<Rightarrow> Inl e
        | Inr bs \<Rightarrow> Inr (hex_EncodeToString bs))
   }"

section \<open>Desired and observed state\<close>

definition GetDesiredPower :: "string \<Rightarrow> (host, string \<times> bool \<times> err option) state" where
  "GetDesiredPower node = readJSON ''desired'' node decode_desired []"

definition SetDesiredPower :: "string \<Rightarrow> string \<Rightarrow> string \<Rightarrow> (host, err option) state" where
  "SetDesiredPower node st actor = do {
     now \<leftarrow> time_Now;
     writeJSON ''desired'' node
       (JtObj [(''actor'', JtStr actor), (''state'', JtStr st), (''ts'', JtTime now)])
   }"

definition GetObservedState :: "string \<Rightarrow> (host, (string \<times> jtree) list option \<times> bool \<times> err option) state" where
  "GetObservedState node = readJSON ''observed'' node decode_observed None"

text \<open>A nil map is \<open>None\<close>; writing to it panics, which is \<open>Inl\<close>.\<close>

definition UpdateObservedState :: "string \<Rightarrow> (string \<times> jtree) list option \<Rightarrow> (host, string + err option) state" where
  "UpdateObservedState node st = do {
     now \<leftarrow> time_Now;
     (case st of
        None \<Rightarrow> State_Monad.return (Inl ''assignment to entry in nil map'')
      | Some m \<Rightarrow> do {
          e \<leftarrow> writeJSON ''observed'' node (JtObj (sort_key fst (AList.update ''updated_at'' (JtTime now) m)));
          State_Monad.return (Inr e)
        })
   }"

section \<open>Locks\<close>

definition zero_lease :: lease where
  "zero_lease = \<lparr>ls_Node = [], ls_Actor = [], ls_LockID = [], ls_ExpiresAt = zero_time\<rparr>"

text \<open>\<open>Inr None\<close> is not found.\<close>

definition GetLock :: "string \<Rightarrow> (host, err + lease option) state" where
  "GetLock node = do {
     (l, found, e) \<leftarrow> readJSON ''locks'' node decode_lease zero_lease;
     (case e of
        Some e \<Rightarrow> State_Monad.return (Inl e)
      | None \<Rightarrow>
          if \<not> found then State_Monad.return (Inr None)
          else do {
            now \<leftarrow> time_Now;
            (if ls_ExpiresAt l < now
             then do { _ \<leftarrow> os_Remove (store_path ''locks'' node); State_Monad.return (Inr None) }
             else State_Monad.return (Inr (Some l)))
          })
   }"

text \<open>
  \<open>AcquireLock\<close> in its two halves: the test whether a lease is in force, and the write of the new
  one. \<open>Inr None\<close> is the answer that the lock is held.
\<close>

definition acquire_test :: "string \<Rightarrow> (host, err + bool) state" where
  "acquire_test node = do {
     r \<leftarrow> GetLock node;
     (case r of
        Inl e \<Rightarrow> State_Monad.return (Inl e)
      | Inr None \<Rightarrow> State_Monad.return (Inr True)
      | Inr (Some l) \<Rightarrow> do { now \<leftarrow> time_Now; State_Monad.return (Inr (\<not> ls_ExpiresAt l > now)) })
   }"

definition acquire_write :: "string \<Rightarrow> string \<Rightarrow> duration \<Rightarrow> (host, err + string option) state" where
  "acquire_write node actor ttl = do {
     r \<leftarrow> randomID;
     (case r of
        Inl e \<Rightarrow> State_Monad.return (Inl e)
      | Inr lockID \<Rightarrow> do {
          now \<leftarrow> time_Now;
          e \<leftarrow> writeJSON ''locks'' node
            (encode_lease \<lparr>ls_Node = node, ls_Actor = actor, ls_LockID = lockID, ls_ExpiresAt = now + ttl\<rparr>);
          State_Monad.return (case e of Some e \<Rightarrow> Inl e | None \<Rightarrow> Inr (Some lockID))
        })
   }"

definition AcquireLock :: "string \<Rightarrow> string \<Rightarrow> duration \<Rightarrow> (host, err + string option) state" where
  "AcquireLock node actor ttl = do {
     r \<leftarrow> acquire_test node;
     (case r of
        Inl e \<Rightarrow> State_Monad.return (Inl e)
      | Inr False \<Rightarrow> State_Monad.return (Inr None)
      | Inr True \<Rightarrow> acquire_write node actor ttl)
   }"

definition RefreshLock :: "string \<Rightarrow> string \<Rightarrow> duration \<Rightarrow> (host, bool \<times> err option) state" where
  "RefreshLock node lockID ttl = do {
     r \<leftarrow> GetLock node;
     (case r of
        Inl e \<Rightarrow> State_Monad.return (False, Some e)
      | Inr None \<Rightarrow> State_Monad.return (False, None)
      | Inr (Some l) \<Rightarrow>
          if ls_LockID l \<noteq> lockID then State_Monad.return (False, None)
          else do {
            now \<leftarrow> time_Now;
            (if ls_ExpiresAt l < now then State_Monad.return (False, None)
             else do {
               now2 \<leftarrow> time_Now;
               e \<leftarrow> writeJSON ''locks'' node (encode_lease (l\<lparr>ls_ExpiresAt := now2 + ttl\<rparr>));
               State_Monad.return (True, e)
             })
          })
   }"

definition ReleaseLock :: "string \<Rightarrow> string \<Rightarrow> (host, err option) state" where
  "ReleaseLock node lockID = do {
     r \<leftarrow> GetLock node;
     (case r of
        Inl e \<Rightarrow> State_Monad.return (Some e)
      | Inr None \<Rightarrow> State_Monad.return None
      | Inr (Some l) \<Rightarrow>
          if ls_LockID l \<noteq> lockID
          then State_Monad.return (Some (Err (''cannot release lock '' @ lockID @ '' on '' @ node @
                 '': held by '' @ ls_LockID l)))
          else os_Remove (store_path ''locks'' node))
   }"

section \<open>Operations\<close>

definition zero_operation :: operation where
  "zero_operation =
     \<lparr>op_ID = [], op_Type = [], op_Node = [], op_State = [], op_Actor = [], op_LockID = [], op_Steps = [],
      op_Error = [], op_CreatedAt = zero_time, op_UpdatedAt = zero_time\<rparr>"

definition CreateOperation :: "operation \<Rightarrow> (host, string \<times> err option) state" where
  "CreateOperation op =
     (if op_ID op = [] then State_Monad.return ([], Some (Err ''operation ID is required''))
      else do {
        e \<leftarrow> writeJSON ''operations'' (op_ID op) (encode_operation op);
        State_Monad.return (op_ID op, e)
      })"

definition GetOperation :: "string \<Rightarrow> (host, err + operation option) state" where
  "GetOperation oid = do {
     (op, found, e) \<leftarrow> readJSON ''operations'' oid decode_operation zero_operation;
     State_Monad.return (case e of Some e \<Rightarrow> Inl e | None \<Rightarrow> Inr (if found then Some op else None))
   }"

definition UpdateOperation :: "string \<Rightarrow> (operation \<Rightarrow> err + operation) \<Rightarrow> (host, err option) state" where
  "UpdateOperation oid mutate = do {
     r \<leftarrow> GetOperation oid;
     (case r of
        Inl e \<Rightarrow> State_Monad.return (Some e)
      | Inr None \<Rightarrow> State_Monad.return (Some ErrNotExist)
      | Inr (Some op) \<Rightarrow>
          (case mutate op of
             Inl e \<Rightarrow> State_Monad.return (Some e)
           | Inr op' \<Rightarrow> do {
               now \<leftarrow> time_Now;
               writeJSON ''operations'' oid (encode_operation (op'\<lparr>op_UpdatedAt := now\<rparr>))
             }))
   }"

definition SetLastSuccess :: "string \<Rightarrow> string \<Rightarrow> time \<Rightarrow> (host, err option) state" where
  "SetLastSuccess node op ts =
     writeJSON ''last-success'' (node @ ''--'' @ op) (JtObj [(''ts'', JtTime ts)])"

section \<open>Listings\<close>

text \<open>An unreadable operation is logged and skipped.\<close>

fun list_operations :: "string \<Rightarrow> (string \<times> bool) list \<Rightarrow> (host, operation list) state" where
  "list_operations st [] = State_Monad.return []"
| "list_operations st ((name, is_dir) # entries) =
     (if is_dir \<or> \<not> HasSuffix name ''.json'' then list_operations st entries
      else do {
        (op, found, e) \<leftarrow> readJSON ''operations'' (TrimSuffix name ''.json'') decode_operation zero_operation;
        ops \<leftarrow> list_operations st entries;
        State_Monad.return
          (if e = None \<and> found \<and> (st = [] \<or> op_State op = st) then op # ops else ops)
      })"

definition ListOperations :: "string \<Rightarrow> (host, err + operation list) state" where
  "ListOperations st = do {
     r \<leftarrow> os_ReadDir ''operations'';
     (case r of
        Inl e \<Rightarrow> State_Monad.return (Inl e)
      | Inr entries \<Rightarrow> do { ops \<leftarrow> list_operations st entries; State_Monad.return (Inr ops) })
   }"

fun list_desired :: "(string \<times> bool) list \<Rightarrow> (string \<times> string) list \<Rightarrow> (host, err + (string \<times> string) list) state" where
  "list_desired [] out = State_Monad.return (Inr out)"
| "list_desired ((name, is_dir) # entries) out =
     (if is_dir \<or> \<not> HasSuffix name ''.json'' then list_desired entries out
      else do {
        (st, found, e) \<leftarrow> GetDesiredPower (TrimSuffix name ''.json'');
        (case e of
           Some e \<Rightarrow> State_Monad.return (Inl e)
         | None \<Rightarrow>
             list_desired entries
               (if found then AList.update (TrimSuffix name ''.json'') st out else out))
      })"

definition ListDesiredPower :: "(host, err + (string \<times> string) list) state" where
  "ListDesiredPower = do {
     r \<leftarrow> os_ReadDir ''desired'';
     (case r of
        Inl e \<Rightarrow> State_Monad.return (Inl e)
      | Inr entries \<Rightarrow> list_desired entries [])
   }"

section \<open>The interface\<close>

text \<open>
  \<open>StateStore\<close>: what the rest of a program would hold of a store. A lock or an operation that is absent is
  \<open>None\<close>; the outcome \<open>Inl\<close> of \<open>UpdateObservedState\<close> is the panic of a nil map.
\<close>

record 'h state_store =
  ss_GetDesiredPower :: "string \<Rightarrow> ('h, string \<times> bool \<times> err option) state"
  ss_SetDesiredPower :: "string \<Rightarrow> string \<Rightarrow> string \<Rightarrow> ('h, err option) state"
  ss_GetObservedState :: "string \<Rightarrow> ('h, (string \<times> jtree) list option \<times> bool \<times> err option) state"
  ss_UpdateObservedState :: "string \<Rightarrow> (string \<times> jtree) list option \<Rightarrow> ('h, string + err option) state"
  ss_AcquireLock :: "string \<Rightarrow> string \<Rightarrow> duration \<Rightarrow> ('h, err + string option) state"
  ss_RefreshLock :: "string \<Rightarrow> string \<Rightarrow> duration \<Rightarrow> ('h, bool \<times> err option) state"
  ss_ReleaseLock :: "string \<Rightarrow> string \<Rightarrow> ('h, err option) state"
  ss_GetLock :: "string \<Rightarrow> ('h, err + lease option) state"
  ss_CreateOperation :: "operation \<Rightarrow> ('h, string \<times> err option) state"
  ss_GetOperation :: "string \<Rightarrow> ('h, err + operation option) state"
  ss_ListOperations :: "string \<Rightarrow> ('h, err + operation list) state"
  ss_UpdateOperation :: "string \<Rightarrow> (operation \<Rightarrow> err + operation) \<Rightarrow> ('h, err option) state"
  ss_SetLastSuccess :: "string \<Rightarrow> string \<Rightarrow> time \<Rightarrow> ('h, err option) state"
  ss_ListDesiredPower :: "('h, err + (string \<times> string) list) state"

definition FileStore :: "host state_store" where
  "FileStore =
     \<lparr>ss_GetDesiredPower = GetDesiredPower, ss_SetDesiredPower = SetDesiredPower,
      ss_GetObservedState = GetObservedState, ss_UpdateObservedState = UpdateObservedState,
      ss_AcquireLock = AcquireLock, ss_RefreshLock = RefreshLock, ss_ReleaseLock = ReleaseLock,
      ss_GetLock = GetLock, ss_CreateOperation = CreateOperation, ss_GetOperation = GetOperation,
      ss_ListOperations = ListOperations, ss_UpdateOperation = UpdateOperation,
      ss_SetLastSuccess = SetLastSuccess, ss_ListDesiredPower = ListDesiredPower\<rparr>"

end
