(* ===== verification/Store_Facts.thy ===== *)
theory Store_Facts
  imports Store
begin

text \<open>
  What the file operations of the store do to the disk, for every sequence of faults: they are
  confined to the files they name, a write is atomic, the keys stay inside their directory, and the
  documents decode to what was encoded. The locale \<open>document_store\<close> is the contract of a store of
  documents, interpreted on \<open>writeJSON\<close>.
\<close>

section \<open>Computations on the host\<close>

lemma run_on_success [simp]:
  "run_state (on_success m k) h =
   (case run_state m h of (Some e, h1) \<Rightarrow> (Some e, h1) | (None, h1) \<Rightarrow> run_state k h1)"
  by (auto simp: on_success_def split: prod.splits option.splits)

lemma file_at_update [simp]:
  "file_at (h\<lparr>h_files := AList.update p f (h_files h)\<rparr>) = (file_at h)(p \<mapsto> f)"
  by (auto simp: file_at_def update_conv')

lemma file_at_delete [simp]:
  "file_at (h\<lparr>h_files := AList.delete p (h_files h)\<rparr>) = (file_at h)(p := None)"
  by (auto simp: file_at_def delete_conv')

lemma file_at_fault [simp]: "file_at (h\<lparr>h_faults := fs\<rparr>) = file_at h"
  by (auto simp: file_at_def)

lemma file_at_time [simp]: "file_at (h\<lparr>h_clock := t, h_delays := ds\<rparr>) = file_at h"
  by (auto simp: file_at_def)

text \<open>What no file operation touches.\<close>

definition same_env :: "host \<Rightarrow> host \<Rightarrow> bool" where
  "same_env h h' \<longleftrightarrow> h_dirs h' = h_dirs h \<and> h_clock h' = h_clock h \<and> h_delays h' = h_delays h \<and> h_random h' = h_random h"

text \<open>A computation that changes no file outside \<open>ps\<close>, and nothing of the environment.\<close>

definition confined :: "path set \<Rightarrow> (host, 'a) state \<Rightarrow> bool" where
  "confined ps m \<longleftrightarrow> state_io_rel (\<lambda>h h'. same_env h h' \<and> (\<forall>p. p \<notin> ps \<longrightarrow> file_at h' p = file_at h p)) m"

lemma confined_bind:
  assumes "confined ps m" and "\<And>a. confined ps (k a)"
  shows "confined ps (State_Monad.bind m k)"
  using assms unfolding confined_def state_io_rel_def same_env_def
  by (auto split: prod.splits) (metis snd_conv)+

lemma confined_prims:
  "confined ps (State_Monad.return a)" "confined ps syscall" "confined ps (look p)" "confined ps (has_dir d)"
  by (auto simp: confined_def state_io_rel_def same_env_def syscall_def look_def has_dir_def split: list.splits)

lemma confined_files:
  "p \<in> ps \<Longrightarrow> confined ps (put_file p f)" "p \<in> ps \<Longrightarrow> confined ps (drop_file p)"
  by (auto simp: confined_def state_io_rel_def same_env_def put_file_def drop_file_def)

lemma confined_on_success:
  "confined ps m \<Longrightarrow> confined ps k \<Longrightarrow> confined ps (on_success m k)"
  unfolding on_success_def by (intro confined_bind) (auto split: option.splits intro: confined_prims)

lemma confined_cond:
  "confined ps m \<Longrightarrow> confined ps n \<Longrightarrow> confined ps (if b then m else n)"
  by simp

lemmas confined_rules = confined_bind confined_prims confined_files confined_on_success confined_cond

lemma confined_os:
  "confined ps (os_ReadFile p)" "confined ps (os_open p)"
  "p \<in> ps \<Longrightarrow> confined ps (os_OpenLock p)" "p \<in> ps \<Longrightarrow> confined ps (os_WriteFile p f)"
  "p \<in> ps \<Longrightarrow> confined ps (os_Remove p)"
  unfolding os_ReadFile_def os_open_def os_OpenLock_def os_WriteFile_def os_Remove_def
  by (auto intro!: confined_rules split: option.splits content.splits)

lemma confinedD:
  assumes "confined ps m" and "run_state m h = (a, h')"
  shows "same_env h h'" and "p \<notin> ps \<Longrightarrow> file_at h' p = file_at h p"
proof -
  from assms have r: "same_env h h' \<and> (\<forall>p. p \<notin> ps \<longrightarrow> file_at h' p = file_at h p)"
    unfolding confined_def by (rule state_io_relD)
  then show "same_env h h'" ..
  show "file_at h' p = file_at h p" if "p \<notin> ps" using r that by blast
qed

section \<open>Writing a document\<close>

text \<open>The file of a document.\<close>

abbreviation Doc :: "jtree \<Rightarrow> content" where
  "Doc v \<equiv> Data (tree_text v)"

definition write_prep :: "path \<Rightarrow> jtree \<Rightarrow> (host, err option) state" where
  "write_prep path v =
     on_success (os_OpenLock (lock_path path))
       (on_success syscall
         (if \<not> marshal_ok v then State_Monad.return (Some (Err ''json: unsupported value''))
          else os_WriteFile (tmp_path path) (Doc v)))"

lemma writeJSON_prep:
  "run_state (writeJSON kind key v) h =
   run_state (on_success (write_prep (store_path kind key) v)
     (os_Rename (tmp_path (store_path kind key)) (store_path kind key))) h"
  by (auto simp: writeJSON_def write_prep_def Let_def split: prod.splits option.splits)

lemma confined_prep: "confined {lock_path p, tmp_path p} (write_prep p v)"
  unfolding write_prep_def by (intro confined_rules confined_os) auto

lemma WriteFile_content:
  "run_state (os_WriteFile p f) h = (None, h') \<Longrightarrow> file_at h' p = Some f"
  by (auto simp: os_WriteFile_def put_file_def split: prod.splits option.splits)

lemma write_prep_content:
  "run_state (write_prep p v) h = (None, h') \<Longrightarrow> file_at h' (tmp_path p) = Some (Doc v) \<and> marshal_ok v"
  by (auto simp: write_prep_def split: prod.splits option.splits if_splits dest: WriteFile_content)

lemma Rename_result:
  assumes "run_state (os_Rename p q) h = (e, h')"
  shows "same_env h h'"
    and "e = None \<Longrightarrow> file_at h' = (file_at h)(p := None, q := file_at h p)"
    and "e \<noteq> None \<Longrightarrow> file_at h' = file_at h"
  using assms
  by (auto simp: os_Rename_def syscall_def look_def drop_file_def put_file_def same_env_def
      file_at_def update_conv' delete_conv' split: list.splits option.splits if_splits)

text \<open>The document files: their names end in \<open>.json\<close>, so no lock and no temporary file is one.\<close>

definition is_document :: "path \<Rightarrow> bool" where
  "is_document p \<longleftrightarrow> HasSuffix (snd p) ''.json''"

lemma HasSuffix_append_iff: "HasSuffix s p \<longleftrightarrow> (\<exists>r. s = r @ p)"
  unfolding HasSuffix_def
  by (metis append_eq_conv_conj append_take_drop_id diff_add_inverse2 le_add2 length_append)

lemma is_document_paths:
  "is_document (store_path kind key)" "\<not> is_document (lock_path p)" "\<not> is_document (tmp_path p)"
  by (auto simp: is_document_def store_path_def lock_path_def tmp_path_def HasSuffix_append_iff
      dest!: arg_cong [of _ _ rev])

lemma same_env_trans: "same_env h h1 \<Longrightarrow> same_env h1 h2 \<Longrightarrow> same_env h h2"
  by (simp add: same_env_def)

text \<open>
  For every sequence of faults: a write that reports success has replaced the document, one that
  reports an error has changed no document.
\<close>

lemma writeJSON_files:
  assumes "run_state (writeJSON kind key v) h = (e, h')"
  shows "same_env h h'"
    and "is_document p \<Longrightarrow>
         file_at h' p = (if e = None \<and> p = store_path kind key then Some (Doc v) else file_at h p)"
    and "e = None \<Longrightarrow> marshal_ok v"
proof -
  let ?p = "store_path kind key"
  obtain e1 h1 where prep: "run_state (write_prep ?p v) h = (e1, h1)" by (rule prod.exhaust)
  have env1: "same_env h h1" using confinedD(1) [OF confined_prep prep] .
  have docs1: "file_at h1 q = file_at h q" if "is_document q" for q
    using confinedD(2) [OF confined_prep prep, of q] that is_document_paths by blast
  have "same_env h h' \<and> (e = None \<longrightarrow> marshal_ok v) \<and>
        (is_document p \<longrightarrow>
         file_at h' p = (if e = None \<and> p = ?p then Some (Doc v) else file_at h p))"
  proof (cases e1)
    case (Some err)
    with assms prep have "e = Some err" "h' = h1" by (auto simp: writeJSON_prep)
    with env1 docs1 show ?thesis by simp
  next
    case None
    with assms prep have ren: "run_state (os_Rename (tmp_path ?p) ?p) h1 = (e, h')"
      by (simp add: writeJSON_prep)
    have tmp: "file_at h1 (tmp_path ?p) = Some (Doc v)" "marshal_ok v"
      using write_prep_content prep None by blast+
    have "p \<noteq> tmp_path ?p" if "is_document p" using that is_document_paths by blast
    with tmp docs1 Rename_result [OF ren] same_env_trans [OF env1 Rename_result(1) [OF ren]] show ?thesis
      by (cases e) auto
  qed
  then show "same_env h h'" and "e = None \<Longrightarrow> marshal_ok v" and
    "is_document p \<Longrightarrow>
     file_at h' p = (if e = None \<and> p = ?p then Some (Doc v) else file_at h p)"
    by auto
qed

text \<open>Without faults, with the directory there and no directory in the way, a write succeeds.\<close>

definition healthy :: "string \<Rightarrow> host \<Rightarrow> bool" where
  "healthy kind h \<longleftrightarrow>
     h_faults h = [] \<and> kind \<in> set (h_dirs h) \<and> (\<forall>name. file_at h (kind, name) \<noteq> Some Subdir)"

lemma writeJSON_healthy:
  assumes "healthy kind h" and "marshal_ok v"
  shows "\<exists>h'. run_state (writeJSON kind key v) h = (None, h') \<and> healthy kind h'"
proof -
  have "lock_path (store_path kind key) \<noteq> tmp_path (store_path kind key)"
    by (auto simp: lock_path_def tmp_path_def)
  then show ?thesis
    using assms
    by (auto simp: healthy_def writeJSON_def Let_def os_OpenLock_def os_open_def os_WriteFile_def os_Rename_def
        syscall_def look_def has_dir_def put_file_def drop_file_def file_at_def update_conv' delete_conv'
        lock_path_def tmp_path_def store_path_def)
qed

section \<open>Keys\<close>

lemma ReplaceAll_gone: "c \<notin> set new \<Longrightarrow> c \<notin> set (ReplaceAll s [c] new)"
  by (induction s "[c]" new rule: ReplaceAll.induct) (auto simp: HasPrefix_def)

lemma ReplaceAll_dots_hd: "ReplaceAll s ''..'' ''__'' = CHR ''.'' # t \<Longrightarrow> \<exists>u. s = CHR ''.'' # u"
  by (cases s) (auto split: if_splits)

lemma ReplaceAll_dots: "\<not> Contains (ReplaceAll s ''..'' ''__'') ''..''"
proof (induction s "''..''" "''__''" rule: ReplaceAll.induct)
  case (2 x xs)
  show ?case
  proof (cases "HasPrefix (x # xs) ''..''")
    case True
    with 2 show ?thesis by (auto simp: HasPrefix_def)
  next
    case False
    moreover have "\<not> HasPrefix (x # ReplaceAll xs ''..'' ''__'') ''..''"
    proof
      assume "HasPrefix (x # ReplaceAll xs ''..'' ''__'') ''..''"
      then obtain t where "x = CHR ''.''" "ReplaceAll xs ''..'' ''__'' = CHR ''.'' # t"
        by (auto simp: HasPrefix_iff)
      with False ReplaceAll_dots_hd show False by (fastforce simp: HasPrefix_iff)
    qed
    ultimately show ?thesis using 2 by simp
  qed
qed simp

lemma ReplaceAll_set: "set (ReplaceAll s old new) \<subseteq> set s \<union> set new"
proof (induction s old new rule: ReplaceAll.induct)
  case (2 x xs old new)
  then show ?case using set_drop_subset [of "length old" "x # xs"] by (auto split: if_splits)
qed simp

lemma safeKey_safe: "CHR ''/'' \<notin> set (safeKey key)" "\<not> Contains (safeKey key) ''..''"
  using ReplaceAll_gone [of "CHR ''/''" "''--''" key] ReplaceAll_set [of "ReplaceAll key ''/'' ''--''" "''..''" "''__''"]
    ReplaceAll_dots
  by (auto simp: safeKey_def)

lemma safeKey_idem [simp]: "safeKey (safeKey key) = safeKey key"
proof -
  have "\<not> Contains (safeKey key) ''/''"
    using safeKey_safe(1) [of key] by (auto simp: Contains_iff)
  then have "ReplaceAll (safeKey key) ''/'' ''--'' = safeKey key" by (simp add: ReplaceAll_no_match)
  then show ?thesis using safeKey_safe(2) by (simp add: safeKey_def ReplaceAll_no_match)
qed

section \<open>The store as a map\<close>

text \<open>
  The contract of a store of documents, whatever its medium: a write that reports success replaces
  what a reader of its slot sees by the view of the new value, a write that reports an error replaces nothing, and neither touches
  another slot.
\<close>

locale document_store =
  fixes put :: "'k \<Rightarrow> 'v \<Rightarrow> ('h, err option) state"
    and slot :: "'k \<Rightarrow> 'p"
    and docs :: "'h \<Rightarrow> 'p \<Rightarrow> 'd option"
    and view :: "'v \<Rightarrow> 'd"
  assumes put_spec:
    "run_state (put k v) h = (e, h') \<Longrightarrow> docs h' = (if e = None then (docs h)(slot k \<mapsto> view v) else docs h)"
begin

fun puts :: "('k \<times> 'v) list \<Rightarrow> 'h \<Rightarrow> err option list \<times> 'h" where
  "puts [] h = ([], h)"
| "puts ((k, v) # kvs) h =
     (case run_state (put k v) h of (e, h1) \<Rightarrow> (case puts kvs h1 of (es, h2) \<Rightarrow> (e # es, h2)))"

definition acked :: "('k \<times> 'v) list \<Rightarrow> err option list \<Rightarrow> ('k \<times> 'v) list" where
  "acked kvs es = map fst (filter (\<lambda>(_, e). e = None) (zip kvs es))"

lemma puts_docs:
  "puts kvs h = (es, h') \<Longrightarrow> docs h' = fold (\<lambda>(k, v) m. m(slot k \<mapsto> view v)) (acked kvs es) (docs h)"
proof (induction kvs arbitrary: h es)
  case (Cons kv kvs)
  obtain k v where kv: "kv = (k, v)" by (rule prod.exhaust)
  obtain e h1 where p: "run_state (put k v) h = (e, h1)" by (rule prod.exhaust)
  obtain es' where q: "puts kvs h1 = (es', h')" and es: "es = e # es'"
    using Cons.prems kv p by (auto split: prod.splits)
  from Cons.IH [OF q] put_spec [OF p] show ?case by (auto simp: kv es acked_def)
qed (auto simp: acked_def)

end

definition document :: "host \<Rightarrow> path \<Rightarrow> content option" where
  "document h p = (if is_document p then file_at h p else None)"

interpretation file_store: document_store
  "\<lambda>(kind, key) v. writeJSON kind key v" "\<lambda>(kind, key). store_path kind key"
  "\<lambda>h p. case document h p of Some (Data s) \<Rightarrow> text_tree s | _ \<Rightarrow> None" plain
proof (unfold_locales, goal_cases)
  case (1 k v h e h')
  obtain kind key where k: "k = (kind, key)" by (rule prod.exhaust)
  with 1 have w: "run_state (writeJSON kind key v) h = (e, h')" by simp
  show ?case
    using writeJSON_files(3) [OF w]
    by (intro ext) (auto simp: k document_def writeJSON_files(2) [OF w] is_document_paths text_round_trip)
qed

section \<open>Leases\<close>

lemma decode_lease_encode: "time_ok (ls_ExpiresAt l) \<Longrightarrow> decode_lease (plain (encode_lease l)) = (l, None)"
  by (simp add: decode_lease_def encode_lease_def fold_names rfc3339_round_trip)

lemma marshal_lease: "marshal_ok (encode_lease l) \<longleftrightarrow> time_ok (ls_ExpiresAt l)"
  by (simp add: encode_lease_def)

lemma lease_text:
  "time_ok (ls_ExpiresAt l) \<Longrightarrow> \<exists>t. text_tree (tree_text (encode_lease l)) = Some t \<and> decode_lease t = (l, None)"
  by (simp add: text_round_trip marshal_lease decode_lease_encode)

end
