(* ===== verification/Store_Props.thy ===== *)
theory Store_Props
  imports Store_Facts
begin

text \<open>
  The properties of the file store: its documents are a map that only successful writes change,
  a lease excludes other clients until it expires, acquisition is not atomic, operations are read
  back as written, and listing agrees with reading.
\<close>

section \<open>Time and faults\<close>

text \<open>No computation turns back the clock or adds a fault.\<close>

definition steady :: "(host, 'a) state \<Rightarrow> bool" where
  "steady m \<longleftrightarrow> state_io_rel (\<lambda>h h'. h_clock h \<le> h_clock h' \<and> set (h_faults h') \<subseteq> set (h_faults h)) m"

lemma steadyD:
  "steady m \<Longrightarrow> run_state m h = (a, h') \<Longrightarrow> h_clock h \<le> h_clock h' \<and> set (h_faults h') \<subseteq> set (h_faults h)"
  unfolding steady_def by (rule state_io_relD)

lemma steady_bind:
  assumes "steady m" and "\<And>a. steady (k a)"
  shows "steady (State_Monad.bind m k)"
  unfolding steady_def
proof
  fix b h h2
  assume "run_state (State_Monad.bind m k) h = (b, h2)"
  then obtain a h1 where "run_state m h = (a, h1)" "run_state (k a) h1 = (b, h2)"
    by (auto split: prod.splits)
  with steadyD [OF assms(1)] steadyD [OF assms(2)]
  show "h_clock h \<le> h_clock h2 \<and> set (h_faults h2) \<subseteq> set (h_faults h)" by (meson order_trans subset_trans)
qed

lemma steady_prims:
  "steady (State_Monad.return a)" "steady syscall" "steady (look p)" "steady (has_dir d)"
  "steady (put_file p f)" "steady (drop_file p)" "steady time_Now" "steady (rand_Read n)"
  by (auto simp: steady_def state_io_rel_def syscall_def look_def has_dir_def put_file_def drop_file_def
      time_Now_def rand_Read_def split: list.splits)

lemma steady_on_success: "steady m \<Longrightarrow> steady k \<Longrightarrow> steady (on_success m k)"
  unfolding on_success_def by (intro steady_bind) (auto split: option.splits intro: steady_prims)

lemma steady_cond: "steady m \<Longrightarrow> steady n \<Longrightarrow> steady (if b then m else n)"
  by simp

lemmas steady_rules = steady_bind steady_prims steady_on_success steady_cond

lemma steady_os:
  "steady (os_ReadFile p)" "steady (os_open p)" "steady (os_OpenLock p)" "steady (os_WriteFile p f)"
  "steady (os_Rename p q)" "steady (os_Remove p)"
  unfolding os_ReadFile_def os_open_def os_OpenLock_def os_WriteFile_def os_Remove_def os_Rename_def
  by (auto intro!: steady_rules split: option.splits content.splits)

lemma steady_json: "steady (readJSON kind key dec zero)" "steady (writeJSON kind key v)"
  unfolding readJSON_def writeJSON_def Let_def by (intro steady_rules steady_os)+

lemma steady_GetLock: "steady (GetLock node)"
  unfolding GetLock_def
  by (auto intro!: steady_rules steady_os steady_json split: option.splits prod.splits)

lemma steady_locks:
  "steady (AcquireLock node actor ttl)" "steady (RefreshLock node i ttl)" "steady (ReleaseLock node i)"
  unfolding AcquireLock_def acquire_test_def acquire_write_def RefreshLock_def ReleaseLock_def randomID_def
  by (auto intro!: steady_rules steady_os steady_json steady_GetLock split: option.splits sum.splits bool.splits)

section \<open>Locks\<close>

text \<open>The lease \<open>l\<close> is on disk; the disk does not report a file that is there as missing.\<close>

definition lease_held :: "string \<Rightarrow> lease \<Rightarrow> host \<Rightarrow> bool" where
  "lease_held node l h \<longleftrightarrow> file_at h (store_path ''locks'' node) = Some (Doc (encode_lease l)) \<and> time_ok (ls_ExpiresAt l)"

definition no_false_absence :: "host \<Rightarrow> bool" where
  "no_false_absence h \<longleftrightarrow> list_all (\<lambda>f. case f of None \<Rightarrow> True | Some e \<Rightarrow> \<not> errors_Is e ErrNotExist) (h_faults h)"

lemma no_false_absence_mono:
  "no_false_absence h \<Longrightarrow> set (h_faults h') \<subseteq> set (h_faults h) \<Longrightarrow> no_false_absence h'"
  unfolding no_false_absence_def list_all_iff by blast

lemma time_Now_result:
  "run_state time_Now h = (t, h') \<Longrightarrow> t = h_clock h' \<and> h_files h' = h_files h"
  by (auto simp: time_Now_def split: list.splits)

lemma readJSON_held:
  assumes "lease_held node l h" and "no_false_absence h"
    and "run_state (readJSON ''locks'' node decode_lease zero_lease) h = ((l', found, e), h')"
  shows "h_files h' = h_files h \<and> (e = None \<longrightarrow> found \<and> l' = l)"
  using assms lease_text [of l]
  by (auto simp: readJSON_def os_ReadFile_def syscall_def look_def lease_held_def no_false_absence_def file_at_def
      split: list.splits option.splits if_splits)

lemma GetLock_held:
  assumes "lease_held node l h" and "no_false_absence h"
    and "run_state (GetLock node) h = (r, h')" and "h_clock h' \<le> ls_ExpiresAt l"
  shows "h_files h' = h_files h \<and> ((\<exists>e. r = Inl e) \<or> r = Inr (Some l))"
proof -
  obtain x h1 where "run_state (readJSON ''locks'' node decode_lease zero_lease) h = (x, h1)"
    by (rule prod.exhaust)
  moreover obtain l' found e where "x = (l', found, e)" by (rule prod_cases3)
  ultimately have rd: "run_state (readJSON ''locks'' node decode_lease zero_lease) h = ((l', found, e), h1)"
    by simp
  note held = readJSON_held [OF assms(1,2) rd]
  show ?thesis
  proof (cases e)
    case (Some err)
    with assms(3) rd held show ?thesis by (auto simp: GetLock_def)
  next
    case None
    obtain now h2 where n: "run_state time_Now h1 = (now, h2)" by (rule prod.exhaust)
    note now = time_Now_result [OF n]
    have "h_clock h2 \<le> h_clock h'"
    proof (cases "ls_ExpiresAt l < now")
      case True
      then obtain x where "run_state (os_Remove (store_path ''locks'' node)) h2 = (x, h')"
        using assms(3) rd None held n by (auto simp: GetLock_def split: prod.splits)
      then show ?thesis using steadyD [OF steady_os(6)] by blast
    qed (use assms(3) rd None held n in \<open>auto simp: GetLock_def\<close>)
    with assms(4) now have "\<not> ls_ExpiresAt l < now" by simp
    with assms(3) rd None held n now show ?thesis by (auto simp: GetLock_def)
  qed
qed

lemma GetLock_held_E:
  assumes "lease_held node l h" and "no_false_absence h"
    and "run_state (State_Monad.bind (GetLock node) k) h = (a, h')"
    and "\<And>r. steady (k r)" and "h_clock h' \<le> ls_ExpiresAt l"
  obtains r h1 where "run_state (k r) h1 = (a, h')" and "h_files h1 = h_files h"
    and "(\<exists>e. r = Inl e) \<or> r = Inr (Some l)" and "h_clock h \<le> h_clock h1" and "h_clock h1 \<le> h_clock h'"
proof -
  obtain r h1 where g: "run_state (GetLock node) h = (r, h1)" by (rule prod.exhaust)
  with assms(3) have k: "run_state (k r) h1 = (a, h')" by simp
  have "h_clock h1 \<le> h_clock h'" using steadyD [OF assms(4) k] by blast
  with GetLock_held [OF assms(1,2) g] assms(5) k that steadyD [OF steady_GetLock g] show thesis by auto
qed

lemma acquire_held:
  assumes "lease_held node l h" and "no_false_absence h"
    and "run_state (AcquireLock node actor ttl) h = (r, h')" and "h_clock h' < ls_ExpiresAt l"
  shows "h_files h' = h_files h \<and> (\<forall>i. r \<noteq> Inr (Some i))"
proof -
  obtain q h1 where t: "run_state (acquire_test node) h = (q, h1)" by (rule prod.exhaust)
  have le: "h_clock h1 \<le> h_clock h'"
  proof -
    have "steady (case q of Inl e \<Rightarrow> State_Monad.return (Inl e) | Inr False \<Rightarrow> State_Monad.return (Inr None)
        | Inr True \<Rightarrow> acquire_write node actor ttl)"
      unfolding acquire_write_def randomID_def
      by (auto intro!: steady_rules steady_json split: sum.splits bool.splits)
    then show ?thesis using assms(3) t by (auto simp: AcquireLock_def dest: steadyD)
  qed
  have "h_files h1 = h_files h \<and> q \<noteq> Inr True"
  proof -
    have "h_clock h1 \<le> ls_ExpiresAt l" using le assms(4) by simp
    then obtain g h2 where g: "run_state (case g of Inl e \<Rightarrow> State_Monad.return (Inl e)
        | Inr None \<Rightarrow> State_Monad.return (Inr True)
        | Inr (Some l) \<Rightarrow> do { now \<leftarrow> time_Now; State_Monad.return (Inr (\<not> ls_ExpiresAt l > now)) }) h2 = (q, h1)"
      "h_files h2 = h_files h" "(\<exists>e. g = Inl e) \<or> g = Inr (Some l)"
      using t unfolding acquire_test_def
      by (elim GetLock_held_E [OF assms(1,2)]) (auto intro!: steady_rules split: sum.splits option.splits)
    then show ?thesis using assms(4) le by (auto split: prod.splits dest!: time_Now_result)
  qed
  with assms(3) t show ?thesis by (auto simp: AcquireLock_def split: sum.splits bool.splits)
qed

text \<open>The operations of the clients of a lock, and writes of other documents.\<close>

datatype lock_op =
    LAcquire string duration
  | LRefresh string duration
  | LRelease string
  | LGet
  | LWrite string string jtree

fun granted :: "err + string option \<Rightarrow> bool" where
  "granted (Inr (Some i)) = True"
| "granted _ = False"

lemma granted_iff: "granted r \<longleftrightarrow> (\<exists>i. r = Inr (Some i))"
  by (cases r rule: granted.cases) auto

text \<open>One operation: whether it was granted the lock, and the host behind it.\<close>

fun lock_step :: "string \<Rightarrow> lock_op \<Rightarrow> host \<Rightarrow> bool \<times> host" where
  "lock_step node (LAcquire actor ttl) h =
     (case run_state (AcquireLock node actor ttl) h of (r, h') \<Rightarrow> (granted r, h'))"
| "lock_step node (LRefresh i ttl) h = (False, snd (run_state (RefreshLock node i ttl) h))"
| "lock_step node (LRelease i) h = (False, snd (run_state (ReleaseLock node i) h))"
| "lock_step node LGet h = (False, snd (run_state (GetLock node) h))"
| "lock_step node (LWrite kind key v) h = (False, snd (run_state (writeJSON kind key v) h))"

fun lock_run :: "string \<Rightarrow> lock_op list \<Rightarrow> host \<Rightarrow> bool list \<times> host" where
  "lock_run node [] h = ([], h)"
| "lock_run node (x # xs) h =
     (case lock_step node x h of (b, h1) \<Rightarrow> (case lock_run node xs h1 of (bs, h2) \<Rightarrow> (b # bs, h2)))"

text \<open>An operation that does not present the id of the lease and writes no lock file itself.\<close>

fun by_others :: "string \<Rightarrow> lease \<Rightarrow> lock_op \<Rightarrow> bool" where
  "by_others node l (LRefresh i ttl) = (i \<noteq> ls_LockID l)"
| "by_others node l (LRelease i) = (i \<noteq> ls_LockID l)"
| "by_others node l (LWrite kind key v) = (store_path kind key \<noteq> store_path ''locks'' node)"
| "by_others node l _ = True"

lemma lock_step_steady:
  assumes "lock_step node x h = (b, h')"
  shows "h_clock h \<le> h_clock h' \<and> set (h_faults h') \<subseteq> set (h_faults h)"
  using assms
  by (cases x) (auto split: prod.splits dest: steadyD [OF steady_locks(1)] steadyD [OF steady_locks(2)]
      steadyD [OF steady_locks(3)] steadyD [OF steady_GetLock] steadyD [OF steady_json(2)] simp: snd_def)

lemma lock_step_held:
  assumes "lock_step node x h = (b, h')" and "lease_held node l h" and "no_false_absence h"
    and "by_others node l x" and "h_clock h' < ls_ExpiresAt l"
  shows "lease_held node l h' \<and> \<not> b"
proof -
  have le: "h_clock h' \<le> ls_ExpiresAt l" using assms(5) by simp
  have files: "lease_held node l h'" if "h_files h' = h_files h"
    using assms(2) that by (simp add: lease_held_def file_at_def)
  show ?thesis
  proof (cases x)
    case (LAcquire actor ttl)
    with assms(1) obtain r where "run_state (AcquireLock node actor ttl) h = (r, h')" "b = granted r"
      by (auto split: prod.splits)
    with acquire_held [OF assms(2,3) _ assms(5)] files granted_iff show ?thesis by blast
  next
    case (LRefresh i ttl)
    with assms(1) obtain r where "run_state (RefreshLock node i ttl) h = (r, h')" "\<not> b"
      by (auto simp: prod_eq_iff)
    then show ?thesis
      using LRefresh assms(4) files unfolding RefreshLock_def
      by (elim GetLock_held_E [OF assms(2,3) _ _ le])
         (auto intro!: steady_rules steady_json split: sum.splits option.splits)
  next
    case (LRelease i)
    with assms(1) obtain r where "run_state (ReleaseLock node i) h = (r, h')" "\<not> b"
      by (auto simp: prod_eq_iff)
    then show ?thesis
      using LRelease assms(4) files unfolding ReleaseLock_def
      by (elim GetLock_held_E [OF assms(2,3) _ _ le])
         (auto intro!: steady_rules steady_os split: sum.splits option.splits)
  next
    case LGet
    with assms(1) obtain r where "run_state (GetLock node) h = (r, h')" "\<not> b"
      by (auto simp: prod_eq_iff)
    with GetLock_held [OF assms(2,3) _ le] files show ?thesis by blast
  next
    case (LWrite kind key v)
    with assms(1) obtain e where w: "run_state (writeJSON kind key v) h = (e, h')" "\<not> b"
      by (auto simp: prod_eq_iff)
    with writeJSON_files(2) [OF w(1) is_document_paths(1) [of "''locks''" node]] assms(2,4) LWrite
    show ?thesis by (auto simp: lease_held_def)
  qed
qed

lemma lock_run_steady: "lock_run node xs h = (bs, h') \<Longrightarrow> h_clock h \<le> h_clock h'"
proof (induction xs arbitrary: h bs)
  case (Cons x xs)
  obtain b h1 where s: "lock_step node x h = (b, h1)" by (rule prod.exhaust)
  with Cons.prems obtain bs' where "lock_run node xs h1 = (bs', h')" by (auto split: prod.splits)
  with Cons.IH lock_step_steady [OF s] show ?case by fastforce
qed simp

lemma lock_run_held:
  assumes "lock_run node xs h = (bs, h')" and "lease_held node l h" and "no_false_absence h"
    and "list_all (by_others node l) xs" and "h_clock h' < ls_ExpiresAt l"
  shows "lease_held node l h' \<and> True \<notin> set bs \<and> h_clock h \<le> h_clock h'"
  using assms
proof (induction xs arbitrary: h bs)
  case (Cons x xs)
  obtain b h1 where s: "lock_step node x h = (b, h1)" by (rule prod.exhaust)
  obtain bs' where r: "lock_run node xs h1 = (bs', h')" and bs: "bs = b # bs'"
    using Cons.prems(1) s by (auto split: prod.splits)
  note st = lock_step_steady [OF s]
  have nf: "no_false_absence h1" using no_false_absence_mono Cons.prems(3) st by blast
  have "h_clock h1 \<le> h_clock h'" using lock_run_steady [OF r] .
  then have "lease_held node l h1 \<and> \<not> b"
    using lock_step_held [OF s Cons.prems(2,3)] Cons.prems(4,5) by simp
  with Cons.IH [OF r _ nf] Cons.prems(4,5) bs st show ?case by auto
qed simp

section \<open>Properties\<close>

text \<open>The documents on disk as a reader sees them, and a sequence of writes with the result of each.\<close>

definition stored :: "host \<Rightarrow> path \<Rightarrow> jtree option" where
  "stored h p = (case document h p of Some (Data s) \<Rightarrow> text_tree s | _ \<Rightarrow> None)"

fun writes :: "((string \<times> string) \<times> jtree) list \<Rightarrow> host \<Rightarrow> err option list \<times> host" where
  "writes [] h = ([], h)"
| "writes (((kind, key), v) # ws) h =
     (case run_state (writeJSON kind key v) h of (e, h1) \<Rightarrow> (case writes ws h1 of (es, h2) \<Rightarrow> (e # es, h2)))"

lemma writes_puts: "writes ws h = file_store.puts ws h"
  by (induction ws h rule: writes.induct) (auto split: prod.splits)

text \<open>
  C37 (refinement): the files refine a map from paths to documents, read from the text of the files. For every sequence of writes and
  every way the disk fails in it, the documents afterwards are those of the map in which exactly the
  writes that reported success were carried out, in order. A failed write, whatever the step at
  which it failed, leaves every document as it was, its own included.
\<close>

theorem store_refines_map:
  "case writes ws h of
     (es, h') \<Rightarrow>
       stored h' =
       fold (\<lambda>((kind, key), v) m. m(store_path kind key \<mapsto> plain v))
         (map fst (filter (\<lambda>(_, e). e = None) (zip ws es))) (stored h)"
proof -
  obtain es h' where w: "file_store.puts ws h = (es, h')" by (rule prod.exhaust)
  then have "writes ws h = (es, h')" by (simp only: writes_puts)
  with file_store.puts_docs [OF w] show ?thesis
    by (simp add: stored_def [abs_def] file_store.acked_def case_prod_beta')
qed

text \<open>
  C38 (safety): a lease excludes everyone who does not know its id. While the lease is on disk and
  has not expired, no sequence of acquisitions, readings, and refreshes and releases with other ids,
  interspersed with writes of other documents and with disk errors, is granted the lock or
  removes the lease; it is still on disk at the end. (Operations run one after another; the disk
  does not report an existing file as missing.)
\<close>

theorem lock_excludes_others:
  assumes "lease_held node l h" and "no_false_absence h" and "list_all (by_others node l) xs"
    and "h_clock (snd (lock_run node xs h)) < ls_ExpiresAt l"
  shows "lease_held node l (snd (lock_run node xs h)) \<and> True \<notin> set (fst (lock_run node xs h))"
  using lock_run_held [of node xs h "fst (lock_run node xs h)" "snd (lock_run node xs h)" l] assms by simp

definition lab_lease :: lease where
  "lab_lease = \<lparr>ls_Node = ''node-1'', ls_Actor = ''cli'', ls_LockID = ''00ff'', ls_ExpiresAt = 100 * Second\<rparr>"

definition lab_host :: host where
  "lab_host = \<lparr>h_dirs = store_dirs, h_files = [], h_clock = 0, h_delays = [], h_faults = [],
     h_random = [Inr [1, 2], Inr [3, 4]]\<rparr>"

definition lab_locked :: host where
  "lab_locked = lab_host\<lparr>h_files := [((''locks'', ''node-1.json''), Doc (encode_lease lab_lease))],
     h_delays := [5, 7], h_faults := [Some (Err ''input/output error'')]\<rparr>"

definition lab_lock_ops :: "lock_op list" where
  "lab_lock_ops = [LAcquire ''operator'' Minute, LAcquire ''operator'' Minute, LRelease ''beef'', LGet]"

lemma lab_locked_held: "lease_held ''node-1'' lab_lease lab_locked"
proof -
  have "store_path ''locks'' ''node-1'' = (''locks'', ''node-1.json'')" "time_ok (ls_ExpiresAt lab_lease)" by code_simp+
  then show ?thesis by (simp add: lease_held_def lab_locked_def file_at_def)
qed

theorem lock_excludes_others_witness:
  "lease_held ''node-1'' lab_lease (snd (lock_run ''node-1'' lab_lock_ops lab_locked)) \<and>
   True \<notin> set (fst (lock_run ''node-1'' lab_lock_ops lab_locked))"
proof (rule lock_excludes_others)
  show "lease_held ''node-1'' lab_lease lab_locked" by (rule lab_locked_held)
  show "no_false_absence lab_locked" by (simp add: no_false_absence_def lab_locked_def)
  show "list_all (by_others ''node-1'' lab_lease) lab_lock_ops" by code_simp
  show "h_clock (snd (lock_run ''node-1'' lab_lock_ops lab_locked)) < ls_ExpiresAt lab_lease"
    by code_simp
qed

text \<open>Two clients whose tests of the lock both come before their writes.\<close>

definition interleaved_acquire ::
  "string \<Rightarrow> string \<Rightarrow> string \<Rightarrow> duration \<Rightarrow> (host, (err + string option) \<times> (err + string option)) state" where
  "interleaved_acquire node a b ttl = do {
     qa \<leftarrow> acquire_test node;
     qb \<leftarrow> acquire_test node;
     ra \<leftarrow> (if qa = Inr True then acquire_write node a ttl else State_Monad.return (Inr None));
     rb \<leftarrow> (if qb = Inr True then acquire_write node b ttl else State_Monad.return (Inr None));
     State_Monad.return (ra, rb)
   }"

lemma acquire_test_free:
  assumes "h_faults h = []" and "file_at h (store_path ''locks'' node) = None"
  shows "run_state (acquire_test node) h = (Inr True, h)"
  using assms by (simp add: acquire_test_def GetLock_def readJSON_def os_ReadFile_def syscall_def look_def)

lemma acquire_write_healthy:
  assumes "healthy ''locks'' h" and "h_random h = Inr bs # rs" and "h_delays h = d # ds"
    and "time_ok (h_clock h + int d + ttl)"
  shows "\<exists>h'. run_state (acquire_write node actor ttl) h = (Inr (Some (hex_EncodeToString bs)), h') \<and>
    healthy ''locks'' h' \<and> h_random h' = rs \<and> h_delays h' = ds \<and> h_clock h' = h_clock h + int d \<and>
    lease_held node \<lparr>ls_Node = node, ls_Actor = actor, ls_LockID = hex_EncodeToString bs,
      ls_ExpiresAt = h_clock h + int d + ttl\<rparr> h'"
proof -
  let ?l = "\<lparr>ls_Node = node, ls_Actor = actor, ls_LockID = hex_EncodeToString bs, ls_ExpiresAt = h_clock h + int d + ttl\<rparr>"
  let ?h = "h\<lparr>h_random := rs, h_clock := h_clock h + int d, h_delays := ds\<rparr>"
  have "healthy ''locks'' ?h" using assms(1) by (simp add: healthy_def file_at_def)
  then obtain h' where w: "run_state (writeJSON ''locks'' node (encode_lease ?l)) ?h = (None, h')" "healthy ''locks'' h'"
    using writeJSON_healthy [of "''locks''" ?h] assms(4) marshal_lease [of ?l] by auto
  have "same_env ?h h'" using writeJSON_files(1) [OF w(1)] .
  moreover have "lease_held node ?l h'"
    using writeJSON_files(2) [OF w(1) is_document_paths(1)] assms(4) by (simp add: lease_held_def)
  moreover have "run_state (acquire_write node actor ttl) h = (Inr (Some (hex_EncodeToString bs)), h')"
    using w(1) assms(2,3) by (simp add: acquire_write_def randomID_def rand_Read_def time_Now_def)
  ultimately show ?thesis using w(2) by (intro exI [of _ h']) (auto simp: same_env_def)
qed

text \<open>
  C39 (error): \<open>AcquireLock\<close> tests and writes in two steps that no lock spans. On every disk that works and
  has no lease of the node, two clients whose tests both come before their writes are both granted
  the lock, each with an id of its own; the lease on disk is that of the second, and the first is
  not told.
\<close>

theorem acquire_lock_race:
  assumes "healthy ''locks'' h" and "file_at h (store_path ''locks'' node) = None"
    and "h_random h = Inr ra # Inr rb # rs" and "h_delays h = da # db # ds"
    and "time_ok (h_clock h + int da + ttl)" and "time_ok (h_clock h + int da + int db + ttl)"
  shows "case run_state (interleaved_acquire node a b ttl) h of
     ((x, y), h') \<Rightarrow>
       x = Inr (Some (hex_EncodeToString ra)) \<and> y = Inr (Some (hex_EncodeToString rb)) \<and>
       lease_held node \<lparr>ls_Node = node, ls_Actor = b, ls_LockID = hex_EncodeToString rb,
         ls_ExpiresAt = h_clock h + int da + int db + ttl\<rparr> h'"
proof -
  have t: "run_state (acquire_test node) h = (Inr True, h)"
    using acquire_test_free assms(1,2) by (simp add: healthy_def)
  obtain h1 where w1: "run_state (acquire_write node a ttl) h = (Inr (Some (hex_EncodeToString ra)), h1)"
      "healthy ''locks'' h1" "h_random h1 = Inr rb # rs" "h_delays h1 = db # ds" "h_clock h1 = h_clock h + int da"
    using acquire_write_healthy [OF assms(1,3,4,5), of node a] by blast
  obtain h2 where w2: "run_state (acquire_write node b ttl) h1 = (Inr (Some (hex_EncodeToString rb)), h2)"
      "lease_held node \<lparr>ls_Node = node, ls_Actor = b, ls_LockID = hex_EncodeToString rb,
         ls_ExpiresAt = h_clock h1 + int db + ttl\<rparr> h2"
    using acquire_write_healthy [OF w1(2,3,4), of ttl node b] assms(6) w1(5) by auto
  show ?thesis using w2(2) by (simp add: interleaved_acquire_def t w1(1,5) w2(1))
qed

lemma lab_host_healthy: "kind \<in> set store_dirs \<Longrightarrow> healthy kind (lab_host\<lparr>h_delays := ds\<rparr>)"
  by (simp add: healthy_def lab_host_def file_at_def)

theorem acquire_lock_race_witness:
  "case run_state (interleaved_acquire ''node-1'' ''cli'' ''operator'' Minute) (lab_host\<lparr>h_delays := [5, 7]\<rparr>) of
     ((x, y), h') \<Rightarrow>
       x = Inr (Some (hex_EncodeToString [1, 2])) \<and> y = Inr (Some (hex_EncodeToString [3, 4])) \<and>
       lease_held ''node-1'' \<lparr>ls_Node = ''node-1'', ls_Actor = ''operator'', ls_LockID = hex_EncodeToString [3, 4],
         ls_ExpiresAt = h_clock (lab_host\<lparr>h_delays := [5, 7]\<rparr>) + int 5 + int 7 + Minute\<rparr> h'"
  by (rule acquire_lock_race [OF lab_host_healthy])
     (simp_all add: store_dirs_def lab_host_def file_at_def time_ok_def)

lemma GetOperation_stored:
  assumes "h_faults h = []" and "file_at h (store_path ''operations'' oid) = Some (Doc (encode_operation op))"
    and "op_ok op"
  shows "run_state (GetOperation oid) h = (Inr (Some op), h)"
  using assms
  by (auto simp: GetOperation_def readJSON_def os_ReadFile_def syscall_def look_def text_round_trip marshal_operation
      decode_operation_encode)


definition lab_op :: operation where
  "lab_op = (operation_New OpDrainShutdown ''node-1'' ''cli'' 0)
     \<lparr>op_Steps := [\<lparr>step_Name = ''cordon'', step_Succeeded = True, step_Message = [],
        step_Details = [(''node'', ''kube-1'')], step_At = 5 * Second\<rparr>]\<rparr>"


section \<open>Listing and reading agree\<close>

lemma GetDesired_pure:
  assumes "h_faults h = []"
  shows "\<exists>r. run_state (GetDesiredPower node) h = (r, h)"
  using assms by (simp add: GetDesiredPower_def readJSON_def os_ReadFile_def syscall_def look_def del: split_paired_Ex)

definition desired_of :: "host \<Rightarrow> string \<Rightarrow> string option" where
  "desired_of h node = (case fst (run_state (GetDesiredPower node) h) of (st, found, _) \<Rightarrow> if found then Some st else None)"

lemma list_desired_lookup:
  assumes "h_faults h = []" and "run_state (list_desired entries out) h = (Inr m, h')"
  shows "map_of m node =
    (if (node @ ''.json'', False) \<in> set entries \<and> desired_of h node \<noteq> None then desired_of h node else map_of out node)"
  using assms(2)
proof (induction entries arbitrary: out)
  case (Cons x entries)
  obtain name d where x: "x = (name, d)" by (rule prod.exhaust)
  show ?case
  proof (cases "d \<or> \<not> HasSuffix name ''.json''")
    case True
    then have "x \<noteq> (node @ ''.json'', False)" by (auto simp: x HasSuffix_append_iff)
    with True Cons show ?thesis by (auto simp: x)
  next
    case False
    then obtain key where name: "name = key @ ''.json''" by (auto simp: HasSuffix_append_iff)
    then have key: "TrimSuffix name ''.json'' = key"
      by (simp add: TrimSuffix_def HasSuffix_append_iff)
    obtain r where r: "run_state (GetDesiredPower key) h = (r, h)" using GetDesired_pure [OF assms(1)] by blast
    obtain st found e where rr: "r = (st, found, e)" by (rule prod_cases3)
    have e: "e = None" using Cons.prems False key r rr by (auto simp: x split: option.splits)
    have des: "desired_of h key = (if found then Some st else None)" by (simp add: desired_of_def r rr)
    have "run_state (list_desired entries (if found then AList.update key st out else out)) h = (Inr m, h')"
      using Cons.prems False r rr e unfolding key [symmetric] by (simp add: x)
    from Cons.IH [OF this] des False name show ?thesis
      by (auto simp: x update_conv')
  qed
qed simp

lemma dir_names_iff: "name \<in> set (dir_names d h) \<longleftrightarrow> file_at h (d, name) \<noteq> None"
  by (force simp: dir_names_def file_at_def map_of_eq_None_iff)

text \<open>
  On a disk that works, a listing of the desired states that succeeds says for
  every node with a key that needs no escaping exactly what \<open>GetDesiredPower\<close> says of it.
\<close>

theorem list_desired_agrees:
  assumes "h_faults h = []" and "run_state ListDesiredPower h = (Inr m, h')" and "safeKey node = node"
  shows "map_of m node =
    (case fst (run_state (GetDesiredPower node) h) of (st, found, _) \<Rightarrow> if found then Some st else None)"
proof -
  let ?f = "file_at h (''desired'', node @ ''.json'')"
  have l: "run_state (list_desired (map (\<lambda>n. (n, file_at h (''desired'', n) = Some Subdir)) (dir_names ''desired'' h)) []) h = (Inr m, h')"
    using assms(1,2) by (auto simp: ListDesiredPower_def os_ReadDir_def syscall_def split: if_splits)
  have "desired_of h node = None" if "?f = None \<or> ?f = Some Subdir"
    using that assms(1,3)
    by (auto simp: desired_of_def GetDesiredPower_def readJSON_def os_ReadFile_def syscall_def look_def
        store_path_def is_a_directory_def)
  then have "map_of m node = desired_of h node"
    unfolding list_desired_lookup [OF assms(1) l] by (auto simp: dir_names_iff image_iff)
  then show ?thesis by (simp add: desired_of_def)
qed

definition lab_desired :: host where
  "lab_desired = snd (run_state (SetDesiredPower ''node-1'' StorePowerOff ''cli'') lab_host)"

theorem list_desired_agrees_witness:
  "map_of [(''node-1'', ''off'')] ''node-1'' =
    (case fst (run_state (GetDesiredPower ''node-1'') lab_desired) of (st, found, _) \<Rightarrow> if found then Some st else None)"
proof (rule list_desired_agrees)
  show "h_faults lab_desired = []" by code_simp
  have "fst (run_state ListDesiredPower lab_desired) = Inr [(''node-1'', ''off'')]" by code_simp
  then show "run_state ListDesiredPower lab_desired = (Inr [(''node-1'', ''off'')], snd (run_state ListDesiredPower lab_desired))"
    by (simp add: prod_eq_iff)
  show "safeKey ''node-1'' = ''node-1''" by code_simp
qed

section \<open>Edges of the store\<close>

text \<open>
  Keys are not told apart by their file names: a slash and two dashes give the same document, and so do
  two pairs of a node and an operation that \<open>SetLastSuccess\<close> joins at different places.
\<close>

lemma store_path_collides: "store_path kind ''a/b'' = store_path kind ''a--b''"
proof -
  have "safeKey ''a/b'' = safeKey ''a--b''" by code_simp
  then show ?thesis by (simp add: store_path_def)
qed

text \<open>An update of the observed state with a nil map panics, on every disk, and writes nothing.\<close>

lemma nil_observed_panics:
  assumes "run_state (UpdateObservedState node None) h = (r, h')"
  shows "r = Inl ''assignment to entry in nil map'' \<and> file_at h' p = file_at h p"
  using assms by (auto simp: UpdateObservedState_def time_Now_def file_at_def split: prod.splits list.splits)

end
