(* ===== verification/Serve.thy ===== *)
theory Serve
  imports Api_Props
begin

text \<open>
  The life of the trigger server, \<open>Serve\<close> of \<^verbatim>\<open>internal/api/serve.go\<close>: start, the \<open>select\<close> between a
  listener that fails and a context that ends, and the graceful shutdown. The server of \<^verbatim>\<open>net/http\<close>
  is a parameter: when its listener ends of itself and with what, and what \<open>Shutdown\<close> does. A \<open>Serve\<close>
  that never returns is \<open>None\<close>.
\<close>

section \<open>Server\<close>

abbreviation ErrServerClosed :: err where "ErrServerClosed \<equiv> Err ''http: Server closed''"

record server_options =
  so_Addr :: string
  so_ReadHeaderTimeout :: duration
  so_WriteTimeout :: duration
  so_ReadTimeout :: duration

definition serve_options :: "serve_config \<Rightarrow> server_options" where
  "serve_options cfg =
     \<lparr>so_Addr = sc_Listen cfg, so_ReadHeaderTimeout = 10 * Second, so_WriteTimeout = WriteTimeout,
      so_ReadTimeout = 0\<rparr>"

text \<open>
  \<open>ListenAndServe\<close> never returns nil; \<open>hs_Listen\<close> is \<open>None\<close> when it does not return of itself. \<open>hs_Run\<close> is
  the world behind the requests that were served until an instant.
\<close>

record 'w http_server =
  hs_Listen :: "(time \<times> err) option"
  hs_Run :: "time \<Rightarrow> 'w lworld \<Rightarrow> 'w lworld"
  hs_Shutdown :: "('w, err option) prim"

definition serve_until :: "'w http_server \<Rightarrow> time \<Rightarrow> 'w lworld \<Rightarrow> 'w lworld" where
  "serve_until srv t w = (hs_Run srv t w)\<lparr>w_clock := max (w_clock w) t\<rparr>"

text \<open>
  What the receive from \<open>errCh\<close> yields: the error, or nil from the closed channel when the server was
  closed on purpose.
\<close>

definition listen_result :: "err \<Rightarrow> err option" where
  "listen_result e = (if errors_Is e ErrServerClosed then None else Some e)"

definition graceful_shutdown :: "'w http_server \<Rightarrow> 'w lworld \<Rightarrow> err option \<times> 'w lworld" where
  "graceful_shutdown srv w =
     (case hs_Shutdown srv (WithTimeout background (w_clock w) (30 * Second)) (w_clock w) (w_env w) of
        (r, d, s) \<Rightarrow>
          (map_option (wrap ''graceful shutdown: '') r, w\<lparr>w_env := s, w_clock := w_clock w + int d\<rparr>))"

text \<open>When both channels are ready the runtime picks one, as \<open>ctx_pick\<close> says.\<close>

definition serve_select :: "'w http_server \<Rightarrow> ctx \<Rightarrow> 'w lworld \<Rightarrow> (err option \<times> 'w lworld) option" where
  "serve_select srv c w =
     (let t = w_clock w
      in case (hs_Listen srv, done_at c) of
           (None, None) \<Rightarrow> None
         | (Some (u, e), None) \<Rightarrow> Some (listen_result e, serve_until srv u w)
         | (None, Some d) \<Rightarrow> Some (graceful_shutdown srv (serve_until srv d w))
         | (Some (u, e), Some d) \<Rightarrow>
             if max t u < max t d \<or> max t u = max t d \<and> \<not> ctx_pick c d
             then Some (listen_result e, serve_until srv u w)
             else Some (graceful_shutdown srv (serve_until srv d w)))"

definition Serve ::
  "('w, 'rc, 'tc) platform \<Rightarrow> ('w handler \<Rightarrow> server_options \<Rightarrow> 'w http_server) \<Rightarrow> inventory \<Rightarrow> serve_config \<Rightarrow>
   ctx \<Rightarrow> 'w lworld \<Rightarrow> (err option \<times> 'w lworld) option" where
  "Serve pf newServer iv cfg c w =
     (case Serve_handler pf iv cfg of
        Inl e \<Rightarrow> Some (Some e, w)
      | Inr h \<Rightarrow> serve_select (newServer h (serve_options cfg)) c w)"

section \<open>It stops when told\<close>

text \<open>\<open>Shutdown\<close> returns at the latest when its context ends.\<close>

definition shutdown_in_time :: "'w http_server \<Rightarrow> bool" where
  "shutdown_in_time srv \<longleftrightarrow>
     (\<forall>c t s r d s' u. hs_Shutdown srv c t s = (r, d, s') \<longrightarrow> done_at c = Some u \<longrightarrow> t + int d \<le> max t u)"

lemma graceful_shutdown_bound:
  assumes "shutdown_in_time srv" and "graceful_shutdown srv w = (r, w')"
  shows "w_clock w' \<le> w_clock w + 30 * Second"
proof -
  let ?t = "w_clock w"
  let ?c = "WithTimeout background ?t (30 * Second)"
  have "done_at ?c = Some (?t + 30 * Second)"
    by (simp add: done_at_def WithTimeout_def WithDeadline_def background_def)
  moreover obtain r0 d s where "hs_Shutdown srv ?c ?t (w_env w) = (r0, d, s)" "w_clock w' = ?t + int d"
    using assms(2) by (auto simp: graceful_shutdown_def split: prod.splits)
  ultimately have "w_clock w' \<le> max ?t (?t + 30 * Second)"
    using assms(1) unfolding shutdown_in_time_def by metis
  then show ?thesis by simp
qed

text \<open>
  The server stops: once the context ends, \<open>Serve\<close> has returned at most thirty seconds
  later: requests in flight are given that long, whatever they do; the result is then an error only
  when the server could not be started, its listener failed or the shutdown did.
\<close>

lemma serve_stops_after_cancel:
  assumes "done_at c = Some d" and "\<And>h opts. shutdown_in_time (newServer h opts)"
  shows "\<exists>r w'. Serve pf newServer iv cfg c w = Some (r, w') \<and> w_clock w' \<le> max (w_clock w) d + 30 * Second"
proof (cases "Serve_handler pf iv cfg")
  case (Inl e)
  then show ?thesis by (simp add: Serve_def)
next
  case (Inr h)
  let ?srv = "newServer h (serve_options cfg)"
  obtain r w' where g: "graceful_shutdown ?srv (serve_until ?srv d w) = (r, w')" by (rule prod.exhaust)
  have clock: "w_clock (serve_until ?srv u w) = max (w_clock w) u" for u by (simp add: serve_until_def)
  have "w_clock w' \<le> max (w_clock w) d + 30 * Second"
    using graceful_shutdown_bound [OF assms(2) g] clock by simp
  then show ?thesis
    using Inr g clock by (auto simp: Serve_def serve_select_def assms(1) Let_def split: option.splits)
qed

text \<open>A server with requests that do not end: \<open>Shutdown\<close> waits for its context.\<close>

definition lab_server :: "'w handler \<Rightarrow> server_options \<Rightarrow> 'w http_server" where
  "lab_server h opts =
     \<lparr>hs_Listen = None, hs_Run = (\<lambda>_ w. w),
      hs_Shutdown = (\<lambda>c t s. (map_option (\<lambda>_. DeadlineExceeded) (done_at c),
                              case done_at c of None \<Rightarrow> 0 | Some u \<Rightarrow> nat (u - t), s))\<rparr>"

lemma lab_server_in_time: "shutdown_in_time (lab_server h opts)"
  by (auto simp: shutdown_in_time_def lab_server_def)

end
