(* ===== verification/Flags.thy ===== *)
theory Flags
  imports Json
begin

text \<open>
  The part of package \<^verbatim>\<open>flag\<close> the commands use, with \<open>strconv.ParseBool\<close> and \<open>time.ParseDuration\<close>.
  A flag set is the list of its flags with their current values; a value's constructor is the kind
  of the flag. The wording of the usage message that a help request or an error prints is not
  modelled. An integer flag takes a decimal number here, where Go takes other bases too. A fraction of a duration is rounded down exactly, where Go rounds a 64-bit float.
\<close>

section \<open>Values\<close>

datatype fval = VStr string | VBool bool | VDur duration | VInt int

type_synonym flags = "(string \<times> fval) list"

definition ParseBool :: "string \<Rightarrow> bool option" where
  "ParseBool s =
     (if s \<in> {''1'', ''t'', ''T'', ''true'', ''TRUE'', ''True''} then Some True
      else if s \<in> {''0'', ''f'', ''F'', ''false'', ''FALSE'', ''False''} then Some False
      else None)"

definition unit_ns :: "string \<Rightarrow> nat option" where
  "unit_ns u =
     (if u = ''ns'' then Some 1
      else if u = ''us'' \<or> u = [CHR 0xC2, CHR 0xB5, CHR ''s''] \<or> u = [CHR 0xCE, CHR 0xBC, CHR ''s''] then Some 1000
      else if u = ''ms'' then Some 1000000
      else if u = ''s'' then Some 1000000000
      else if u = ''m'' then Some 60000000000
      else if u = ''h'' then Some 3600000000000
      else None)"

text \<open>One term of a duration, such as \<open>1.5h\<close>: its nanoseconds and the rest of the text.\<close>

definition duration_term :: "string \<Rightarrow> (nat \<times> string) option" where
  "duration_term s =
     (let ip = takeWhile is_digit s;
          r = dropWhile is_digit s;
          dot = (r \<noteq> [] \<and> hd r = CHR ''.'');
          fp = (if dot then takeWhile is_digit (tl r) else []);
          r2 = (if dot then dropWhile is_digit (tl r) else r);
          u = takeWhile (\<lambda>c. \<not> is_digit c \<and> c \<noteq> CHR ''.'') r2
      in if ip = [] \<and> fp = [] then None
         else
           (case unit_ns u of
              None \<Rightarrow> None
            | Some ns \<Rightarrow>
                Some (digits_nat ip * ns + digits_nat fp * ns div 10 ^ length fp,
                      dropWhile (\<lambda>c. \<not> is_digit c \<and> c \<noteq> CHR ''.'') r2)))"

lemma duration_term_length: "duration_term s = Some (n, r) \<Longrightarrow> length r < length s"
proof -
  assume a: "duration_term s = Some (n, r)"
  let ?q = "\<lambda>c. \<not> is_digit c \<and> c \<noteq> CHR ''.''"
  obtain r2 where r2: "length r2 \<le> length s" "takeWhile ?q r2 \<noteq> []" "r = dropWhile ?q r2"
  proof -
    let ?r = "dropWhile is_digit s"
    let ?dot = "?r \<noteq> [] \<and> hd ?r = CHR ''.''"
    let ?r2 = "if ?dot then dropWhile is_digit (tl ?r) else ?r"
    have "length (dropWhile is_digit (tl ?r)) \<le> length ?r"
      by (metis diff_le_self dual_order.trans length_dropWhile_le length_tl)
    then have "length ?r2 \<le> length s" using length_dropWhile_le [of is_digit s] by simp
    moreover have "takeWhile ?q ?r2 \<noteq> []" "r = dropWhile ?q ?r2"
      using a by (auto simp: duration_term_def Let_def unit_ns_def split: if_splits option.splits)
    ultimately show thesis using that by blast
  qed
  have "length r2 = length (takeWhile ?q r2) + length r"
    using r2(3) by (metis length_append takeWhile_dropWhile_id)
  moreover have "0 < length (takeWhile ?q r2)" using r2(2) by blast
  ultimately show ?thesis using r2(1) by linarith
qed

function duration_sum :: "string \<Rightarrow> nat option" where
  "duration_sum s =
     (if s = [] then Some 0
      else
        (case duration_term s of
           None \<Rightarrow> None
         | Some (n, r) \<Rightarrow> map_option (\<lambda>m. n + m) (duration_sum r)))"
  by pat_completeness auto
termination
  by (relation "measure length") (auto dest: duration_term_length)

declare duration_sum.simps [simp del]

definition ParseDuration :: "string \<Rightarrow> duration option" where
  "ParseDuration s =
     (let signed = (s \<noteq> [] \<and> (hd s = CHR ''-'' \<or> hd s = CHR ''+''));
          neg = (signed \<and> hd s = CHR ''-'');
          body = (if signed then tl s else s)
      in if body = ''0'' then Some 0
         else if body = [] then None
         else
           (case duration_sum body of
              None \<Rightarrow> None
            | Some d \<Rightarrow>
                if neg then (if d \<le> 2 ^ 63 then Some (- int d) else None)
                else if d < 2 ^ 63 then Some (int d) else None))"

section \<open>Parsing\<close>

definition is_bool_flag :: "fval \<Rightarrow> bool" where
  "is_bool_flag v = (case v of VBool _ \<Rightarrow> True | _ \<Rightarrow> False)"

definition set_value :: "fval \<Rightarrow> string \<Rightarrow> fval option" where
  "set_value v text =
     (case v of
        VStr _ \<Rightarrow> Some (VStr text)
      | VBool _ \<Rightarrow> map_option VBool (ParseBool text)
      | VDur _ \<Rightarrow> map_option VDur (ParseDuration text)
      | VInt _ \<Rightarrow> map_option VInt (Atoi text))"

fun put_flag :: "string \<Rightarrow> fval \<Rightarrow> flags \<Rightarrow> flags" where
  "put_flag name v [] = []"
| "put_flag name v ((n, x) # fs) = (if n = name then (n, v) # fs else (n, x) # put_flag name v fs)"

datatype parsed = Parsed flags "string list" | FlagHelp | FlagError

text \<open>The name behind the dashes, and the value behind an equals sign in it (never its first byte).\<close>

definition split_flag :: "string \<Rightarrow> string \<times> string option" where
  "split_flag s =
     (let front = takeWhile (\<lambda>c. c \<noteq> CHR ''='') (tl s); back = dropWhile (\<lambda>c. c \<noteq> CHR ''='') (tl s)
      in (hd s # front, if back = [] then None else Some (tl back)))"

fun parse_flags :: "flags \<Rightarrow> string list \<Rightarrow> parsed" where
  "parse_flags fs [] = Parsed fs []"
| "parse_flags fs (s # args) =
     (if length s < 2 \<or> hd s \<noteq> CHR ''-'' then Parsed fs (s # args)
      else if s = ''--'' then Parsed fs args
      else
        (let body = (if s ! 1 = CHR ''-'' then drop 2 s else drop 1 s)
         in if body = [] \<or> hd body = CHR ''-'' \<or> hd body = CHR ''='' then FlagError
            else
              (case split_flag body of
                 (name, value) \<Rightarrow>
                   (case map_of fs name of
                      None \<Rightarrow> if name = ''help'' \<or> name = ''h'' then FlagHelp else FlagError
                    | Some cur \<Rightarrow>
                        if is_bool_flag cur then
                          (case set_value cur (case value of Some v \<Rightarrow> v | None \<Rightarrow> ''true'') of
                             None \<Rightarrow> FlagError
                           | Some v \<Rightarrow> parse_flags (put_flag name v fs) args)
                        else
                          (case value of
                             Some text \<Rightarrow>
                               (case set_value cur text of
                                  None \<Rightarrow> FlagError
                                | Some v \<Rightarrow> parse_flags (put_flag name v fs) args)
                           | None \<Rightarrow>
                               (case args of
                                  [] \<Rightarrow> FlagError
                                | text # rest \<Rightarrow>
                                    (case set_value cur text of
                                       None \<Rightarrow> FlagError
                                     | Some v \<Rightarrow> parse_flags (put_flag name v fs) rest)))))))"

section \<open>Reading flags\<close>

definition flag_str :: "flags \<Rightarrow> string \<Rightarrow> string" where
  "flag_str fs name = (case map_of fs name of Some (VStr s) \<Rightarrow> s | _ \<Rightarrow> [])"

definition flag_bool :: "flags \<Rightarrow> string \<Rightarrow> bool" where
  "flag_bool fs name = (case map_of fs name of Some (VBool b) \<Rightarrow> b | _ \<Rightarrow> False)"

definition flag_dur :: "flags \<Rightarrow> string \<Rightarrow> duration" where
  "flag_dur fs name = (case map_of fs name of Some (VDur d) \<Rightarrow> d | _ \<Rightarrow> 0)"

definition flag_int :: "flags \<Rightarrow> string \<Rightarrow> int" where
  "flag_int fs name = (case map_of fs name of Some (VInt i) \<Rightarrow> i | _ \<Rightarrow> 0)"

end
