(* ===== verification/Cli.thy ===== *)
theory Cli
  imports Serve Flags "HOL-Library.List_Lexorder" "HOL-Library.Char_ord"
begin

text \<open>
  \<^verbatim>\<open>cmd/nightwatch\<close>: the command line. A run yields the exit code, the text on standard output and
  the text the commands themselves put on standard error; the usage text of package \<^verbatim>\<open>flag\<close> and the
  log lines of \<^verbatim>\<open>log/slog\<close> are not part of it. \<open>c\<close> is the context that SIGINT and SIGTERM cancel.
\<close>

section \<open>Output\<close>

record cli_out =
  co_Exit :: int
  co_Stdout :: string
  co_Stderr :: string

abbreviation tab :: string where "tab \<equiv> [CHR 0x09]"
abbreviation nl :: string where "nl \<equiv> [CHR 0x0A]"

definition exit_with :: "int \<Rightarrow> string \<Rightarrow> string \<Rightarrow> cli_out" where
  "exit_with code out e = \<lparr>co_Exit = code, co_Stdout = out, co_Stderr = e\<rparr>"

definition envDefault :: "(string \<Rightarrow> string) \<Rightarrow> string \<Rightarrow> string \<Rightarrow> string" where
  "envDefault getenv name fallback = (if getenv name \<noteq> [] then getenv name else fallback)"

fun Join :: "string list \<Rightarrow> string \<Rightarrow> string" where
  "Join [] sep = []"
| "Join [x] sep = x"
| "Join (x # y # xs) sep = x @ sep @ Join (y # xs) sep"

definition printSteps :: "step list \<Rightarrow> string" where
  "printSteps steps =
     concat (map (\<lambda>s.
       ''  step='' @ step_Name s @ tab @ (if step_Succeeded s then ''ok'' else ''FAILED'') @
       (if step_Message s \<noteq> [] then tab @ ''msg='' @ Quote (step_Message s) else []) @ nl) steps)"

section \<open>drain-shutdown\<close>

record drainShutdownConfig =
  dc_kubeconfig :: string
  dc_talosconfig :: string
  dc_forceBMCOff :: bool
  dc_dryRun :: bool
  dc_drainTimeout :: duration
  dc_storageTimeout :: duration
  dc_powerOffTimeout :: duration
  dc_poll :: duration

definition drain_operate :: "drainShutdownConfig \<Rightarrow> op_config" where
  "drain_operate c =
     \<lparr>cf_Kubeconfig = dc_kubeconfig c, cf_Talosconfig = dc_talosconfig c, cf_ForceBMCOff = dc_forceBMCOff c,
      cf_DrainTimeout = dc_drainTimeout c, cf_StorageTimeout = dc_storageTimeout c,
      cf_PowerOffTimeout = dc_powerOffTimeout c, cf_SkipGPUWait = False, cf_ReachableTimeout = 0,
      cf_ReadyTimeout = 0, cf_GPUTimeout = 0, cf_Poll = dc_poll c\<rparr>"

definition drainShutdownPlan ::
  "(string \<Rightarrow> string) \<Rightarrow> string \<Rightarrow> string \<Rightarrow> node_spec \<Rightarrow> drainShutdownConfig \<Rightarrow> string" where
  "drainShutdownPlan getenv invName kubeNm node c =
     (let storage =
            (case TrueNASEnv getenv of
               (host, user, key) \<Rightarrow>
                 if host \<noteq> [] \<and> user \<noteq> [] \<and> key \<noteq> [] then
                   (if StorageGateIdentity node \<noteq> []
                    then ''iscsi gate via '' @ host @ '', match initiator_addr='' @ StorageGateIdentity node
                    else ''iscsi gate via '' @ host @ '', missing iscsi_initiator_addr'')
                 else ''skipped (no TrueNAS creds in env)'')
      in ''plan drain-shutdown '' @ invName @ nl @
         ''  kube_node='' @ kubeNm @ '' talos='' @ ns_TalosEndpoint node @ '' bmc='' @ bmc_Type (ns_BMC node) @
           ''/'' @ bmc_Host (ns_BMC node) @ nl @
         ''  storage='' @ storage @ '' force_bmc_off='' @ bool_str (dc_forceBMCOff c) @ nl @
         ''  timeouts: drain='' @ duration_str (dc_drainTimeout c) @ '' storage='' @ duration_str (dc_storageTimeout c) @
           '' poweroff='' @ duration_str (dc_powerOffTimeout c) @ '' poll='' @ duration_str (dc_poll c) @ nl)"

definition runDrainShutdown ::
  "('w, 'rc, 'tc) platform \<Rightarrow> ctx \<Rightarrow> inventory \<Rightarrow> string \<Rightarrow> drainShutdownConfig \<Rightarrow> 'w lworld \<Rightarrow> cli_out \<times> 'w lworld" where
  "runDrainShutdown pf c iv nodeName cfg w =
     (case inv_node iv nodeName of
        None \<Rightarrow> (exit_with 1 [] (''unknown node '' @ Quote nodeName @ nl), w)
      | Some node \<Rightarrow>
          (let kubeNm = (if ns_KubeNodeName node = [] then nodeName else ns_KubeNodeName node);
               plan = drainShutdownPlan (pf_Getenv pf) nodeName kubeNm node cfg
           in if dc_dryRun cfg then (exit_with 0 (plan @ ''dry-run: not executing'' @ nl) [], w)
              else
                (case operate_DrainShutdown pf c iv nodeName (drain_operate cfg) (Some (RealBuilder pf)) w of
                   ((steps, e), w') \<Rightarrow>
                     (case e of
                        Some e \<Rightarrow>
                          (exit_with 1 (plan @ printSteps steps)
                             (''drain-shutdown '' @ nodeName @ '': '' @ Error e @ nl), w')
                      | None \<Rightarrow>
                          (exit_with 0 (plan @ printSteps steps @ nodeName @ tab @ ''drain-shutdown'' @ tab @
                             ''result=ok'' @ nl) [], w')))))"

section \<open>wake\<close>

record wakeConfig =
  wc_kubeconfig :: string
  wc_talosconfig :: string
  wc_dryRun :: bool
  wc_skipGPUWait :: bool
  wc_reachableTimeout :: duration
  wc_readyTimeout :: duration
  wc_gpuTimeout :: duration
  wc_poll :: duration

definition wake_operate :: "wakeConfig \<Rightarrow> op_config" where
  "wake_operate c =
     \<lparr>cf_Kubeconfig = wc_kubeconfig c, cf_Talosconfig = wc_talosconfig c, cf_ForceBMCOff = False,
      cf_DrainTimeout = 0, cf_StorageTimeout = 0, cf_PowerOffTimeout = 0, cf_SkipGPUWait = wc_skipGPUWait c,
      cf_ReachableTimeout = wc_reachableTimeout c, cf_ReadyTimeout = wc_readyTimeout c,
      cf_GPUTimeout = wc_gpuTimeout c, cf_Poll = wc_poll c\<rparr>"

definition wakePlan :: "string \<Rightarrow> string \<Rightarrow> node_spec \<Rightarrow> bool \<Rightarrow> wakeConfig \<Rightarrow> string" where
  "wakePlan invName kubeNm node expectGPU c =
     (let gpu = (if expectGPU then ''yes ('' @ Join (ns_GPUs node) '', '' @ '')'' else ''no'')
      in ''plan wake '' @ invName @ nl @
         ''  kube_node='' @ kubeNm @ '' talos='' @ ns_TalosEndpoint node @ '' bmc='' @ bmc_Type (ns_BMC node) @
           ''/'' @ bmc_Host (ns_BMC node) @ nl @
         ''  wait_gpu='' @ gpu @ nl @
         ''  timeouts: reachable='' @ duration_str (wc_reachableTimeout c) @ '' ready='' @ duration_str (wc_readyTimeout c) @
           '' gpu='' @ duration_str (wc_gpuTimeout c) @ '' poll='' @ duration_str (wc_poll c) @ nl)"

definition runWake ::
  "('w, 'rc, 'tc) platform \<Rightarrow> ctx \<Rightarrow> inventory \<Rightarrow> string \<Rightarrow> wakeConfig \<Rightarrow> 'w lworld \<Rightarrow> cli_out \<times> 'w lworld" where
  "runWake pf c iv nodeName cfg w =
     (case inv_node iv nodeName of
        None \<Rightarrow> (exit_with 1 [] (''unknown node '' @ Quote nodeName @ nl), w)
      | Some node \<Rightarrow>
          (let kubeNm = (if ns_KubeNodeName node = [] then nodeName else ns_KubeNodeName node);
               plan = wakePlan nodeName kubeNm node (ExpectGPU node (wc_skipGPUWait cfg)) cfg
           in if wc_dryRun cfg then (exit_with 0 (plan @ ''dry-run: not executing'' @ nl) [], w)
              else
                (case operate_Wake pf c iv nodeName (wake_operate cfg) (Some (RealBuilder pf)) w of
                   ((steps, e), w') \<Rightarrow>
                     (case e of
                        Some e \<Rightarrow>
                          (exit_with 1 (plan @ printSteps steps) (''wake '' @ nodeName @ '': '' @ Error e @ nl), w')
                      | None \<Rightarrow>
                          (exit_with 0 (plan @ printSteps steps @ nodeName @ tab @ ''wake'' @ tab @
                             ''result=ok'' @ nl) [], w')))))"

section \<open>power\<close>

definition raw_suffix :: "bool \<Rightarrow> bmc_result \<Rightarrow> string" where
  "raw_suffix printRaw r =
     (if printRaw \<and> res_Raw r \<noteq> [] then tab @ ''bmc_raw='' @ Quote (res_Raw r) else [])"

text \<open>The adapter call of an action and its entry in the log.\<close>

definition power_action :: "string \<Rightarrow> 'w bmc_adapter \<Rightarrow> ((bmc_result \<Rightarrow> event) \<times> ('w, bmc_result) prim) option" where
  "power_action action client =
     (if action = ''on'' then Some (EvPowerOn, bmc_PowerOn client)
      else if action = ''off'' \<or> action = ''soft-off'' then Some (EvSoftOff, bmc_SoftOff client)
      else if action = ''hard-off'' then Some (EvHardOff, bmc_HardOff client)
      else if action = ''reset'' \<or> action = ''cycle'' then Some (EvReset, bmc_Reset client)
      else None)"

definition runPower ::
  "('w, 'rc, 'tc) platform \<Rightarrow> inventory \<Rightarrow> string \<Rightarrow> string \<Rightarrow> bool \<Rightarrow> duration \<Rightarrow> 'w lworld \<Rightarrow> cli_out \<times> 'w lworld" where
  "runPower pf iv action nodeName printRaw timeout w =
     (case inv_node iv nodeName of
        None \<Rightarrow> (exit_with 1 [] (''unknown node '' @ Quote nodeName @ nl), w)
      | Some node \<Rightarrow>
          (let b = ns_BMC node
           in case bmc_New (pf_Drivers pf) (bmc_Type b) (bmc_Host b) (bmc_Username b) (bmc_Password b) of
                Inl _ \<Rightarrow>
                  (exit_with 1 [] (''node '' @ nodeName @ '': unsupported bmc.type '' @ Quote (bmc_Type b) @
                     '' for power actions'' @ nl), w)
              | Inr client \<Rightarrow>
                  (case power_action action client of
                     None \<Rightarrow>
                       (exit_with 2 [] (''unknown power action '' @ Quote action @
                          '' (want on|off|hard-off|reset)'' @ nl), w)
                   | Some (ev, call) \<Rightarrow>
                       (case invoke ev call (WithTimeout background (w_clock w) timeout) w of
                          (result, w') \<Rightarrow>
                            if res_OK result
                            then (exit_with 0 (nodeName @ tab @ ''power_action='' @ action @ tab @ ''result=ok'' @ tab @
                                    ''intended_state='' @ bmc_power_str (res_PowerState result) @ nl) [], w')
                            else (exit_with 1 (nodeName @ tab @ ''power_action='' @ action @ tab @ ''result=error'' @ tab @
                                    ''bmc_error='' @ Quote (res_Error result) @ raw_suffix printRaw result @ nl) [], w')))))"

section \<open>status\<close>

definition printBMCPower ::
  "('w, 'rc, 'tc) platform \<Rightarrow> string \<Rightarrow> node_spec \<Rightarrow> bool \<Rightarrow> duration \<Rightarrow> 'w lworld \<Rightarrow> string \<times> 'w lworld" where
  "printBMCPower pf name node printRaw timeout w =
     (let b = ns_BMC node
      in case bmc_New (pf_Drivers pf) (bmc_Type b) (bmc_Host b) (bmc_Username b) (bmc_Password b) of
           Inl _ \<Rightarrow>
             (tab @ ''bmc_power=unsupported'' @ tab @ ''bmc_error='' @
                Quote (''unsupported bmc.type '' @ bmc_Type b @ '' for '' @ name), w)
         | Inr client \<Rightarrow>
             (case invoke EvGetPowerState (bmc_GetPowerState client) (WithTimeout background (w_clock w) timeout) w of
                (result, w') \<Rightarrow>
                  if res_OK result then (tab @ ''bmc_power='' @ bmc_power_str (res_PowerState result), w')
                  else (tab @ ''bmc_power=unknown'' @ tab @ ''bmc_error='' @ Quote (res_Error result) @
                          raw_suffix printRaw result, w')))"

fun print_nodes ::
  "('w, 'rc, 'tc) platform \<Rightarrow> inventory \<Rightarrow> bool \<Rightarrow> bool \<Rightarrow> duration \<Rightarrow> string list \<Rightarrow> 'w lworld \<Rightarrow> string \<times> 'w lworld" where
  "print_nodes pf iv queryBMC printRaw timeout [] w = ([], w)"
| "print_nodes pf iv queryBMC printRaw timeout (name # names) w =
     (case inv_node iv name of
        None \<Rightarrow> print_nodes pf iv queryBMC printRaw timeout names w
      | Some node \<Rightarrow>
          (let b = ns_BMC node;
               line = name @ tab @ ''elastic='' @ bool_str (ns_ElasticEligible node) @ tab @ ''bmc='' @ bmc_Type b @
                 ''/'' @ bmc_Host b @ tab @ ''talos='' @ ns_TalosEndpoint node
           in case (if queryBMC then printBMCPower pf name node printRaw timeout w else ([], w)) of
                (pw, w1) \<Rightarrow>
                  (case print_nodes pf iv queryBMC printRaw timeout names w1 of
                     (rest, w2) \<Rightarrow> (line @ pw @ nl @ rest, w2))))"

definition printStatus ::
  "('w, 'rc, 'tc) platform \<Rightarrow> inventory \<Rightarrow> bool \<Rightarrow> bool \<Rightarrow> duration \<Rightarrow> 'w lworld \<Rightarrow> string \<times> 'w lworld" where
  "printStatus pf iv queryBMC printRaw timeout =
     print_nodes pf iv queryBMC printRaw timeout (sort (map fst (inv_Nodes iv)))"

section \<open>serve\<close>

text \<open>A server that is never told to stop does not return, which is \<open>None\<close>.\<close>

definition serve_flags :: "(string \<Rightarrow> string) \<Rightarrow> flags" where
  "serve_flags getenv =
     [(''listen'', VStr (envDefault getenv ''NIGHTWATCH_LISTEN'' '':8080'')),
      (''kubeconfig'', VStr (getenv ''NIGHTWATCH_KUBECONFIG'')),
      (''talosconfig'', VStr (getenv ''NIGHTWATCH_TALOSCONFIG''))]"

type_synonym 'w new_server = "'w handler \<Rightarrow> server_options \<Rightarrow> 'w http_server"

definition serve_cli_config :: "(string \<Rightarrow> string) \<Rightarrow> flags \<Rightarrow> serve_config" where
  "serve_cli_config getenv fs =
     \<lparr>sc_Listen = flag_str fs ''listen'', sc_Token = getenv ''NIGHTWATCH_API_TOKEN'',
      sc_Kubeconfig = flag_str fs ''kubeconfig'', sc_Talosconfig = flag_str fs ''talosconfig''\<rparr>"

definition serve_exit :: "err option \<Rightarrow> cli_out" where
  "serve_exit r =
     (case r of
        None \<Rightarrow> exit_with 0 [] []
      | Some e \<Rightarrow> if errors_Is e Canceled then exit_with 0 [] [] else exit_with 1 [] (''serve: '' @ Error e @ nl))"

definition runServe ::
  "('w, 'rc, 'tc) platform \<Rightarrow> 'w new_server \<Rightarrow> ctx \<Rightarrow> inventory \<Rightarrow> string list \<Rightarrow> 'w lworld \<Rightarrow>
   (cli_out \<times> 'w lworld) option" where
  "runServe pf newServer c iv args w =
     (case parse_flags (serve_flags (pf_Getenv pf)) args of
        FlagHelp \<Rightarrow> Some (exit_with 0 [] [], w)
      | FlagError \<Rightarrow> Some (exit_with 2 [] [], w)
      | Parsed fs _ \<Rightarrow>
          map_option (\<lambda>(r, w'). (serve_exit r, w'))
            (Serve pf newServer iv (serve_cli_config (pf_Getenv pf) fs) c w))"

section \<open>main\<close>

definition main_flags :: "(string \<Rightarrow> string) \<Rightarrow> flags" where
  "main_flags getenv =
     [(''inventory'', VStr (envDefault getenv ''NIGHTWATCH_INVENTORY'' ''/etc/nightwatch/nodes.yml'')),
      (''bmc'', VBool False), (''raw'', VBool False), (''timeout'', VDur (10 * Second))]"

definition drain_flags :: "(string \<Rightarrow> string) \<Rightarrow> flags" where
  "drain_flags getenv =
     [(''kubeconfig'', VStr (getenv ''NIGHTWATCH_KUBECONFIG'')),
      (''talosconfig'', VStr (getenv ''NIGHTWATCH_TALOSCONFIG'')),
      (''force-bmc-off'', VBool False), (''dry-run'', VBool False),
      (''drain-timeout'', VDur (5 * Minute)), (''storage-timeout'', VDur (2 * Minute)),
      (''poweroff-timeout'', VDur (5 * Minute)), (''poll'', VDur (5 * Second))]"

definition wake_flags :: "(string \<Rightarrow> string) \<Rightarrow> flags" where
  "wake_flags getenv =
     [(''kubeconfig'', VStr (getenv ''NIGHTWATCH_KUBECONFIG'')),
      (''talosconfig'', VStr (getenv ''NIGHTWATCH_TALOSCONFIG'')),
      (''dry-run'', VBool False), (''skip-gpu-wait'', VBool False),
      (''reachable-timeout'', VDur (5 * Minute)), (''ready-timeout'', VDur (5 * Minute)),
      (''gpu-timeout'', VDur (3 * Minute)), (''poll'', VDur (5 * Second))]"

definition usage_main :: string where
  "usage_main = ''usage: nightwatch [--inventory path] [--bmc] status | power <on|off|hard-off|reset> <node> | drain-shutdown [flags] <node> | wake [flags] <node> | serve [flags]'' @ nl"

text \<open>A command that needs the inventory; the log line of a failure to load it is not modelled.\<close>

definition with_inventory ::
  "(string \<Rightarrow> err + string) \<Rightarrow> (string \<Rightarrow> err + inventory) \<Rightarrow> string \<Rightarrow> 'w lworld \<Rightarrow>
   (inventory \<Rightarrow> cli_out \<times> 'w lworld) \<Rightarrow> cli_out \<times> 'w lworld" where
  "with_inventory readFile unmarshal path w k =
     (case LoadFile readFile unmarshal path of Inl e \<Rightarrow> (exit_with 1 [] [], w) | Inr iv \<Rightarrow> k iv)"

definition drain_cli_config :: "flags \<Rightarrow> drainShutdownConfig" where
  "drain_cli_config fs =
     \<lparr>dc_kubeconfig = flag_str fs ''kubeconfig'', dc_talosconfig = flag_str fs ''talosconfig'',
      dc_forceBMCOff = flag_bool fs ''force-bmc-off'', dc_dryRun = flag_bool fs ''dry-run'',
      dc_drainTimeout = flag_dur fs ''drain-timeout'', dc_storageTimeout = flag_dur fs ''storage-timeout'',
      dc_powerOffTimeout = flag_dur fs ''poweroff-timeout'', dc_poll = flag_dur fs ''poll''\<rparr>"

definition wake_cli_config :: "flags \<Rightarrow> wakeConfig" where
  "wake_cli_config fs =
     \<lparr>wc_kubeconfig = flag_str fs ''kubeconfig'', wc_talosconfig = flag_str fs ''talosconfig'',
      wc_dryRun = flag_bool fs ''dry-run'', wc_skipGPUWait = flag_bool fs ''skip-gpu-wait'',
      wc_reachableTimeout = flag_dur fs ''reachable-timeout'', wc_readyTimeout = flag_dur fs ''ready-timeout'',
      wc_gpuTimeout = flag_dur fs ''gpu-timeout'', wc_poll = flag_dur fs ''poll''\<rparr>"

definition drain_command ::
  "('w, 'rc, 'tc) platform \<Rightarrow> (string \<Rightarrow> err + string) \<Rightarrow> (string \<Rightarrow> err + inventory) \<Rightarrow> ctx \<Rightarrow> string \<Rightarrow>
   string list \<Rightarrow> 'w lworld \<Rightarrow> cli_out \<times> 'w lworld" where
  "drain_command pf readFile unmarshal c invPath args w =
     (case parse_flags (drain_flags (pf_Getenv pf)) args of
        FlagHelp \<Rightarrow> (exit_with 0 [] [], w)
      | FlagError \<Rightarrow> (exit_with 2 [] [], w)
      | Parsed fs [] \<Rightarrow> (exit_with 2 [] (''usage: nightwatch drain-shutdown [flags] <node>'' @ nl), w)
      | Parsed fs (node # _) \<Rightarrow>
          with_inventory readFile unmarshal invPath w (\<lambda>iv.
            runDrainShutdown pf c (ApplyBMCCredentialsFromEnv (pf_Getenv pf) iv) node
              (drain_cli_config fs) w))"

definition wake_command ::
  "('w, 'rc, 'tc) platform \<Rightarrow> (string \<Rightarrow> err + string) \<Rightarrow> (string \<Rightarrow> err + inventory) \<Rightarrow> ctx \<Rightarrow> string \<Rightarrow>
   string list \<Rightarrow> 'w lworld \<Rightarrow> cli_out \<times> 'w lworld" where
  "wake_command pf readFile unmarshal c invPath args w =
     (case parse_flags (wake_flags (pf_Getenv pf)) args of
        FlagHelp \<Rightarrow> (exit_with 0 [] [], w)
      | FlagError \<Rightarrow> (exit_with 2 [] [], w)
      | Parsed fs [] \<Rightarrow> (exit_with 2 [] (''usage: nightwatch wake [flags] <node>'' @ nl), w)
      | Parsed fs (node # _) \<Rightarrow>
          with_inventory readFile unmarshal invPath w (\<lambda>iv.
            runWake pf c (ApplyBMCCredentialsFromEnv (pf_Getenv pf) iv) node
              (wake_cli_config fs) w))"

text \<open>The commands that end of themselves.\<close>

definition batch_command ::
  "('w, 'rc, 'tc) platform \<Rightarrow> (string \<Rightarrow> err + string) \<Rightarrow> (string \<Rightarrow> err + inventory) \<Rightarrow> ctx \<Rightarrow> flags \<Rightarrow>
   string \<Rightarrow> string list \<Rightarrow> 'w lworld \<Rightarrow> cli_out \<times> 'w lworld" where
  "batch_command pf readFile unmarshal c fs cmd args w =
     (let invPath = flag_str fs ''inventory'';
          creds = ApplyBMCCredentialsFromEnv (pf_Getenv pf)
      in if cmd = ''status'' then
           with_inventory readFile unmarshal invPath w (\<lambda>iv.
             case printStatus pf (if flag_bool fs ''bmc'' then creds iv else iv) (flag_bool fs ''bmc'')
                    (flag_bool fs ''raw'') (flag_dur fs ''timeout'') w of
               (out, w') \<Rightarrow> (exit_with 0 out [], w'))
         else if cmd = ''power'' then
           (case args of
              action # node # _ \<Rightarrow>
                with_inventory readFile unmarshal invPath w (\<lambda>iv.
                  runPower pf (creds iv) action node (flag_bool fs ''raw'') (flag_dur fs ''timeout'') w)
            | _ \<Rightarrow> (exit_with 2 [] (''usage: nightwatch power <on|off|hard-off|reset> <node>'' @ nl), w))
         else if cmd = ''drain-shutdown'' then drain_command pf readFile unmarshal c invPath args w
         else if cmd = ''wake'' then wake_command pf readFile unmarshal c invPath args w
         else (exit_with 2 [] (''unknown command '' @ Quote cmd @ nl), w))"

definition nightwatch_main ::
  "('w, 'rc, 'tc) platform \<Rightarrow> (string \<Rightarrow> err + string) \<Rightarrow> (string \<Rightarrow> err + inventory) \<Rightarrow> 'w new_server \<Rightarrow> ctx \<Rightarrow>
   string list \<Rightarrow> 'w lworld \<Rightarrow> (cli_out \<times> 'w lworld) option" where
  "nightwatch_main pf readFile unmarshal newServer c argv w =
     (case parse_flags (main_flags (pf_Getenv pf)) argv of
        FlagHelp \<Rightarrow> Some (exit_with 0 [] [], w)
      | FlagError \<Rightarrow> Some (exit_with 2 [] [], w)
      | Parsed fs [] \<Rightarrow> Some (exit_with 2 [] usage_main, w)
      | Parsed fs (cmd # args) \<Rightarrow>
          if cmd = ''serve'' then
            (case LoadFile readFile unmarshal (flag_str fs ''inventory'') of
               Inl e \<Rightarrow> Some (exit_with 1 [] [], w)
             | Inr iv \<Rightarrow> runServe pf newServer c (ApplyBMCCredentialsFromEnv (pf_Getenv pf) iv) args w)
          else Some (batch_command pf readFile unmarshal c fs cmd args w))"

end
