(* ===== verification/Cli_Props.thy ===== *)
theory Cli_Props
  imports Cli Api_Props
begin

text \<open>
  The command line: which runs touch nothing, what the exit codes say, and that the two front ends,
  the command line and the HTTP API, run the same operation.
\<close>

section \<open>Runs without effect\<close>

lemma run_not_2:
  "co_Exit (fst (runDrainShutdown pf c iv name cfg w)) \<noteq> 2"
  "co_Exit (fst (runWake pf c iv name wcfg w)) \<noteq> 2"
  by (auto simp: runDrainShutdown_def runWake_def exit_with_def Let_def split: option.splits prod.splits if_splits)

lemma runPower_exit_2: "co_Exit (fst (runPower pf iv action name raw timeout w)) = 2 \<Longrightarrow>
  snd (runPower pf iv action name raw timeout w) = w"
  by (auto simp: runPower_def exit_with_def Let_def split: option.splits sum.splits prod.splits if_splits)

lemma serve_exit_not_2: "co_Exit (serve_exit r) \<noteq> 2"
  by (simp add: serve_exit_def exit_with_def split: option.split)

lemma runServe_exit_2: "runServe pf newServer c iv args w = Some (out, w') \<Longrightarrow> co_Exit out = 2 \<Longrightarrow> w' = w"
  using serve_exit_not_2 by (auto simp: runServe_def exit_with_def split: parsed.splits)

lemma with_inventory_exit_2:
  assumes "\<And>iv. co_Exit (fst (k iv)) = 2 \<Longrightarrow> snd (k iv) = w"
    and "co_Exit (fst (with_inventory rf um path w k)) = 2"
  shows "snd (with_inventory rf um path w k) = w"
  using assms by (auto simp: with_inventory_def exit_with_def split: sum.splits)

lemma commands_exit_2:
  "co_Exit (fst (drain_command pf rf um c path args w)) = 2 \<Longrightarrow> snd (drain_command pf rf um c path args w) = w"
  "co_Exit (fst (wake_command pf rf um c path args w)) = 2 \<Longrightarrow> snd (wake_command pf rf um c path args w) = w"
  unfolding drain_command_def wake_command_def
  by (auto split: parsed.splits list.splits simp: run_not_2 intro!: with_inventory_exit_2)

lemma printed_exit_0: "co_Exit (fst (case x of (out, w') \<Rightarrow> (exit_with 0 out [], w'))) = 2 \<Longrightarrow> P"
  by (auto simp: exit_with_def split: prod.splits)

lemma batch_exit_2:
  "co_Exit (fst (batch_command pf rf um c fs cmd args w)) = 2 \<Longrightarrow> snd (batch_command pf rf um c fs cmd args w) = w"
  unfolding batch_command_def Let_def
  by (auto split: list.splits if_splits
      intro!: with_inventory_exit_2 runPower_exit_2 commands_exit_2 elim: printed_exit_0)

text \<open>
  Exit code 2 is a usage error, and a run that ends with it has called no backend and
  changed nothing: unknown flags and commands, malformed values, missing arguments and unknown
  power actions are all refused before anything is dialled.
\<close>

lemma usage_errors_touch_nothing:
  assumes "nightwatch_main pf readFile unmarshal newServer c argv w = Some (out, w')" and "co_Exit out = 2"
  shows "w' = w"
  using assms batch_exit_2 [of pf readFile unmarshal c _ _ _ w] unfolding nightwatch_main_def
  by (auto split: parsed.splits list.splits if_splits sum.splits simp: exit_with_def prod_eq_iff dest: runServe_exit_2)

text \<open>
  The process of the server: without a token it ends at once with exit code 1 and nothing was done;
  every run ends once its context has, at most thirty seconds later.
\<close>

lemma serve_process_fails_closed:
  assumes "pf_Getenv pf ''NIGHTWATCH_API_TOKEN'' = []" and "runServe pf newServer c iv args w = Some (out, w')"
    and "parse_flags (serve_flags (pf_Getenv pf)) args = Parsed fs rest"
  shows "co_Exit out = 1 \<and> w' = w"
  using assms
  by (auto simp: runServe_def Serve_def Serve_handler_def serve_cli_config_def serve_exit_def exit_with_def)

lemma serve_process_stops:
  assumes "done_at c = Some d" and "\<And>h opts. shutdown_in_time (newServer h opts)"
  shows "\<exists>out w'. runServe pf newServer c iv args w = Some (out, w') \<and> w_clock w' \<le> max (w_clock w) d + 30 * Second"
  using serve_stops_after_cancel [OF assms]
  by (fastforce simp: runServe_def split: parsed.splits)

definition cli_world :: "(int \<times> string list) lworld" where
  "cli_world = \<lparr>w_env = (0, []), w_clock = 0, w_trace = []\<rparr>"

definition lab_main :: "string list \<Rightarrow> (cli_out \<times> (int \<times> string list) lworld) option" where
  "lab_main argv =
     nightwatch_main lab_platform (\<lambda>_. Inr []) (\<lambda>_. Inr lab_inv) lab_server background argv cli_world"

abbreviation bad_duration :: "string list" where
  "bad_duration \<equiv> [''drain-shutdown'', ''--drain-timeout'', ''soon'', ''node-1'']"

lemma usage_errors_example: "lab_main bad_duration = Some (exit_with 2 [] [], cli_world)"
proof -
  have "ParseDuration ''soon'' = None" by code_simp
  then show ?thesis
    by (simp add: lab_main_def nightwatch_main_def batch_command_def drain_command_def drain_flags_def split_flag_def
        is_bool_flag_def set_value_def Let_def)
qed

section \<open>Two front ends, one operation\<close>

lemma plain_argument:
  "length node < 2 \<or> hd node \<noteq> CHR ''-'' \<Longrightarrow> parse_flags fs [node] = Parsed fs [node]"
  by simp

lemma operate_default_builder:
  "operate_DrainShutdown pf c iv name cfg (Some (RealBuilder pf)) w = operate_DrainShutdown pf c iv name cfg None w"
  "operate_Wake pf c iv name cfg (Some (RealBuilder pf)) w = operate_Wake pf c iv name cfg None w"
  by (simp_all only: operate_DrainShutdown_def operate_Wake_def option.case)

text \<open>The configuration of a served API that reads the same environment as the command line.\<close>

definition env_serve :: "(string \<Rightarrow> string) \<Rightarrow> serve_config" where
  "env_serve getenv =
     \<lparr>sc_Listen = envDefault getenv ''NIGHTWATCH_LISTEN'' '':8080'', sc_Token = getenv ''NIGHTWATCH_API_TOKEN'',
      sc_Kubeconfig = getenv ''NIGHTWATCH_KUBECONFIG'', sc_Talosconfig = getenv ''NIGHTWATCH_TALOSCONFIG''\<rparr>"

lemmas flag_reads = flag_str_def flag_bool_def flag_dur_def

lemma same_config:
  assumes "Serve_handler pf iv (env_serve (pf_Getenv pf)) = Inr h"
  shows "h_Inv h = iv" and "h_Builder h = None"
    and "drain_config h (\<lambda>_. None) = drain_operate (drain_cli_config (drain_flags (pf_Getenv pf)))"
    and "wake_config h (\<lambda>_. None) = wake_operate (wake_cli_config (wake_flags (pf_Getenv pf)))"
  using assms
  by (auto simp: Serve_handler_def env_serve_def drain_config_def wake_config_def drain_operate_def wake_operate_def
      drain_cli_config_def wake_cli_config_def drain_flags_def wake_flags_def flag_reads boolOr_def
      defaultDrainTimeout_def defaultStorageTimeout_def defaultPowerOffTimeout_def defaultReachableTimeout_def
      defaultReadyTimeout_def defaultGPUTimeout_def defaultPoll_def split: if_splits)

lemma writeOpResult_200: "rs_Code (writeOpResult node steps e) = 200 \<longleftrightarrow> e = None"
  by (auto simp: writeOpResult_def reply_def Let_def split: option.splits)

text \<open>A request without a body for a node that is free runs the operation with the default flags.\<close>

lemma locked_op_default:
  assumes "hr_Body r = None" and "tryAcquire node l = Some l'"
  shows "locked_op h names run node r l w =
    (case run (\<lambda>_. None) w of ((steps, e), w') \<Rightarrow> (writeOpResult node steps e, release node l', w'))"
  using assms by (simp add: locked_op_def decodeBody_def boolOr_def)

lemma not_dry: "\<not> dc_dryRun (drain_cli_config (drain_flags getenv))" "\<not> wc_dryRun (wake_cli_config (wake_flags getenv))"
  by (simp_all add: drain_cli_config_def wake_cli_config_def drain_flags_def wake_flags_def flag_reads)

text \<open>The command line is the operation, with the exit code for the error.\<close>

lemma runDrainShutdown_operate:
  "\<not> dc_dryRun cfg \<Longrightarrow>
   case operate_DrainShutdown pf c iv node (drain_operate cfg) None w of
     ((steps, e), w') \<Rightarrow>
       co_Exit (fst (runDrainShutdown pf c iv node cfg w)) = (if e = None then 0 else 1) \<and>
       snd (runDrainShutdown pf c iv node cfg w) = w'"
  by (auto simp: runDrainShutdown_def operate_default_builder exit_with_def Let_def operate_DrainShutdown_def
      operate_Lookup_def split: option.splits prod.splits)

lemma runWake_operate:
  "\<not> wc_dryRun cfg \<Longrightarrow>
   case operate_Wake pf c iv node (wake_operate cfg) None w of
     ((steps, e), w') \<Rightarrow>
       co_Exit (fst (runWake pf c iv node cfg w)) = (if e = None then 0 else 1) \<and>
       snd (runWake pf c iv node cfg w) = w'"
  by (auto simp: runWake_def operate_default_builder exit_with_def Let_def operate_Wake_def
      operate_Lookup_def split: option.splits prod.splits)

text \<open>
  C36 (equivalence): the command line and the HTTP API are the same operation. With the same
  inventory and environment, \<open>nightwatch drain-shutdown <node>\<close> and a POST without a body on a free node
  leave the world in the same state, by the same calls, and the exit code is 0 exactly when the
  response is 200; likewise for \<open>wake\<close>. In particular their default time-outs agree.
\<close>

theorem cli_and_api_agree:
  assumes "LoadFile readFile unmarshal path = Inr iv"
    and "Serve_handler pf (ApplyBMCCredentialsFromEnv (pf_Getenv pf) iv) (env_serve (pf_Getenv pf)) = Inr h"
    and "hr_Body r = None" and "tryAcquire node l = Some l'" and "length node < 2 \<or> hd node \<noteq> CHR ''-''"
  shows "(case (drain_command pf readFile unmarshal c path [node] w, api_drainShutdown pf h c node r l w) of
            ((out, w1), (resp, l1, w2)) \<Rightarrow> w1 = w2 \<and> (co_Exit out = 0 \<longleftrightarrow> rs_Code resp = 200)) \<and>
         (case (wake_command pf readFile unmarshal c path [node] w, api_wake pf h c node r l w) of
            ((out, w1), (resp, l1, w2)) \<Rightarrow> w1 = w2 \<and> (co_Exit out = 0 \<longleftrightarrow> rs_Code resp = 200))"
proof
  let ?iv = "ApplyBMCCredentialsFromEnv (pf_Getenv pf) iv"
  note cfg = same_config [OF assms(2)] and arg = plain_argument [OF assms(5)] and free = locked_op_default [OF assms(3,4)]
  show "case (drain_command pf readFile unmarshal c path [node] w, api_drainShutdown pf h c node r l w) of
      ((out, w1), (resp, l1, w2)) \<Rightarrow> w1 = w2 \<and> (co_Exit out = 0 \<longleftrightarrow> rs_Code resp = 200)"
    using runDrainShutdown_operate [OF not_dry(1), of pf c ?iv node "pf_Getenv pf" w] assms(1)
    by (auto simp: drain_command_def arg with_inventory_def api_drainShutdown_def free cfg writeOpResult_200
        simp del: parse_flags.simps split: prod.splits if_splits)
  show "case (wake_command pf readFile unmarshal c path [node] w, api_wake pf h c node r l w) of
      ((out, w1), (resp, l1, w2)) \<Rightarrow> w1 = w2 \<and> (co_Exit out = 0 \<longleftrightarrow> rs_Code resp = 200)"
    using runWake_operate [OF not_dry(2), of pf c ?iv node "pf_Getenv pf" w] assms(1)
    by (auto simp: wake_command_def arg with_inventory_def api_wake_def free cfg writeOpResult_200
        simp del: parse_flags.simps split: prod.splits if_splits)
qed

definition lab_cli_platform :: "(int \<times> string list, unit, unit) platform" where
  "lab_cli_platform =
     lab_platform\<lparr>pf_Getenv := (\<lambda>v. if v = ''NIGHTWATCH_API_TOKEN'' then ''secret'' else [])\<rparr>"

theorem cli_and_api_agree_witness:
  "\<exists>h. Serve_handler lab_cli_platform (ApplyBMCCredentialsFromEnv (pf_Getenv lab_cli_platform) lab_inv)
          (env_serve (pf_Getenv lab_cli_platform)) = Inr h \<and>
     (case (drain_command lab_cli_platform (\<lambda>_. Inr []) (\<lambda>_. Inr lab_inv) background [] [''node-1''] cli_world,
            api_drainShutdown lab_cli_platform h background ''node-1'' (lab_request ''drain-shutdown'' []) no_locks cli_world) of
        ((out, w1), (resp, l1, w2)) \<Rightarrow> w1 = w2 \<and> (co_Exit out = 0 \<longleftrightarrow> rs_Code resp = 200))"
proof -
  obtain h where h: "Serve_handler lab_cli_platform
      (ApplyBMCCredentialsFromEnv (pf_Getenv lab_cli_platform) lab_inv) (env_serve (pf_Getenv lab_cli_platform)) = Inr h"
    by (simp add: Serve_handler_def env_serve_def lab_cli_platform_def)
  have "LoadFile (\<lambda>_. Inr []) (\<lambda>_. Inr lab_inv) [] = Inr lab_inv" by (simp add: LoadFile_def lab_inv_loads)
  moreover have "hr_Body (lab_request ''drain-shutdown'' []) = None" by (simp add: lab_request_def)
  moreover have "\<exists>l. tryAcquire ''node-1'' no_locks = Some l" by (simp add: tryAcquire_def no_locks_def)
  ultimately show ?thesis
    using h cli_and_api_agree [where node = "''node-1''" and h = h and pf = lab_cli_platform] by fastforce
qed

end
