(* ===== verification/Scheme.thy ===== *)
theory Scheme
  imports Go_Runtime
begin

text \<open>
  The registration of the API types, \<^verbatim>\<open>api/v1alpha1/groupversion_info.go\<close>, and the scheme that
  \<^verbatim>\<open>cmd/nightwatch-operator\<close> builds from it. The schemes of apimachinery and the builder of
  controller-runtime are third-party: a parameter, of which only the documented effect of adding
  registered types is used.
\<close>

section \<open>Registration\<close>

record group_version =
  gv_Group :: string
  gv_Version :: string

text \<open>\<open>'b\<close> is a builder, \<open>'s\<close> a scheme; \<open>sl_Recognizes\<close> observes whether a scheme knows a kind.\<close>

record ('b, 's) scheme_lib =
  sl_Builder :: "group_version \<Rightarrow> 'b"
  sl_Register :: "string list \<Rightarrow> 'b \<Rightarrow> 'b"
  sl_AddToScheme :: "'b \<Rightarrow> 's \<Rightarrow> err option \<times> 's"
  sl_NewScheme :: 's
  sl_ClientGo :: "'s \<Rightarrow> err option \<times> 's"
  sl_Recognizes :: "'s \<Rightarrow> group_version \<Rightarrow> string \<Rightarrow> bool"

definition GroupVersion :: group_version where
  "GroupVersion = \<lparr>gv_Group = ''nightwatch.imla.ch'', gv_Version = ''v1alpha1''\<rparr>"

text \<open>The package's builder, behind its \<open>init\<close>.\<close>

definition SchemeBuilder :: "('b, 's) scheme_lib \<Rightarrow> 'b" where
  "SchemeBuilder lib = sl_Register lib [''ElasticNode'', ''ElasticNodeList''] (sl_Builder lib GroupVersion)"

definition AddToScheme :: "('b, 's) scheme_lib \<Rightarrow> 's \<Rightarrow> err option \<times> 's" where
  "AddToScheme lib s = sl_AddToScheme lib (SchemeBuilder lib) s"

text \<open>\<open>init\<close> of the operator drops both errors.\<close>

definition operator_scheme :: "('b, 's) scheme_lib \<Rightarrow> 's" where
  "operator_scheme lib =
     (let s1 = snd (sl_ClientGo lib (sl_NewScheme lib)); s2 = snd (AddToScheme lib s1) in s2)"

section \<open>The operator knows its kind\<close>

text \<open>Adding a builder to a scheme adds the types that were registered with it and drops none.\<close>

definition scheme_laws :: "('b, 's) scheme_lib \<Rightarrow> bool" where
  "scheme_laws lib \<longleftrightarrow>
     (\<forall>gv kinds s e s'. sl_AddToScheme lib (sl_Register lib kinds (sl_Builder lib gv)) s = (e, s') \<longrightarrow>
        (\<forall>kind \<in> set kinds. sl_Recognizes lib s' gv kind) \<and>
        (\<forall>gv' kind. sl_Recognizes lib s gv' kind \<longrightarrow> sl_Recognizes lib s' gv' kind))"

text \<open>Even where the registration of client-go fails, the scheme has both kinds of the API, and what it had.\<close>

lemma operator_scheme_kinds:
  assumes "scheme_laws lib"
  shows "sl_Recognizes lib (operator_scheme lib) GroupVersion ''ElasticNode''"
    and "sl_Recognizes lib (operator_scheme lib) GroupVersion ''ElasticNodeList''"
    and "sl_Recognizes lib (snd (sl_ClientGo lib (sl_NewScheme lib))) gv kind \<Longrightarrow>
      sl_Recognizes lib (operator_scheme lib) gv kind"
proof -
  let ?s = "snd (sl_ClientGo lib (sl_NewScheme lib))"
  obtain e s' where added: "sl_AddToScheme lib (SchemeBuilder lib) ?s = (e, s')" by (rule prod.exhaust)
  then have s': "operator_scheme lib = s'" by (simp add: operator_scheme_def AddToScheme_def Let_def)
  from assms added have laws: "\<forall>kind \<in> set [''ElasticNode'', ''ElasticNodeList'']. sl_Recognizes lib s' GroupVersion kind"
    "\<forall>gv kind. sl_Recognizes lib ?s gv kind \<longrightarrow> sl_Recognizes lib s' gv kind"
    unfolding scheme_laws_def SchemeBuilder_def by blast+
  show "sl_Recognizes lib (operator_scheme lib) GroupVersion ''ElasticNode''"
    "sl_Recognizes lib (operator_scheme lib) GroupVersion ''ElasticNodeList''"
    using laws(1) by (simp_all add: s')
  show "sl_Recognizes lib ?s gv kind \<Longrightarrow> sl_Recognizes lib (operator_scheme lib) gv kind"
    using laws(2) by (simp add: s')
qed

text \<open>Schemes as sets of kinds satisfy the law.\<close>

definition lab_schemes :: "(group_version \<times> string list, (group_version \<times> string) list) scheme_lib" where
  "lab_schemes =
     \<lparr>sl_Builder = (\<lambda>gv. (gv, [])), sl_Register = (\<lambda>ks (gv, ks'). (gv, ks' @ ks)),
      sl_AddToScheme = (\<lambda>(gv, ks) s. (None, map (Pair gv) ks @ s)), sl_NewScheme = [],
      sl_ClientGo = (\<lambda>s. (None, (\<lparr>gv_Group = [], gv_Version = ''v1''\<rparr>, ''Node'') # s)),
      sl_Recognizes = (\<lambda>s gv k. (gv, k) \<in> set s)\<rparr>"

lemma lab_schemes_law: "scheme_laws lab_schemes"
  by (auto simp: scheme_laws_def lab_schemes_def)

end
