(* ===== verification/Operator.thy ===== *)
theory Operator
  imports Controller_Props Cli Scheme
begin

text \<open>
  \<^verbatim>\<open>cmd/nightwatch-operator\<close>: how the operator's process is set up: its flags, the credentials of
  the BMCs by type, the provider and the reconciler it runs, and the manager's options; then the
  process from start to exit. The manager of controller-runtime with its leader election and health
  checks is third-party and a parameter, and so are the flags that its logger adds.
\<close>

section \<open>Setup\<close>

definition bmcCredsFromEnv :: "(string \<Rightarrow> string) \<Rightarrow> string \<Rightarrow> string \<times> string" where
  "bmcCredsFromEnv getenv bmcType =
     (if bmcType = ''amt'' then (getenv ''NIGHTWATCH_BMC_AMT_USERNAME'', getenv ''NIGHTWATCH_BMC_AMT_PASSWORD'')
      else if bmcType = ''idrac'' \<or> bmcType = ''redfish''
        then (getenv ''NIGHTWATCH_BMC_IDRAC_USERNAME'', getenv ''NIGHTWATCH_BMC_IDRAC_PASSWORD'')
      else ([], []))"

definition operator_envDefault :: "(string \<Rightarrow> string) \<Rightarrow> string \<Rightarrow> string \<Rightarrow> string" where
  "operator_envDefault getenv name fallback = (let v = getenv name in if v \<noteq> [] then v else fallback)"

definition operator_flags :: "(string \<Rightarrow> string) \<Rightarrow> flags" where
  "operator_flags getenv =
     [(''metrics-bind-address'', VStr '':8080''), (''health-probe-bind-address'', VStr '':8081''),
      (''leader-elect'', VBool True), (''leader-elect-id'', VStr ''nightwatch-operator.nightwatch.imla.ch''),
      (''resync'', VDur (60 * Second)), (''max-concurrent-reconciles'', VInt 4),
      (''target-cluster'', VStr (operator_envDefault getenv ''NIGHTWATCH_TARGET_CLUSTER'' ''default'')),
      (''target-kubeconfig'', VStr (getenv ''NIGHTWATCH_TARGET_KUBECONFIG'')),
      (''target-talosconfig'', VStr (getenv ''NIGHTWATCH_TARGET_TALOSCONFIG'')),
      (''inventory'', VStr (operator_envDefault getenv ''NIGHTWATCH_INVENTORY'' ''/etc/nightwatch/nodes.yml''))]"

definition operator_config :: op_config where
  "operator_config =
     \<lparr>cf_Kubeconfig = [], cf_Talosconfig = [], cf_ForceBMCOff = False, cf_DrainTimeout = 10 * Minute,
      cf_StorageTimeout = 5 * Minute, cf_PowerOffTimeout = 5 * Minute, cf_SkipGPUWait = False,
      cf_ReachableTimeout = 5 * Minute, cf_ReadyTimeout = 10 * Minute, cf_GPUTimeout = 5 * Minute,
      cf_Poll = 10 * Second\<rparr>"

definition requiredInventory ::
  "(string \<Rightarrow> err + string) \<Rightarrow> (string \<Rightarrow> err + inventory) \<Rightarrow> string \<Rightarrow> err + inventory" where
  "requiredInventory readFile unmarshal path = LoadFile readFile unmarshal path"

definition operator_provider :: "(string \<Rightarrow> string) \<Rightarrow> flags \<Rightarrow> inventory \<Rightarrow> 'w cluster_provider" where
  "operator_provider getenv fs iv =
     \<lparr>cp_Target = \<lparr>tc_Name = flag_str fs ''target-cluster'', tc_Kubeconfig = flag_str fs ''target-kubeconfig'',
                   tc_TalosConfig = flag_str fs ''target-talosconfig'', tc_InventoryPath = flag_str fs ''inventory''\<rparr>,
      cp_Inventory = Some iv, cp_BMCCreds = Some (bmcCredsFromEnv getenv), cp_Config = operator_config,
      cp_Build = None\<rparr>"

text \<open>The exit code of a process that does not come up, or the reconciler it registers.\<close>

definition operator_setup ::
  "('w, 'rc, 'tc) platform \<Rightarrow> (string \<Rightarrow> err + string) \<Rightarrow> (string \<Rightarrow> err + inventory) \<Rightarrow> 'w mgmt_client \<Rightarrow> flags \<Rightarrow>
   (time \<times> (err + elastic_node)) list \<Rightarrow> string list \<Rightarrow> int + 'w reconciler" where
  "operator_setup pf readFile unmarshal mgmt zap history argv =
     (case parse_flags (operator_flags (pf_Getenv pf) @ zap) argv of
        FlagHelp \<Rightarrow> Inl 0
      | FlagError \<Rightarrow> Inl 2
      | Parsed fs _ \<Rightarrow>
          (case requiredInventory readFile unmarshal (flag_str fs ''inventory'') of
             Inl _ \<Rightarrow> Inl 1
           | Inr iv \<Rightarrow>
               Inr \<lparr>rc_Client = mgmt, rc_Backends = BackendsFor pf (operator_provider (pf_Getenv pf) fs iv),
                    rc_Resync = flag_dur fs ''resync'', rc_IntentPoll = 0,
                    rc_MaxConcurrentReconciles = flag_int fs ''max-concurrent-reconciles'',
                    rc_Now = None, rc_history = history\<rparr>))"

text \<open>
  The manager of controller-runtime: its options, the controller that \<open>SetupWithManager\<close> registers
  with it, and the process from start to exit. What the manager does is a parameter: the error, if
  any, of making it, of adding the controller and each check to it; and of its \<open>Start\<close> the requests it
  hands to the reconciler, one after the other, and the error with which it returns when the process
  is told to stop. Between two requests time passes and the outside world moves on.
\<close>

record 's manager_options =
  mo_Scheme :: 's
  mo_Metrics :: string
  mo_HealthProbe :: string
  mo_LeaderElection :: bool
  mo_LeaderElectionID :: string
  mo_ReleaseOnCancel :: bool

definition operator_manager_options :: "('b, 's) scheme_lib \<Rightarrow> flags \<Rightarrow> 's manager_options" where
  "operator_manager_options sl fs =
     \<lparr>mo_Scheme = operator_scheme sl, mo_Metrics = flag_str fs ''metrics-bind-address'',
      mo_HealthProbe = flag_str fs ''health-probe-bind-address'',
      mo_LeaderElection = flag_bool fs ''leader-elect'', mo_LeaderElectionID = flag_str fs ''leader-elect-id'',
      mo_ReleaseOnCancel = True\<rparr>"

record controller_options =
  co_For :: string
  co_Named :: string
  co_MaxConcurrentReconciles :: int

definition SetupWithManager :: "'w reconciler \<Rightarrow> controller_options" where
  "SetupWithManager r =
     \<lparr>co_For = ''ElasticNode'', co_Named = ''elasticnode'',
      co_MaxConcurrentReconciles = rc_maxConcurrentReconciles r\<rparr>"

record 'w work_item =
  wi_Ctx :: ctx
  wi_Key :: object_key
  wi_Idle :: nat
  wi_Meanwhile :: "'w \<Rightarrow> 'w"

record ('w, 's) manager_lib =
  ml_New :: "'s manager_options \<Rightarrow> err option"
  ml_Add :: "controller_options \<Rightarrow> err option"
  ml_AddHealthz :: "string \<Rightarrow> err option"
  ml_AddReadyz :: "string \<Rightarrow> err option"
  ml_Start :: "'w work_item list \<times> err option"

fun reconcile_all :: "'w reconciler \<Rightarrow> 'w work_item list \<Rightarrow> 'w lworld \<Rightarrow> 'w lworld" where
  "reconcile_all r [] w = w"
| "reconcile_all r (i # items) w =
     reconcile_all r items
       (snd (Reconcile r (wi_Ctx i) (wi_Key i)
          (w\<lparr>w_clock := w_clock w + int (wi_Idle i), w_env := wi_Meanwhile i (w_env w)\<rparr>)))"

definition operator_run ::
  "('w, 's) manager_lib \<Rightarrow> 's manager_options \<Rightarrow> 'w reconciler \<Rightarrow> 'w lworld \<Rightarrow> int \<times> 'w lworld" where
  "operator_run ml opts r w =
     (if ml_New ml opts \<noteq> None then (1, w)
      else if ml_Add ml (SetupWithManager r) \<noteq> None then (1, w)
      else if ml_AddHealthz ml ''healthz'' \<noteq> None then (1, w)
      else if ml_AddReadyz ml ''readyz'' \<noteq> None then (1, w)
      else (if snd (ml_Start ml) \<noteq> None then 1 else 0, reconcile_all r (fst (ml_Start ml)) w))"

definition operator_main ::
  "('w, 'rc, 'tc) platform \<Rightarrow> (string \<Rightarrow> err + string) \<Rightarrow> (string \<Rightarrow> err + inventory) \<Rightarrow> 'w mgmt_client \<Rightarrow> flags \<Rightarrow>
   (time \<times> (err + elastic_node)) list \<Rightarrow> ('b, 's) scheme_lib \<Rightarrow> ('w, 's) manager_lib \<Rightarrow> string list \<Rightarrow> 'w lworld \<Rightarrow>
   int \<times> 'w lworld" where
  "operator_main pf readFile unmarshal mgmt zap history sl ml argv w =
     (case operator_setup pf readFile unmarshal mgmt zap history argv of
        Inl code \<Rightarrow> (code, w)
      | Inr r \<Rightarrow>
          (case parse_flags (operator_flags (pf_Getenv pf) @ zap) argv of
             Parsed fs _ \<Rightarrow> operator_run ml (operator_manager_options sl fs) r w
           | _ \<Rightarrow> (1, w)))"

text \<open>
  An operator that exits with 0 was asked for help, or has run: its inventory was read and checked
  before the manager was made, the manager's scheme knows the kind that the controller is for, and
  the number of reconciles at a time is positive.
\<close>

lemma operator_exit_0:
  assumes "operator_main pf readFile unmarshal mgmt zap history sl ml argv w = (0, w')" and "scheme_laws sl"
    and "parse_flags (operator_flags (pf_Getenv pf) @ zap) argv \<noteq> FlagHelp"
  shows "\<exists>fs rest iv r. parse_flags (operator_flags (pf_Getenv pf) @ zap) argv = Parsed fs rest \<and>
    LoadFile readFile unmarshal (flag_str fs ''inventory'') = Inr iv \<and>
    operator_setup pf readFile unmarshal mgmt zap history argv = Inr r \<and>
    ml_New ml (operator_manager_options sl fs) = None \<and>
    sl_Recognizes sl (mo_Scheme (operator_manager_options sl fs)) GroupVersion (co_For (SetupWithManager r)) \<and>
    w' = reconcile_all r (fst (ml_Start ml)) w \<and> 0 < co_MaxConcurrentReconciles (SetupWithManager r)"
  using assms operator_scheme_kinds(1) [OF assms(2)]
  by (auto simp: operator_main_def operator_setup_def operator_run_def requiredInventory_def SetupWithManager_def
      rc_maxConcurrentReconciles_def operator_manager_options_def split: parsed.splits sum.splits if_splits)

section \<open>The operator never forces a node off\<close>

lemma provider_never_forces:
  assumes "BackendsFor pf (operator_provider getenv fs iv) ref c t s = (Inr nb, d, s')"
  shows "\<not> ds_ForceBMCOff (nb_DrainOpts nb)"
  using assms
  by (auto simp: BackendsFor_def operator_provider_def pret_def pmap_def Let_def provider_backends_def
      operate_drain_opts_def provider_config_def operator_config_def
      split: if_splits option.splits sum.splits prod.splits)

lemma unforced_drain_no_hard_off:
  assumes "DrainShutdown c node deps opts w = (res, w')" and "\<not> ds_ForceBMCOff opts"
  shows "adds_none is_hard_off w w'"
proof -
  obtain steps err where res: "res = (steps, err)" by (cases res)
  obtain evs where evs: "w_trace w' = w_trace w @ evs"
    "drain_spec (gate_of deps opts) (ds_ForceBMCOff opts) node (ds_TalosEndpoint opts) evs (step_verdicts steps) (err = None)"
    using DrainShutdown_trace [OF assms(1) [unfolded res]] by blast
  have "\<not> is_hard_off e" if "e \<in> set evs" for e
  proof
    assume "is_hard_off e"
    then obtain r where "e = EvHardOff r" by (cases e) auto
    with that obtain pre post where "evs = pre @ EvHardOff r # post" by (metis split_list)
    with drain_spec_hard_off evs(2) assms(2) show False by blast
  qed
  with evs(1) show ?thesis by (auto simp: adds_none_def filter_empty_conv)
qed

lemma PowerOn_no_hard_off: "PowerOn c node deps opts w = (res, w') \<Longrightarrow> adds_none is_hard_off w w'"
proof -
  have "is_hard_off e \<Longrightarrow> cuts_power e" for e by (cases e) auto
  then show "PowerOn c node deps opts w = (res, w') \<Longrightarrow> adds_none is_hard_off w w'"
    using PowerOn_no_cut unfolding adds_none_def filter_empty_conv by metis
qed

lemma bookkeeping_hard_off: "bookkeeping is_hard_off"
  by (simp add: bookkeeping_def)

lemma operator_reconcile_no_hard_off:
  assumes "operator_setup pf readFile unmarshal mgmt zap history argv = Inr r" and "Reconcile r c key w = (res, w')"
  shows "adds_none is_hard_off w w'"
proof -
  from assms(1) obtain fs iv where prov: "rc_Backends r = BackendsFor pf (operator_provider (pf_Getenv pf) fs iv)"
    by (auto simp: operator_setup_def split: parsed.splits sum.splits)
  have object: "adds_none is_hard_off w1 w2" if "reconcile_object r c en w1 = (res, w2)" for en w1 w2
  proof (rule reconcile_object_adds_none [OF bookkeeping_hard_off that], goal_cases)
    case (1 be c' w out w1)
    from 1(1) have "\<not> ds_ForceBMCOff (nb_DrainOpts be)"
      unfolding prov by (elim exE) (rule provider_never_forces)
    with 1(3) show ?case by (rule unforced_drain_no_hard_off)
  next
    case (2 be c' w out w1)
    from 2(3) show ?case by (rule PowerOn_no_hard_off)
  qed
  obtain x w1 where got: "invoke (\<lambda>x. EvGetObject (case x of Inl e \<Rightarrow> Some e | Inr _ \<Rightarrow> None)) (mg_Get (rc_Client r) key) c w = (x, w1)"
    by (rule prod.exhaust)
  then have "adds_none is_hard_off w w1" by (auto simp: invoke_def adds_none_def split: prod.splits)
  moreover have "adds_none is_hard_off w1 w'"
    using assms(2) got object by (auto simp: Reconcile_def adds_none_def split: sum.splits)
  ultimately show ?thesis using adds_none_trans by blast
qed

text \<open>
  C35 (safety): the operator never sends a BMC hard-off, from its start to its exit. Whatever its
  flags, environment and inventory, whatever requests the manager hands to the reconciler, whatever
  the objects say and however the backends behave in the meantime, the log of the process has no
  hard-off: the escalation is left to a person at the command line or a client of the API. The
  process exits with 0, 1 or 2.
\<close>

theorem operator_never_hard_off:
  "case operator_main pf readFile unmarshal mgmt zap history sl ml argv w of
     (code, w') \<Rightarrow> code \<in> {0, 1, 2} \<and> adds_none is_hard_off w w'"
proof -
  have all: "adds_none is_hard_off w (reconcile_all r items w)"
    if "operator_setup pf readFile unmarshal mgmt zap history argv = Inr r" for r items w
  proof (induction items arbitrary: w)
    case (Cons i items)
    let ?w = "w\<lparr>w_clock := w_clock w + int (wi_Idle i), w_env := wi_Meanwhile i (w_env w)\<rparr>"
    have "adds_none is_hard_off w ?w" by (simp add: adds_none_def)
    moreover have "adds_none is_hard_off ?w (snd (Reconcile r (wi_Ctx i) (wi_Key i) ?w))"
      by (rule operator_reconcile_no_hard_off [OF that surjective_pairing])
    ultimately show ?case using Cons adds_none_trans by (metis reconcile_all.simps(2))
  qed (simp add: adds_none_def)
  show ?thesis
    using all
    by (auto simp: operator_main_def operator_run_def operator_setup_def adds_none_def split: sum.splits parsed.splits)
qed

end
