(* ===== verification/Rpc_Wire.thy ===== *)
theory Rpc_Wire
  imports TrueNAS Json_Print "HOL-Library.List_Lexorder" "HOL-Library.Char_ord"
begin

text \<open>
  The JSON-RPC wire between the TrueNAS client and a server: the text of a request as \<open>Call\<close> of
  \<^verbatim>\<open>internal/truenas/wsconn.go\<close> writes it, and the locale \<open>rpc_peer\<close>, the contract of a connection
  whose other end answers. The client's operations are proved against it once.
\<close>

section \<open>Requests\<close>

text \<open>
  The map of \<open>Call\<close> as JSON. \<open>json.Marshal\<close> writes the keys of a map in ascending order, those of the
  parameters too.
\<close>

definition string_map_json :: "(string \<times> string) list \<Rightarrow> jval" where
  "string_map_json m = JvObj (map (\<lambda>(k, v). (k, JvStr v)) (sort_key fst m))"

definition rpc_request_json :: "rpc_request \<Rightarrow> jval" where
  "rpc_request_json req =
     JvObj [(''id'', JvInt (rq_id req)), (''jsonrpc'', JvStr ''2.0''), (''method'', JvStr (rq_method req)),
            (''params'', JvArr (map string_map_json (rq_params req)))]"

text \<open>\<open>maxReadBytes\<close>: the longest frame a reader takes.\<close>

definition maxReadBytes :: nat where
  "maxReadBytes = 16 * 2 ^ 20"

section \<open>Options of a connection\<close>

text \<open>
  \<open>Option\<close>: a function on the dial-time settings, applied in the order given. A TLS configuration
  from outside takes precedence over the switch that turns verification off.
\<close>

record 'tls dial_config =
  dc_tlsConfig :: "'tls option"
  dc_insecure :: bool

type_synonym 'tls dial_option = "'tls dial_config \<Rightarrow> 'tls dial_config"

definition WithInsecureSkipVerify :: "'tls dial_option" where
  "WithInsecureSkipVerify c = c\<lparr>dc_insecure := True\<rparr>"

definition WithTLSConfig :: "'tls \<Rightarrow> 'tls dial_option" where
  "WithTLSConfig t c = c\<lparr>dc_tlsConfig := Some t\<rparr>"

text \<open>The configuration of the handshake; \<open>fresh insecure\<close> is \<open>&tls.Config{InsecureSkipVerify: insecure}\<close>.\<close>

definition dial_tls :: "(bool \<Rightarrow> 'tls) \<Rightarrow> 'tls dial_option list \<Rightarrow> 'tls" where
  "dial_tls fresh opts =
     (let cfg = foldl (\<lambda>cfg opt. opt cfg) \<lparr>dc_tlsConfig = None, dc_insecure = False\<rparr> opts
      in case dc_tlsConfig cfg of Some t \<Rightarrow> t | None \<Rightarrow> fresh (dc_insecure cfg))"

lemma dial_tls_precedence:
  "dial_tls fresh [] = fresh False" "dial_tls fresh [WithInsecureSkipVerify] = fresh True"
  "dial_tls fresh (os @ [WithTLSConfig t]) = t" "dial_tls fresh (os @ [WithTLSConfig t, WithInsecureSkipVerify]) = t"
  by (simp_all add: dial_tls_def WithTLSConfig_def WithInsecureSkipVerify_def Let_def)

text \<open>\<open>Client.Close\<close>: a client without a connection has nothing to release.\<close>

definition truenas_Close :: "'w ws_lib option \<Rightarrow> ('w, err option) prim" where
  "truenas_Close rpc = (case rpc of None \<Rightarrow> pret None | Some lib \<Rightarrow> ws_Close lib)"

section \<open>A connection that answers\<close>

text \<open>
  \<open>ready c t s m p\<close> says that a call of \<open>m\<close> with \<open>p\<close> made at \<open>t\<close> under \<open>c\<close> goes through; \<open>answer\<close> is what
  the other end replies, \<open>after\<close> the state behind the call and \<open>cost\<close> the time it takes.
\<close>

locale rpc_peer =
  fixes lib :: "'w ws_lib"
    and ready :: "ctx \<Rightarrow> time \<Rightarrow> 'w \<Rightarrow> string \<Rightarrow> (string \<times> string) list list \<Rightarrow> bool"
    and answer :: "'w \<Rightarrow> string \<Rightarrow> (string \<times> string) list list \<Rightarrow> rpc_error + string"
    and after :: "'w \<Rightarrow> 'w"
    and cost :: nat
  assumes served: "ready c t s m p \<Longrightarrow>
    \<exists>d1 d2 s1 frame resp.
      ws_Write lib \<lparr>rq_id = ws_id lib s + 1, rq_method = m, rq_params = p\<rparr> c t
        (ws_set_id lib (ws_id lib s + 1) s) = (None, d1, s1) \<and>
      ws_Read lib c (t + int d1) s1 = (Inr frame, d2, after s) \<and> d1 + d2 = cost \<and>
      decode_reply frame = Inr resp \<and> rp_ID resp = Some (ws_id lib s + 1) \<and>
      answer s m p = (case rp_Error resp of Some e \<Rightarrow> Inl e | None \<Rightarrow> Inr (rp_Result resp))"
begin

lemma Call_answered:
  assumes "ready c t s m p"
  shows "ws_Call lib m p c t s =
    (case answer s m p of Inl e \<Rightarrow> Inl (Err (rpc_error_Error e)) | Inr raw \<Rightarrow> Inr raw, cost, after s)"
proof -
  obtain d1 d2 s1 frame resp where
    "ws_Write lib \<lparr>rq_id = ws_id lib s + 1, rq_method = m, rq_params = p\<rparr> c t
       (ws_set_id lib (ws_id lib s + 1) s) = (None, d1, s1)"
    "ws_Read lib c (t + int d1) s1 = (Inr frame, d2, after s)" "d1 + d2 = cost"
    "decode_reply frame = Inr resp" "rp_ID resp = Some (ws_id lib s + 1)"
    "answer s m p = (case rp_Error resp of Some e \<Rightarrow> Inl e | None \<Rightarrow> Inr (rp_Result resp))"
    using served [OF assms] by metis
  then show ?thesis by (auto simp: ws_Call_def Let_def split: option.splits)
qed

lemma SessionTable_answered:
  assumes "ready c t s ''iscsi.global.sessions'' []" and "answer s ''iscsi.global.sessions'' [] = Inr raw"
  shows "SessionTable lib c t s = (Inr (table_of raw), cost, after s)"
  using Call_answered [OF assms(1)] assms(2) by (simp add: SessionTable_eq pmap_def)

lemma Sessions_answered:
  assumes "ready c t s ''iscsi.global.sessions'' []" and "answer s ''iscsi.global.sessions'' [] = Inr raw"
    and "TrimSpace raw \<noteq> []" and "json_Unmarshal raw = Inr v" and "decode_slice decode_session v = Inr xs"
  shows "Sessions lib c t s = (Inr xs, cost, after s)"
  using Call_answered [OF assms(1)] assms(2-5) by (simp add: Sessions_def sessionsRaw_def pmap_def)

lemma login_answered:
  assumes "ready c t s ''auth.login_ex''
      [[(''mechanism'', ''API_KEY_PLAIN''), (''username'', username), (''api_key'', apiKey)]]"
    and "answer s ''auth.login_ex''
      [[(''mechanism'', ''API_KEY_PLAIN''), (''username'', username), (''api_key'', apiKey)]] = Inr raw"
    and "json_Unmarshal raw = Inr (JObj [(''response_type'', raw', JStr typ')])"
  shows "\<exists>e. truenas_login lib username apiKey c t s = (e, cost, after s) \<and> (e = None \<longleftrightarrow> typ' = ''SUCCESS'')"
proof -
  have "field_values ''response_type'' [(''response_type'', raw', JStr typ')] = [(raw', JStr typ')]"
    by (simp add: field_values_def EqualFold_def)
  with Call_answered [OF assms(1)] assms(2,3) show ?thesis
    by (simp add: truenas_login_def pmap_def struct_members_def)
qed

end

end
