(* ===== verification/Sim_TrueNAS.thy ===== *)
theory Sim_TrueNAS
  imports Rpc_Wire
begin

text \<open>
  \<^verbatim>\<open>internal/sim/truenas.go\<close>: the simulator of a TrueNAS target, and the client of
  \<^verbatim>\<open>internal/truenas\<close> run against it. The handler's fields are read and written under its mutex, so
  an access is one step; several connections may share one handler. The certificates and the
  listeners of the wrappers are \<^verbatim>\<open>crypto/x509\<close> and \<^verbatim>\<open>net/http\<close>.
\<close>

section \<open>Handler\<close>

record sim_session =
  ss_Initiator :: string
  ss_InitiatorAddr :: string
  ss_Target :: string

record TrueNASHandler =
  th_apiKey :: string
  th_sessions :: "sim_session list"

definition NewTrueNASHandler :: "string \<Rightarrow> sim_session list \<Rightarrow> TrueNASHandler" where
  "NewTrueNASHandler apiKey sessions = \<lparr>th_apiKey = apiKey, th_sessions = sessions\<rparr>"

definition SetSessions :: "sim_session list \<Rightarrow> TrueNASHandler \<Rightarrow> TrueNASHandler" where
  "SetSessions sessions h = h\<lparr>th_sessions := sessions\<rparr>"

definition RemoveSessionByAddr :: "string \<Rightarrow> TrueNASHandler \<Rightarrow> TrueNASHandler" where
  "RemoveSessionByAddr addr h =
     h\<lparr>th_sessions := foldl (\<lambda>kept s. if ss_InitiatorAddr s \<noteq> addr then kept @ [s] else kept) [] (th_sessions h)\<rparr>"

text \<open>The error object of a reply, and the JSON of a session; a struct is written in the order of its fields.\<close>

record rpcErr =
  er_Code :: int
  er_Message :: string

definition rpcErr_json :: "rpcErr \<Rightarrow> jval" where
  "rpcErr_json e = JvObj [(''code'', JvInt (er_Code e)), (''message'', JvStr (er_Message e))]"

definition session_json :: "sim_session \<Rightarrow> jval" where
  "session_json s =
     JvObj [(''initiator'', JvStr (ss_Initiator s)), (''initiator_addr'', JvStr (ss_InitiatorAddr s)),
            (''target'', JvStr (ss_Target s))]"

record login_args =
  la_Mechanism :: string
  la_Username :: string
  la_APIKey :: string

definition decode_login_args :: "json \<Rightarrow> err + login_args" where
  "decode_login_args v =
     (case struct_members v of
        Inl e \<Rightarrow> Inl e
      | Inr ms \<Rightarrow>
          (case (decode_string [] (field_values ''mechanism'' ms),
                 decode_string [] (field_values ''username'' ms),
                 decode_string [] (field_values ''api_key'' ms)) of
             (Inr m, Inr u, Inr k) \<Rightarrow> Inr \<lparr>la_Mechanism = m, la_Username = u, la_APIKey = k\<rparr>
           | _ \<Rightarrow> Inl type_error))"

definition response_type :: "string \<Rightarrow> jval" where
  "response_type r = JvObj [(''response_type'', JvStr r)]"

definition sim_login :: "TrueNASHandler \<Rightarrow> string \<Rightarrow> rpcErr + jval" where
  "sim_login h params =
     (case (case json_Unmarshal params of Inl e \<Rightarrow> Inl e | Inr v \<Rightarrow> decode_slice decode_login_args v) of
        Inr (a # _) \<Rightarrow>
          if la_Mechanism a \<noteq> ''API_KEY_PLAIN'' then Inr (response_type ''AUTH_ERR'')
          else if th_apiKey h \<noteq> [] \<and> la_APIKey a \<noteq> th_apiKey h then Inr (response_type ''AUTH_ERR'')
          else Inr (response_type ''SUCCESS'')
      | _ \<Rightarrow> Inl \<lparr>er_Code = -32602, er_Message = ''invalid login params''\<rparr>)"

text \<open>
  The copy \<open>append([]Session(nil), ...)\<close> of an empty list is the nil slice, which is written as
  \<open>null\<close> and not as \<open>[]\<close>.
\<close>

definition sim_dispatch :: "TrueNASHandler \<Rightarrow> string \<Rightarrow> string \<Rightarrow> rpcErr + jval" where
  "sim_dispatch h method params =
     (if method = ''auth.login_ex'' then sim_login h params
      else if method = ''iscsi.global.sessions''
        then Inr (if th_sessions h = [] then JvNull else JvArr (map session_json (th_sessions h)))
      else Inl \<lparr>er_Code = -32601, er_Message = ''method not found: '' @ method\<rparr>)"

record sim_request_rpc =
  sr_ID :: "int option"
  sr_Method :: string
  sr_Params :: string

definition decode_request :: "string \<Rightarrow> err + sim_request_rpc" where
  "decode_request frame =
     (case json_Unmarshal frame of
        Inl e \<Rightarrow> Inl e
      | Inr v \<Rightarrow>
          (case struct_members v of
             Inl e \<Rightarrow> Inl e
           | Inr ms \<Rightarrow>
               (case (decode_int_ptr None (field_values ''id'' ms), decode_string [] (field_values ''method'' ms)) of
                  (Inr i, Inr m) \<Rightarrow>
                    Inr \<lparr>sr_ID = i, sr_Method = m, sr_Params = decode_raw (field_values ''params'' ms)\<rparr>
                | _ \<Rightarrow> Inl type_error)))"

definition reply_json :: "int option \<Rightarrow> rpcErr + jval \<Rightarrow> jval" where
  "reply_json i res =
     (let ident = (''id'', case i of None \<Rightarrow> JvNull | Some n \<Rightarrow> JvInt n); version = (''jsonrpc'', JvStr ''2.0'')
      in case res of
           Inl e \<Rightarrow> JvObj [(''error'', rpcErr_json e), ident, version]
         | Inr v \<Rightarrow> JvObj [ident, version, (''result'', v)])"

text \<open>
  One round of the loop in \<open>ServeHTTP\<close>: the reply to a frame, or \<open>None\<close> when the read fails and the
  handler returns: the text is not a request, or it is longer than the limit.
\<close>

definition sim_round :: "TrueNASHandler \<Rightarrow> string \<Rightarrow> jval option" where
  "sim_round h frame =
     (if length frame > 16 * 2 ^ 20 then None
      else (case decode_request frame of
              Inl _ \<Rightarrow> None
            | Inr req \<Rightarrow> Some (reply_json (sr_ID req) (sim_dispatch h (sr_Method req) (sr_Params req)))))"

text \<open>
  The loop on the frames a client sends, each with the handler's state at the time it is served
  and whether the reply can be written: the replies in order. A request that is not upgraded to a
  WebSocket gets none.
\<close>

fun sim_loop :: "(TrueNASHandler \<times> string \<times> bool) list \<Rightarrow> jval list" where
  "sim_loop [] = []"
| "sim_loop ((h, frame, written) # rest) =
     (case sim_round h frame of
        None \<Rightarrow> []
      | Some reply \<Rightarrow> if written then reply # sim_loop rest else [])"

definition sim_ServeHTTP :: "bool \<Rightarrow> (TrueNASHandler \<times> string \<times> bool) list \<Rightarrow> jval list" where
  "sim_ServeHTTP accepted msgs = (if accepted then sim_loop msgs else [])"

text \<open>\<open>mux\<close>: the handler is mounted at one path; \<open>None\<close> is the multiplexer's \<open>404\<close>.\<close>

definition sim_mux :: "'h \<Rightarrow> string \<Rightarrow> 'h option" where
  "sim_mux h path = (if path = ''/api/current'' then Some h else None)"

lemma RemoveSessionByAddr_filter:
  "RemoveSessionByAddr addr h = h\<lparr>th_sessions := filter (\<lambda>s. ss_InitiatorAddr s \<noteq> addr) (th_sessions h)\<rparr>"
proof -
  have "foldl (\<lambda>kept s. if ss_InitiatorAddr s \<noteq> addr then kept @ [s] else kept) acc xs =
      acc @ filter (\<lambda>s. ss_InitiatorAddr s \<noteq> addr) xs" for acc and xs :: "sim_session list"
    by (induction xs arbitrary: acc) auto
  then show ?thesis by (simp add: RemoveSessionByAddr_def)
qed

section \<open>What the simulator reads\<close>

lemma field_names_distinct:
  "\<not> EqualFold ''id'' ''method''" "\<not> EqualFold ''id'' ''params''" "\<not> EqualFold ''jsonrpc'' ''id''"
  "\<not> EqualFold ''jsonrpc'' ''method''" "\<not> EqualFold ''jsonrpc'' ''params''" "\<not> EqualFold ''method'' ''id''"
  "\<not> EqualFold ''method'' ''params''" "\<not> EqualFold ''params'' ''id''" "\<not> EqualFold ''params'' ''method''"
  "\<not> EqualFold ''id'' ''error''" "\<not> EqualFold ''id'' ''result''" "\<not> EqualFold ''jsonrpc'' ''error''"
  "\<not> EqualFold ''jsonrpc'' ''result''" "\<not> EqualFold ''error'' ''id''" "\<not> EqualFold ''error'' ''result''"
  "\<not> EqualFold ''result'' ''id''" "\<not> EqualFold ''result'' ''error''"
  "\<not> EqualFold ''code'' ''message''" "\<not> EqualFold ''message'' ''code''" "\<not> EqualFold ''code'' ''data''"
  "\<not> EqualFold ''message'' ''data''"
  "\<not> EqualFold ''initiator'' ''initiator_addr''" "\<not> EqualFold ''initiator'' ''target''"
  "\<not> EqualFold ''initiator_addr'' ''initiator''" "\<not> EqualFold ''initiator_addr'' ''target''"
  "\<not> EqualFold ''target'' ''initiator''" "\<not> EqualFold ''target'' ''initiator_addr''"
  "\<not> EqualFold ''api_key'' ''mechanism''" "\<not> EqualFold ''api_key'' ''username''"
  "\<not> EqualFold ''mechanism'' ''api_key''" "\<not> EqualFold ''mechanism'' ''username''"
  "\<not> EqualFold ''username'' ''api_key''" "\<not> EqualFold ''username'' ''mechanism''"
  by code_simp+

lemma EqualFold_refl: "EqualFold s s"
  by (simp add: EqualFold_def)

lemma jval_ok_json [simp]:
  "jval_ok (string_map_json m)" "jval_ok (rpc_request_json req)" "jval_ok (session_json x)" "jval_ok (response_type r)"
  "jval_ok (rpcErr_json e)" "jval_ok (reply_json i (Inl e))" "jval_ok (reply_json i (Inr v)) = jval_ok v"
  by (auto simp: string_map_json_def rpc_request_json_def session_json_def response_type_def rpcErr_json_def reply_json_def
      list_all_iff split: option.splits)

lemma sim_dispatch_ok: "sim_dispatch h m p = Inr v \<Longrightarrow> jval_ok v"
  by (auto simp: sim_dispatch_def sim_login_def list_all_iff split: if_splits sum.splits list.splits)

lemmas field_simps_json = field_values_def field_names_distinct EqualFold_refl struct_members_def

text \<open>Whatever the client writes is read as sent; an identifier outside 64 bits is not read at all.\<close>

lemma decode_request_json:
  assumes "json_end nl" and "skip_ws nl = []"
  shows "decode_request (json_Marshal (rpc_request_json req) @ nl) =
    (if int64 (rq_id req)
     then Inr \<lparr>sr_ID = Some (rq_id req), sr_Method = rq_method req,
               sr_Params = json_Marshal (JvArr (map string_map_json (rq_params req)))\<rparr>
     else Inl type_error)"
  unfolding decode_request_def Unmarshal_Marshal [OF jval_ok_json(2) assms]
  by (simp add: rpc_request_json_def field_simps_json parse_int64_int_str decode_raw_def del: json_Marshal.simps)

text \<open>What the client sees of a reply.\<close>

definition seen_error :: "rpcErr \<Rightarrow> rpc_error" where
  "seen_error e = \<lparr>re_Code = er_Code e, re_Message = er_Message e, re_Data = []\<rparr>"

lemma decode_reply_json:
  assumes "json_end nl" and "skip_ws nl = []" and "int64 i" and "\<And>e. res = Inl e \<Longrightarrow> int64 (er_Code e)"
    and "\<And>v. res = Inr v \<Longrightarrow> jval_ok v"
  shows "decode_reply (json_Marshal (reply_json (Some i) res) @ nl) =
    Inr (case res of
           Inl e \<Rightarrow> \<lparr>rp_ID = Some i, rp_Result = [], rp_Error = Some (seen_error e)\<rparr>
         | Inr v \<Rightarrow> \<lparr>rp_ID = Some i, rp_Result = json_Marshal v, rp_Error = None\<rparr>)"
proof (cases res)
  case (Inl e)
  then show ?thesis
    unfolding decode_reply_def Inl Unmarshal_Marshal [OF jval_ok_json(6) assms(1,2)]
    by (simp add: assms(3,4) parse_int64_int_str Inl reply_json_def rpcErr_json_def field_simps_json decode_raw_def decode_rpc_error_def
        seen_error_def del: json_Marshal.simps)
next
  case (Inr v)
  then have ok: "jval_ok (reply_json (Some i) (Inr v))" using assms(5) by simp
  show ?thesis
    unfolding decode_reply_def Inr Unmarshal_Marshal [OF ok assms(1,2)]
    by (simp add: assms(3) parse_int64_int_str Inr reply_json_def field_simps_json decode_raw_def del: json_Marshal.simps)
qed

lemma sim_dispatch_code: "sim_dispatch h m p = Inl e \<Longrightarrow> int64 (er_Code e)"
  by (auto simp: sim_dispatch_def sim_login_def int64_def split: if_splits sum.splits list.splits)

text \<open>The login: accepted exactly when no key is set or the key is the one set.\<close>

definition key_accepted :: "TrueNASHandler \<Rightarrow> string \<Rightarrow> bool" where
  "key_accepted h key \<longleftrightarrow> th_apiKey h = [] \<or> key = th_apiKey h"

lemma sort_login_params:
  "sort_key fst [(''mechanism'', m), (''username'', u), (''api_key'', k)] =
   [(''api_key'', k :: string), (''mechanism'', m), (''username'', u)]"
proof -
  have "''api_key'' \<le> ''username''" "''api_key'' \<le> ''mechanism''" "''mechanism'' \<le> ''username''"
    "\<not> ''mechanism'' \<le> ''api_key''" "\<not> ''username'' \<le> ''mechanism''" "\<not> ''username'' \<le> ''api_key''"
    by code_simp+
  then show ?thesis by simp
qed

lemma sim_login_client:
  "sim_login h (json_Marshal (JvArr (map string_map_json
     [[(''mechanism'', ''API_KEY_PLAIN''), (''username'', user), (''api_key'', key)]]))) =
   Inr (response_type (if key_accepted h key then ''SUCCESS'' else ''AUTH_ERR''))"
proof -
  have "jval_ok (JvArr (map string_map_json ps))" for ps by (simp add: list_all_iff)
  note read = Unmarshal_Marshal_plain [OF this]
  show ?thesis
    unfolding sim_login_def read
    by (auto simp: decode_slice_def decode_login_args_def string_map_json_def sort_login_params
        field_simps_json key_accepted_def simp del: json_Marshal.simps)
qed

text \<open>Every request of the client that can be read is answered once, in order, under its own id.\<close>

lemma sim_loop_answers:
  assumes "json_end nl" and "skip_ws nl = []"
    and "\<forall>(h, req) \<in> set calls. int64 (rq_id req) \<and> length (json_Marshal (rpc_request_json req) @ nl) \<le> maxReadBytes"
  shows "sim_ServeHTTP True (map (\<lambda>(h, req). (h, json_Marshal (rpc_request_json req) @ nl, True)) calls) =
    map (\<lambda>(h, req). reply_json (Some (rq_id req))
      (sim_dispatch h (rq_method req) (json_Marshal (JvArr (map string_map_json (rq_params req)))))) calls"
  using assms(3)
  by (induction calls)
    (auto simp: sim_ServeHTTP_def sim_round_def maxReadBytes_def decode_request_json [OF assms(1,2)]
      simp del: json_Marshal.simps)

section \<open>The client connected to the simulator\<close>

text \<open>
  A connection to the simulator: the handler at the other end, the frames on their way to the
  client, the client's request counter, and whether both ends still hold the connection. Every
  operation takes \<open>lat\<close>, and fails when the context ends before. A frame is a JSON text followed by
  \<open>nl\<close>, what the library's encoder appends. A frame over the limit ends the connection.
\<close>

record sim_conn =
  sc_handler :: TrueNASHandler
  sc_queue :: "string list"
  sc_id :: int
  sc_open :: bool

definition in_time :: "nat \<Rightarrow> ctx \<Rightarrow> time \<Rightarrow> (err + 'a) \<times> 's \<Rightarrow> 's \<Rightarrow> (err + 'a) \<times> nat \<times> 's" where
  "in_time lat c t r s =
     (case ctx_err c (t + int lat) of Some e \<Rightarrow> (Inl e, lat, s) | None \<Rightarrow> (fst r, lat, snd r))"

definition conn_closed :: err where
  "conn_closed = Err ''use of closed network connection''"

definition sim_send :: "string \<Rightarrow> rpc_request \<Rightarrow> sim_conn \<Rightarrow> (err + unit) \<times> sim_conn" where
  "sim_send nl req s =
     (if \<not> sc_open s then (Inl conn_closed, s)
      else (case sim_round (sc_handler s) (json_Marshal (rpc_request_json req) @ nl) of
              None \<Rightarrow> (Inr (), s\<lparr>sc_open := False\<rparr>)
            | Some reply \<Rightarrow> (Inr (), s\<lparr>sc_queue := sc_queue s @ [json_Marshal reply @ nl]\<rparr>)))"

definition sim_recv :: "sim_conn \<Rightarrow> (err + string) \<times> sim_conn" where
  "sim_recv s =
     (case sc_queue s of
        [] \<Rightarrow> (Inl (if sc_open s then ErrEOF else conn_closed), s\<lparr>sc_open := False\<rparr>)
      | frame # rest \<Rightarrow>
          if length frame > maxReadBytes then (Inl (Err ''message too big''), s\<lparr>sc_queue := [], sc_open := False\<rparr>)
          else (Inr frame, s\<lparr>sc_queue := rest\<rparr>))"

definition sim_dialed :: "string \<Rightarrow> sim_conn \<Rightarrow> (err + unit) \<times> sim_conn" where
  "sim_dialed url s = (Inr (), s\<lparr>sc_queue := [], sc_id := 0, sc_open := True\<rparr>)"

definition to_err :: "(err + unit) \<times> 'b \<Rightarrow> err option \<times> 'b" where
  "to_err r = (case r of (Inl e, x) \<Rightarrow> (Some e, x) | (Inr _, x) \<Rightarrow> (None, x))"

definition sim_ws :: "nat \<Rightarrow> string \<Rightarrow> sim_conn ws_lib" where
  "sim_ws lat nl =
     \<lparr>ws_Dial = (\<lambda>url c t s. to_err (in_time lat c t (sim_dialed url s) s)),
      ws_Write = (\<lambda>req c t s. to_err (in_time lat c t (sim_send nl req s) s)),
      ws_Read = (\<lambda>c t s. in_time lat c t (sim_recv s) s),
      ws_Close = (\<lambda>c t s. (None, lat, s\<lparr>sc_open := False\<rparr>)),
      ws_id = sc_id, ws_set_id = (\<lambda>i s. s\<lparr>sc_id := i\<rparr>), ws_pending = (\<lambda>s. length (sc_queue s))\<rparr>"

text \<open>The reply to a call, and when a call goes through.\<close>

definition sim_result :: "TrueNASHandler \<Rightarrow> string \<Rightarrow> (string \<times> string) list list \<Rightarrow> rpcErr + jval" where
  "sim_result h m p = sim_dispatch h m (json_Marshal (JvArr (map string_map_json p)))"

definition sim_answer :: "sim_conn \<Rightarrow> string \<Rightarrow> (string \<times> string) list list \<Rightarrow> rpc_error + string" where
  "sim_answer s m p =
     (case sim_result (sc_handler s) m p of Inl e \<Rightarrow> Inl (seen_error e) | Inr v \<Rightarrow> Inr (json_Marshal v))"

definition sim_next :: "sim_conn \<Rightarrow> sim_conn" where
  "sim_next s = s\<lparr>sc_id := sc_id s + 1\<rparr>"

definition sim_ready ::
  "nat \<Rightarrow> string \<Rightarrow> ctx \<Rightarrow> time \<Rightarrow> sim_conn \<Rightarrow> string \<Rightarrow> (string \<times> string) list list \<Rightarrow> bool" where
  "sim_ready lat nl c t s m p \<longleftrightarrow>
     json_end nl \<and> skip_ws nl = [] \<and> sc_open s \<and> sc_queue s = [] \<and> int64 (sc_id s + 1) \<and>
     ctx_err c (t + int (2 * lat)) = None \<and>
     length (json_Marshal (rpc_request_json \<lparr>rq_id = sc_id s + 1, rq_method = m, rq_params = p\<rparr>) @ nl) \<le> maxReadBytes \<and>
     length (json_Marshal (reply_json (Some (sc_id s + 1)) (sim_result (sc_handler s) m p)) @ nl) \<le> maxReadBytes"

lemma ctx_err_earlier: "ctx_err c t = None \<Longrightarrow> u \<le> t \<Longrightarrow> ctx_err c u = None"
  by (auto simp: ctx_err_def split: option.splits if_splits)

lemma in_time_live: "ctx_err c (t + int lat) = None \<Longrightarrow> in_time lat c t r s = (fst r, lat, snd r)"
  by (simp add: in_time_def)

interpretation sim: rpc_peer "sim_ws lat nl" "sim_ready lat nl" sim_answer sim_next "2 * lat"
  for lat nl
proof (unfold_locales, goal_cases)
  case (1 c t s m p)
  let ?i = "sc_id s + 1" and ?res = "sim_result (sc_handler s) m p"
  let ?req = "\<lparr>rq_id = ?i, rq_method = m, rq_params = p\<rparr>"
  let ?frame = "json_Marshal (reply_json (Some ?i) ?res) @ nl"
  note r = 1 [unfolded sim_ready_def]
  from r have live: "ctx_err c (t + int lat) = None" by (auto intro: ctx_err_earlier)
  have round: "sim_round (sc_handler s) (json_Marshal (rpc_request_json ?req) @ nl) = Some (reply_json (Some ?i) ?res)"
    using r decode_request_json [of nl ?req] by (simp add: sim_round_def sim_result_def maxReadBytes_def)
  have sent: "ws_Write (sim_ws lat nl) ?req c t (ws_set_id (sim_ws lat nl) ?i s) =
      (None, lat, (sim_next s)\<lparr>sc_queue := [?frame]\<rparr>)"
    using r live by (simp add: sim_ws_def in_time_live to_err_def sim_send_def round sim_next_def)
  have received: "ws_Read (sim_ws lat nl) c (t + int lat) ((sim_next s)\<lparr>sc_queue := [?frame]\<rparr>) = (Inr ?frame, lat, sim_next s)"
    using r by (simp add: sim_ws_def in_time_live sim_recv_def sim_next_def algebra_simps)
  have resp: "decode_reply ?frame = Inr (case ?res of
           Inl e \<Rightarrow> \<lparr>rp_ID = Some ?i, rp_Result = [], rp_Error = Some (seen_error e)\<rparr>
         | Inr v \<Rightarrow> \<lparr>rp_ID = Some ?i, rp_Result = json_Marshal v, rp_Error = None\<rparr>)"
    using r sim_dispatch_code sim_dispatch_ok by (intro decode_reply_json) (auto simp: sim_result_def)
  have id: "ws_id (sim_ws lat nl) s = sc_id s" by (simp add: sim_ws_def)
  show ?case
    unfolding id using sent received resp
    by (intro exI conjI) (assumption | simp add: sim_answer_def split: sum.split)+
qed

end
