(* ===== verification/Sim_TrueNAS_Props.thy ===== *)
theory Sim_TrueNAS_Props
  imports Sim_TrueNAS Operate_Props
begin

text \<open>
  The TrueNAS client and the storage gate against the simulator of \<^verbatim>\<open>internal/sim/truenas.go\<close>: login
  and session listing come back as they are in the simulator, and the gate stays closed as long as
  the node is logged in there.
\<close>

section \<open>The session list\<close>

definition client_session :: "sim_session \<Rightarrow> truenas_session" where
  "client_session s =
     \<lparr>se_Initiator = ss_Initiator s, se_InitiatorAddr = ss_InitiatorAddr s, se_Target = ss_Target s\<rparr>"

definition sessions_json :: "TrueNASHandler \<Rightarrow> jval" where
  "sessions_json h = (if th_sessions h = [] then JvNull else JvArr (map session_json (th_sessions h)))"

lemma sim_answer_sessions:
  "sim_answer s ''iscsi.global.sessions'' p = Inr (json_Marshal (sessions_json (sc_handler s)))"
  by (simp add: sim_answer_def sim_result_def sim_dispatch_def sessions_json_def)

lemma decode_session_json: "decode_session (json_of (session_json s)) = Inr (client_session s)"
  by (simp add: decode_session_def session_json_def field_simps_json client_session_def)

lemma decode_sessions_json:
  "decode_slice decode_session (json_of (sessions_json h)) = Inr (map client_session (th_sessions h))"
  by (simp add: sessions_json_def decode_slice_def comp_def
      decode_elems_map [of _ decode_session "\<lambda>s. json_of (session_json s)" client_session] decode_session_json)

lemma sessions_json_ok: "jval_ok (sessions_json h)"
  by (simp add: sessions_json_def list_all_iff)

lemma TrimSpace_sessions: "TrimSpace (json_Marshal (sessions_json h)) \<noteq> []"
proof -
  have "json_Marshal (sessions_json h) \<noteq> [] \<and> \<not> is_space (hd (json_Marshal (sessions_json h)))"
    by (simp add: sessions_json_def is_space_def)
  then show ?thesis by (metis TrimSpace_not_Nil hd_in_set)
qed

lemma sim_Sessions:
  assumes "sim_ready lat nl c t s ''iscsi.global.sessions'' []"
  shows "Sessions (sim_ws lat nl) c t s =
    (Inr (map client_session (th_sessions (sc_handler s))), 2 * lat, sim_next s)"
  by (rule sim.Sessions_answered [OF assms sim_answer_sessions TrimSpace_sessions
        Unmarshal_Marshal_plain [OF sessions_json_ok]
        decode_sessions_json])

section \<open>Login\<close>

abbreviation login_params :: "string \<Rightarrow> string \<Rightarrow> (string \<times> string) list list" where
  "login_params user key \<equiv> [[(''mechanism'', ''API_KEY_PLAIN''), (''username'', user), (''api_key'', key)]]"

lemma sim_truenas_login:
  assumes "sim_ready lat nl c t s ''auth.login_ex'' (login_params user key)"
  shows "\<exists>e. truenas_login (sim_ws lat nl) user key c t s = (e, 2 * lat, sim_next s) \<and>
    (e = None \<longleftrightarrow> key_accepted (sc_handler s) key)"
proof -
  let ?r = "if key_accepted (sc_handler s) key then ''SUCCESS'' else ''AUTH_ERR''"
  have answer: "sim_answer s ''auth.login_ex'' (login_params user key) = Inr (json_Marshal (response_type ?r))"
    by (simp add: sim_answer_def sim_result_def sim_dispatch_def sim_login_client
        del: json_Marshal.simps list.map)
  have "json_Unmarshal (json_Marshal (response_type ?r)) =
      Inr (JObj [(''response_type'', json_Marshal (JvStr ?r), JStr ?r)])"
    unfolding Unmarshal_Marshal_plain [OF jval_ok_json(4)] by (simp add: response_type_def)
  from sim.login_answered [OF assms answer this] show ?thesis by (auto split: if_splits)
qed

text \<open>A fresh connection to the simulator, as \<open>Dial\<close> leaves it.\<close>

definition dialed :: "TrueNASHandler \<Rightarrow> sim_conn" where
  "dialed h = \<lparr>sc_handler = h, sc_queue = [], sc_id = 0, sc_open = True\<rparr>"

lemma sim_truenas_New:
  assumes "ctx_err c (t + int lat) = None"
    and "sim_ready lat nl c (t + int lat) (dialed (sc_handler s)) ''auth.login_ex'' (login_params user key)"
  shows "\<exists>r d s1. truenas_New (sim_ws lat nl) host user key c t s = (r, d, s1) \<and>
    (r = Inr () \<longleftrightarrow> key_accepted (sc_handler s) key) \<and>
    (r = Inr () \<longrightarrow> d = 3 * lat \<and> s1 = sim_next (dialed (sc_handler s)))"
proof -
  have dial: "truenas_dial (sim_ws lat nl) host c t s = (None, lat, dialed (sc_handler s))"
    using assms(1) by (simp add: truenas_dial_def pmap_def sim_ws_def in_time_live sim_dialed_def to_err_def dialed_def)
  have handler: "sc_handler (dialed (sc_handler s)) = sc_handler s" by (simp add: dialed_def)
  from sim_truenas_login [OF assms(2)] obtain e where
    "truenas_login (sim_ws lat nl) user key c (t + int lat) (dialed (sc_handler s)) =
      (e, 2 * lat, sim_next (dialed (sc_handler s)))" "e = None \<longleftrightarrow> key_accepted (sc_handler s) key"
    unfolding handler by blast
  with dial show ?thesis
    by (cases e) (auto simp: truenas_New_def pbind_def pmap_def pret_def split: prod.split)
qed


section \<open>The gate\<close>

text \<open>The node is logged in: one of the fields of a session is its identity, without regard to case.\<close>

definition logged_in :: "string \<Rightarrow> TrueNASHandler \<Rightarrow> bool" where
  "logged_in token h \<longleftrightarrow>
     (\<exists>x \<in> set (th_sessions h). \<exists>f \<in> {ss_Initiator x, ss_InitiatorAddr x, ss_Target x}.
        escape_free f \<and> EqualFold f (TrimSpace token))"

lemma strings_of_sessions:
  "x \<in> set xs \<Longrightarrow> f \<in> {ss_Initiator x, ss_InitiatorAddr x, ss_Target x} \<Longrightarrow>
   f \<in> strings_of (JvArr (map session_json xs))"
  by (induction xs) (auto simp: session_json_def)

lemma is_space_lower: "is_space (lower_char c) \<longleftrightarrow> is_space c"
  by (auto simp: is_space_def lower_char_def Let_def)

lemma EqualFold_TrimSpace: "EqualFold f g \<Longrightarrow> TrimSpace f = [] \<longleftrightarrow> TrimSpace g = []"
proof -
  have "(\<forall>c \<in> set s. is_space c) \<longleftrightarrow> (\<forall>c \<in> set (ToLower s). is_space c)" for s
    by (simp add: ToLower_def is_space_lower)
  then show "EqualFold f g \<Longrightarrow> TrimSpace f = [] \<longleftrightarrow> TrimSpace g = []"
    unfolding TrimSpace_Nil_iff EqualFold_def by metis
qed

lemma table_shows_logged_in:
  assumes "logged_in token h" and "TrimSpace token \<noteq> []"
  shows "SessionPresent (table_of (json_Marshal (sessions_json h))) token"
proof -
  obtain x f where x: "x \<in> set (th_sessions h)" and f: "f \<in> {ss_Initiator x, ss_InitiatorAddr x, ss_Target x}"
    and plain: "escape_free f" and echo: "EqualFold f (TrimSpace token)"
    using assms(1) unfolding logged_in_def by blast
  have json: "sessions_json h = JvArr (map session_json (th_sessions h))"
    using x by (auto simp: sessions_json_def)
  have start: "outside indent_init" by (simp add: outside_def indent_init_def)
  have sessions_ok: "jval_ok (JvArr (map session_json (th_sessions h)))" by (simp add: list_all_iff)
  have "met_inside f (json_Marshal (sessions_json h)) indent_init"
    unfolding json by (rule Marshal_strings(1) [OF sessions_ok start plain strings_of_sessions [OF x f]])
  then obtain a b where split: "json_Marshal (sessions_json h) = a @ f @ b"
    and ins: "inside (after_indent a indent_init)"
    unfolding met_inside_def by blast
  have "TrimSpace f \<noteq> []" using EqualFold_TrimSpace [OF echo] assms(2) by simp
  then obtain before after where "table_of (a @ f @ b) = before @ f @ after"
    using table_of_keeps [of a f b] ins escape_free_plain [OF plain] by (auto simp: inside_def)
  then show ?thesis using SessionPresent_echo [OF echo] by (simp add: split)
qed

text \<open>
  One reading of the table over a connection with nothing on its way: an error, whatever its
  reason, or the table of the simulator's sessions, and again a connection with nothing on its way.
\<close>

lemma sim_round_sessions:
  assumes "json_end nl" and "skip_ws nl = []"
    and "sim_round h (json_Marshal (rpc_request_json \<lparr>rq_id = i, rq_method = ''iscsi.global.sessions'', rq_params = []\<rparr>) @ nl) =
      Some v"
  shows "int64 i \<and> v = reply_json (Some i) (Inr (sessions_json h))"
  using assms(3) decode_request_json [OF assms(1,2), of "\<lparr>rq_id = i, rq_method = ''iscsi.global.sessions'', rq_params = []\<rparr>"]
  by (auto simp: sim_round_def sim_dispatch_def sessions_json_def split: if_splits)

lemma sim_reading:
  assumes "json_end nl" and "skip_ws nl = []" and "sc_queue s = []"
    and "SessionTable (sim_ws lat nl) c t s = (r, d, s')"
  shows "isl r \<or> r = Inr (table_of (json_Marshal (sessions_json (sc_handler s)))) \<and>
    sc_queue s' = [] \<and> sc_handler s' = sc_handler s"
proof -
  let ?i = "sc_id s + 1" and ?m = "''iscsi.global.sessions''"
  let ?req = "\<lparr>rq_id = ?i, rq_method = ?m, rq_params = []\<rparr>" and ?s = "s\<lparr>sc_id := sc_id s + 1\<rparr>"
  obtain r0 where call: "ws_Call (sim_ws lat nl) ?m [] c t s = (r0, d, s')"
    and r: "r = (case r0 of Inl e \<Rightarrow> Inl (wrap ''truenas: iscsi.global.sessions: '' e) | Inr raw \<Rightarrow> Inr (table_of raw))"
    using assms(4) by (auto simp: SessionTable_eq pmap_def split: prod.splits)
  show ?thesis
  proof (cases r0)
    case (Inl e)
    then show ?thesis by (simp add: r)
  next
    case (Inr raw)
    obtain d1 s1 where sent: "ws_Write (sim_ws lat nl) ?req c t ?s = (None, d1, s1)"
      using call Inr by (auto simp: ws_Call_def Let_def sim_ws_def split: prod.splits option.splits)
    have await: "\<exists>d2. ws_await (Suc (length (sc_queue s1))) (sim_ws lat nl) ?i ?m c (t + int d1) s1 = (Inr raw, d2, s')"
      using call sent Inr by (auto simp: ws_Call_def Let_def sim_ws_def split: prod.splits)
    show ?thesis
    proof (cases "sim_round (sc_handler s) (json_Marshal (rpc_request_json ?req) @ nl)")
      case None
      with sent assms(3) have "sc_queue s1 = []"
        by (auto simp: sim_ws_def to_err_def in_time_def sim_send_def split: option.splits if_splits)
      with await show ?thesis
        by (auto simp: sim_ws_def in_time_def sim_recv_def split: option.splits)
    next
      case (Some v)
      with sent assms(3) have s1: "s1 = ?s\<lparr>sc_queue := [json_Marshal v @ nl]\<rparr>"
        by (auto simp: sim_ws_def to_err_def in_time_def sim_send_def split: option.splits if_splits)
      from sim_round_sessions [OF assms(1,2) Some]
      have v: "int64 ?i" "v = reply_json (Some ?i) (Inr (sessions_json (sc_handler s)))" by auto
      have "decode_reply (json_Marshal v @ nl) = Inr \<lparr>rp_ID = Some ?i,
          rp_Result = json_Marshal (sessions_json (sc_handler s)), rp_Error = None\<rparr>"
        unfolding v(2) using decode_reply_json [OF assms(1,2) v(1), of "Inr (sessions_json (sc_handler s))"] sessions_json_ok by simp
      with await s1 have "raw = json_Marshal (sessions_json (sc_handler s)) \<and> s' = ?s"
        by (auto simp: sim_ws_def in_time_def sim_recv_def assms(3) split: option.splits if_splits)
      then show ?thesis by (simp add: r Inr assms(3))
    qed
  qed
qed

text \<open>
  The connection as one part of a larger outside world: its calls leave the other part alone.
\<close>

definition on_snd :: "('s, 'r) prim \<Rightarrow> ('x \<times> 's, 'r) prim" where
  "on_snd f c t w = (case f c t (snd w) of (r, d, s) \<Rightarrow> (r, d, (fst w, s)))"

definition ws_on_snd :: "'s ws_lib \<Rightarrow> ('x \<times> 's) ws_lib" where
  "ws_on_snd lib =
     \<lparr>ws_Dial = (\<lambda>url. on_snd (ws_Dial lib url)), ws_Write = (\<lambda>req. on_snd (ws_Write lib req)),
      ws_Read = on_snd (ws_Read lib), ws_Close = on_snd (ws_Close lib),
      ws_id = (\<lambda>w. ws_id lib (snd w)), ws_set_id = (\<lambda>i w. (fst w, ws_set_id lib i (snd w))),
      ws_pending = (\<lambda>w. ws_pending lib (snd w))\<rparr>"

lemma ws_await_on_snd: "ws_await n (ws_on_snd lib) i m c t w = on_snd (ws_await n lib i m) c t w"
proof (induction n arbitrary: t w)
  case 0
  then show ?case by (simp add: on_snd_def)
next
  case (Suc n)
  obtain r d s where "ws_Read lib c t (snd w) = (r, d, s)" by (rule prod_cases3)
  with Suc show ?case
    by (cases r) (auto simp: ws_on_snd_def on_snd_def split: sum.splits prod.splits option.splits)
qed

lemma SessionTable_on_snd: "SessionTable (ws_on_snd lib) c t w = on_snd (SessionTable lib) c t w"
proof -
  have "ws_Call (ws_on_snd lib) m p c t w = on_snd (ws_Call lib m p) c t w" for m p
    unfolding ws_Call_def Let_def ws_await_on_snd
    by (simp add: ws_on_snd_def on_snd_def split: prod.splits option.splits)
  then show ?thesis by (simp add: SessionTable_eq pmap_def on_snd_def split: prod.splits)
qed

definition sim_live :: "string \<Rightarrow> string \<Rightarrow> 'x \<times> sim_conn \<Rightarrow> bool" where
  "sim_live nl token w \<longleftrightarrow>
     json_end nl \<and> skip_ws nl = [] \<and> TrimSpace token \<noteq> [] \<and> sc_queue (snd w) = [] \<and>
     logged_in token (sc_handler (snd w))"

interpretation live: live_session "SessionTable (ws_on_snd (sim_ws lat nl))" token "sim_live nl token"
  for lat nl token
proof (unfold_locales, goal_cases)
  case (1 w c t r d w')
  then have "SessionTable (sim_ws lat nl) c t (snd w) = (r, d, snd w')"
    by (auto simp: SessionTable_on_snd on_snd_def split: prod.splits)
  from sim_reading [OF _ _ _ this] 1(1) table_shows_logged_in show ?case
    by (auto simp: sim_live_def)
qed

lemma simulated_gate_closed:
  assumes "sim_live nl token w"
  shows "fst (truenas_gate (ws_on_snd (sim_ws lat nl)) token timeout c t w) \<noteq> None"
proof -
  have "fst (WaitClear \<lparr>ig_List = Some (SessionTable (ws_on_snd (sim_ws lat nl))), ig_Poll = 0\<rparr> token timeout c
      \<lparr>w_env = w, w_clock = t, w_trace = []\<rparr>) \<noteq> None"
    using assms by (intro live.gate_closed) (simp, simp only: world.select_convs)
  then show ?thesis by (simp add: truenas_gate_def as_prim_def case_prod_beta)
qed


text \<open>
  Once the node, the last initiator of the target, has logged out, the next reading opens the gate.
\<close>

lemma simulated_gate_opens_after_logout:
  assumes "\<forall>x \<in> set (th_sessions h). ss_InitiatorAddr x = addr"
    and "sc_handler s = RemoveSessionByAddr addr h"
    and "sim_ready lat nl (WithDeadline c (t + timeout)) t s ''iscsi.global.sessions'' []"
    and "TrimSpace token \<noteq> []" and "\<not> SessionPresent ''null'' token"
  shows "truenas_gate (sim_ws lat nl) token timeout c t s = (None, 2 * lat, sim_next s)"
proof -
  have "sessions_json (sc_handler s) = JvNull"
    using assms(1,2) by (auto simp: sessions_json_def RemoveSessionByAddr_filter filter_empty_conv)
  with sim.SessionTable_answered [OF assms(3) sim_answer_sessions]
  have "SessionTable (sim_ws lat nl) (WithDeadline c (t + timeout)) t s = (Inr (table_of ''null''), 2 * lat, sim_next s)"
    by simp
  moreover have "table_of ''null'' = ''null''" by code_simp
  ultimately show ?thesis
    using assms(4,5)
    by (simp add: truenas_gate_def as_prim_def WaitClear_def poll_loop.simps invoke_def gate_stop_def)
qed

section \<open>Witnesses\<close>

definition lab_target :: TrueNASHandler where
  \<open>lab_target = NewTrueNASHandler ''1-key''
     [\<lparr>ss_Initiator = ''iqn.node-1'', ss_InitiatorAddr = ''192.0.2.10'', ss_Target = ''tank/"a"''\<rparr>,
      \<lparr>ss_Initiator = ''iqn.node-2'', ss_InitiatorAddr = ''192.0.2.11'', ss_Target = ''tank<b>''\<rparr>]\<close>

definition lab_conn :: sim_conn where
  "lab_conn = \<lparr>sc_handler = lab_target, sc_queue = [], sc_id = 7, sc_open = False\<rparr>"

definition fits :: "string \<Rightarrow> bool" where
  "fits s \<longleftrightarrow> length s \<le> 400"

lemma fits_read: "fits s \<Longrightarrow> length s \<le> maxReadBytes"
  by (simp add: fits_def maxReadBytes_def)

lemma lab_ready:
  "sim_ready 1000000 [CHR 0x0A] background 1000000 (dialed lab_target) ''auth.login_ex'' (login_params ''nightwatch'' ''1-key'')"
  "sim_ready 1000000 [CHR 0x0A] background 3000000 (sim_next (dialed lab_target)) ''iscsi.global.sessions'' []"
proof -
  have live: "ctx_err background t = None" for t
    by (simp add: ctx_err_def done_at_def background_def)
  have nl: "json_end [CHR 0x0A]" "skip_ws [CHR 0x0A] = []" by code_simp+
  show "sim_ready 1000000 [CHR 0x0A] background 1000000 (dialed lab_target) ''auth.login_ex'' (login_params ''nightwatch'' ''1-key'')"
    unfolding sim_ready_def by (intro conjI fits_read live nl; code_simp)
  show "sim_ready 1000000 [CHR 0x0A] background 3000000 (sim_next (dialed lab_target)) ''iscsi.global.sessions'' []"
    unfolding sim_ready_def by (intro conjI fits_read live nl; code_simp)
qed


definition lab_reading :: bmc_result where
  "lab_reading = \<lparr>res_OK = True, res_PowerState = BmcOn, res_Error = [], res_Raw = []\<rparr>"

definition lab_sim_deps :: "(unit \<times> sim_conn) drain_deps" where
  "lab_sim_deps =
     \<lparr>ds_Nodes = \<lparr>nc_Cordon = (\<lambda>node. quiet None), nc_Drain = (\<lambda>node opts. quiet None)\<rparr>,
      ds_Talos = (\<lambda>endpoint. quiet None),
      ds_Power = \<lparr>bmc_GetPowerState = quiet lab_reading, bmc_PowerOn = quiet lab_reading, bmc_SoftOff = quiet lab_reading,
                  bmc_HardOff = quiet lab_reading, bmc_Reset = quiet lab_reading\<rparr>,
      ds_Storage = Some (truenas_gate (ws_on_snd (sim_ws 1000000 [CHR 0x0A])) '' 192.0.2.10 ''),
      ds_Now = None\<rparr>"


end
