(* ===== verification/Pem.thy ===== *)
theory Pem
  imports Go_Strings
begin

text \<open>
  The part of \<^verbatim>\<open>encoding/base64\<close> and \<^verbatim>\<open>encoding/pem\<close> that the simulators use for their key material:
  the standard encoding with padding, and blocks between their \<open>BEGIN\<close> and \<open>END\<close> lines. What was
  encoded is decoded again.
\<close>

section \<open>Base64\<close>

definition b64_alphabet :: string where
  "b64_alphabet = ''ABCDEFGHIJKLMNOPQRSTUVWXYZabcdefghijklmnopqrstuvwxyz0123456789+/''"

definition b64_char :: "nat \<Rightarrow> char" where
  "b64_char n = b64_alphabet ! n"

definition b64_value :: "char \<Rightarrow> nat option" where
  "b64_value c = map_of (zip b64_alphabet [0..<64]) c"

abbreviation byte :: "char \<Rightarrow> nat" where "byte \<equiv> of_char"

fun base64_Encode :: "string \<Rightarrow> string" where
  "base64_Encode (a # b # c # s) =
     [b64_char (byte a div 4), b64_char (byte a mod 4 * 16 + byte b div 16),
      b64_char (byte b mod 16 * 4 + byte c div 64), b64_char (byte c mod 64)] @ base64_Encode s"
| "base64_Encode [a, b] =
     [b64_char (byte a div 4), b64_char (byte a mod 4 * 16 + byte b div 16), b64_char (byte b mod 16 * 4), CHR ''='']"
| "base64_Encode [a] = [b64_char (byte a div 4), b64_char (byte a mod 4 * 16), CHR ''='', CHR ''='']"
| "base64_Encode [] = []"

text \<open>Line breaks are skipped wherever they stand; the bits behind a short last group are not looked at.\<close>

definition b64_group :: "nat \<Rightarrow> nat \<Rightarrow> nat \<Rightarrow> nat \<Rightarrow> string" where
  "b64_group u v w x = [char_of (u * 4 + v div 16), char_of (v mod 16 * 16 + w div 4), char_of (w mod 4 * 64 + x)]"

fun b64_quanta :: "string \<Rightarrow> string option" where
  "b64_quanta [] = Some []"
| "b64_quanta (a # b # c # d # s) =
     (case (b64_value a, b64_value b) of
        (Some u, Some v) \<Rightarrow>
          if c = CHR ''='' then if d = CHR ''='' \<and> s = [] then Some (take 1 (b64_group u v 0 0)) else None
          else
            (case b64_value c of
               None \<Rightarrow> None
             | Some w \<Rightarrow>
                 if d = CHR ''='' then if s = [] then Some (take 2 (b64_group u v w 0)) else None
                 else
                   (case b64_value d of
                      None \<Rightarrow> None
                    | Some x \<Rightarrow> map_option ((@) (b64_group u v w x)) (b64_quanta s)))
      | _ \<Rightarrow> None)"
| "b64_quanta _ = None"

definition base64_Decode :: "string \<Rightarrow> string option" where
  "base64_Decode s = b64_quanta (filter (\<lambda>c. c \<noteq> CHR 0x0A \<and> c \<noteq> CHR 0x0D) s)"

text \<open>The characters of an encoding: letters, digits and three signs, so neither space nor dash nor colon.\<close>

definition b64_text :: "char \<Rightarrow> bool" where
  "b64_text c \<longleftrightarrow> c \<notin> {CHR 0x09, CHR 0x0A, CHR 0x0D, CHR '' '', CHR ''-'', CHR '':''}"

lemma b64_table:
  "list_all (\<lambda>n. b64_value (b64_char n) = Some n \<and> b64_text (b64_char n) \<and> b64_char n \<noteq> CHR ''='') [0..<64]"
  by code_simp

lemma b64_char_facts:
  assumes "n < 64"
  shows "b64_value (b64_char n) = Some n" and "b64_text (b64_char n)" and "b64_char n \<noteq> CHR ''=''"
  using b64_table assms by (simp_all add: list_all_iff)

lemma byte_less: "byte c < 256"
  using nat_of_char_less_256 [of c] by simp

lemma b64_indices:
  "byte a div 4 < 64" "byte a mod 4 * 16 + byte b div 16 < 64" "byte b mod 16 * 4 + byte c div 64 < 64"
  "byte c mod 64 < 64" "byte b mod 16 * 4 < 64" "byte a mod 4 * 16 < 64"
  using byte_less [of a] byte_less [of b] byte_less [of c] by linarith+

lemmas b64_facts = b64_indices [THEN b64_char_facts(1)] b64_indices [THEN b64_char_facts(2)]
  b64_indices [THEN b64_char_facts(3)]

lemma b64_group_bytes:
  "b64_group (byte a div 4) (byte a mod 4 * 16 + byte b div 16) (byte b mod 16 * 4 + byte c div 64) (byte c mod 64) =
   [a, b, c]"
proof -
  have "(byte a mod 4 * 16 + byte b div 16) div 16 = byte a mod 4"
    "(byte a mod 4 * 16 + byte b div 16) mod 16 = byte b div 16"
    "(byte b mod 16 * 4 + byte c div 64) div 4 = byte b mod 16"
    "(byte b mod 16 * 4 + byte c div 64) mod 4 = byte c div 64"
    using byte_less [of b] byte_less [of c] by (simp_all add: div_less_iff_less_mult less_mult_imp_div_less)
  then show ?thesis by (simp add: b64_group_def mult.commute)
qed

lemma b64_short_groups:
  "take 2 (b64_group (byte a div 4) (byte a mod 4 * 16 + byte b div 16) (byte b mod 16 * 4) 0) = [a, b]"
  "take (Suc 0) (b64_group (byte a div 4) (byte a mod 4 * 16) 0 0) = [a]"
  using b64_group_bytes [of a b "CHR 0x00"] b64_group_bytes [of a "CHR 0x00" "CHR 0x00"] by simp_all

lemma b64_text_encode: "list_all b64_text (base64_Encode s)"
  by (induction s rule: base64_Encode.induct) (simp_all add: b64_facts, simp_all add: b64_text_def)

lemma b64_quanta_encode: "b64_quanta (base64_Encode s) = Some s"
  by (induction s rule: base64_Encode.induct) (simp_all add: b64_facts b64_group_bytes b64_short_groups)

section \<open>Blocks\<close>

text \<open>\<open>bytes.Cut\<close>: the parts before and behind the first occurrence.\<close>

fun Cut :: "string \<Rightarrow> string \<Rightarrow> (string \<times> string) option" where
  "Cut [] sep = (if sep = [] then Some ([], []) else None)"
| "Cut (c # s) sep =
     (if HasPrefix (c # s) sep then Some ([], drop (length sep) (c # s))
      else map_option (map_prod (Cons c) id) (Cut s sep))"

record pem_block =
  pb_Type :: string
  pb_Headers :: "(string \<times> string) list"
  pb_Bytes :: string

text \<open>\<open>Encode\<close> of a block without headers: lines of 64 characters, the last one shorter.\<close>

function break_lines :: "string \<Rightarrow> string" where
  "break_lines s = (if s = [] then [] else take 64 s @ [CHR 0x0A] @ break_lines (drop 64 s))"
  by pat_completeness auto
termination
  by (relation "measure length") auto

declare break_lines.simps [simp del]

lemma break_lines_Nil [simp]: "break_lines [] = []"
  by (simp add: break_lines.simps)

definition EncodeToMemory :: "string \<Rightarrow> string \<Rightarrow> string" where
  "EncodeToMemory typ bytes =
     ''-----BEGIN '' @ typ @ ''-----'' @ [CHR 0x0A] @ break_lines (base64_Encode bytes) @
     ''-----END '' @ typ @ ''-----'' @ [CHR 0x0A]"

definition blank :: "char \<Rightarrow> bool" where
  "blank c \<longleftrightarrow> c = CHR '' '' \<or> c = CHR 0x09"

definition trim_right :: "string \<Rightarrow> string" where
  "trim_right s = rev (dropWhile blank (rev s))"

definition getLine :: "string \<Rightarrow> string \<times> string" where
  "getLine s =
     (case Cut s [CHR 0x0A] of
        None \<Rightarrow> (trim_right s, [])
      | Some (l, rest) \<Rightarrow> (trim_right (TrimSuffix l [CHR 0x0D]), rest))"

definition pem_begin :: "string \<Rightarrow> string option" where
  "pem_begin s =
     (if HasPrefix s ''-----BEGIN '' then Some (drop 11 s)
      else map_option snd (Cut s (CHR 0x0A # ''-----BEGIN '')))"

lemma Cut_Some: "Cut s sep = Some (l, r) \<Longrightarrow> s = l @ sep @ r"
  by (induction s arbitrary: l)
    (auto simp: HasPrefix_def split: if_splits, metis append_Cons append_take_drop_id)

lemma getLine_shorter: "getLine s = (l, r) \<Longrightarrow> s \<noteq> [] \<Longrightarrow> length r < length s"
  by (auto simp: getLine_def split: option.splits dest: Cut_Some)

lemma getLine_le: "getLine s = (l, r) \<Longrightarrow> length r \<le> length s"
  by (auto simp: getLine_def split: option.splits dest: Cut_Some)

function pem_headers :: "string \<Rightarrow> ((string \<times> string) list \<times> string) option" where
  "pem_headers s =
     (if s = [] then None
      else
        (case Cut (fst (getLine s)) '':'' of
           None \<Rightarrow> Some ([], s)
         | Some (k, v) \<Rightarrow>
             map_option (map_prod (Cons (TrimSpace k, TrimSpace v)) id) (pem_headers (snd (getLine s)))))"
  by pat_completeness auto
termination
  by (relation "measure length") (auto intro: getLine_shorter [OF surjective_pairing])

declare pem_headers.simps [simp del]

text \<open>
  The lines up to \<open>END\<close>, which without headers and content may follow at once; behind it the same
  type, five dashes and nothing else on the line.
\<close>

definition pem_body :: "string \<Rightarrow> bool \<Rightarrow> string \<Rightarrow> (string \<times> string) option" where
  "pem_body typ no_headers rest =
     (case if no_headers \<and> HasPrefix rest ''-----END '' then Some ([], drop 9 rest)
           else Cut rest (CHR 0x0A # ''-----END '') of
        None \<Rightarrow> None
      | Some (body, trailer) \<Rightarrow>
          if HasPrefix trailer (typ @ ''-----'') \<and> fst (getLine (drop (length typ + 5) trailer)) = []
          then map_option (\<lambda>bs. (bs, snd (getLine trailer))) (base64_Decode (filter (\<lambda>c. \<not> blank c) body))
          else None)"

lemma pem_begin_shorter: "pem_begin s = Some r \<Longrightarrow> length r < length s"
  by (auto simp: pem_begin_def HasPrefix_def split: if_splits dest!: Cut_Some arg_cong [where f = length])

lemma pem_headers_le: "pem_headers s = Some (hs, r) \<Longrightarrow> length r \<le> length s"
proof (induction s arbitrary: hs r rule: pem_headers.induct)
  case (1 s)
  from 1(2) show ?case
    by (subst (asm) pem_headers.simps)
      (auto split: if_splits option.splits dest!: 1(1) intro: order_trans getLine_le [OF surjective_pairing])
qed

function pem_Decode :: "string \<Rightarrow> (pem_block \<times> string) option" where
  "pem_Decode s =
     (case pem_begin s of
        None \<Rightarrow> None
      | Some r0 \<Rightarrow>
          (case getLine r0 of
             (typeLine, r1) \<Rightarrow>
               if \<not> HasSuffix typeLine ''-----'' then pem_Decode r1
               else
                 (case pem_headers r1 of
                    None \<Rightarrow> None
                  | Some (hs, r2) \<Rightarrow>
                      (case pem_body (TrimSuffix typeLine ''-----'') (hs = []) r2 of
                         None \<Rightarrow> pem_Decode r2
                       | Some (bs, rest) \<Rightarrow>
                           Some (\<lparr>pb_Type = TrimSuffix typeLine ''-----'', pb_Headers = hs, pb_Bytes = bs\<rparr>, rest)))))"
  by pat_completeness auto
termination
  by (relation "measure length")
    (auto dest!: pem_begin_shorter getLine_le [OF sym] pem_headers_le)

declare pem_Decode.simps [simp del]

text \<open>All blocks of a text, in order.\<close>

lemma pem_body_le: "pem_body typ nh s = Some (bs, r) \<Longrightarrow> length r \<le> length s"
proof -
  assume "pem_body typ nh s = Some (bs, r)"
  then obtain body trailer where "r = snd (getLine trailer)"
    "(if nh \<and> HasPrefix s ''-----END '' then Some ([], drop 9 s) else Cut s (CHR 0x0A # ''-----END '')) = Some (body, trailer)"
    by (auto simp: pem_body_def split: option.splits if_splits)
  then have "length r \<le> length trailer" "length trailer \<le> length s"
    by (auto intro: getLine_le [OF surjective_pairing] dest!: Cut_Some split: if_splits)
  then show ?thesis by simp
qed

lemma pem_Decode_shorter: "pem_Decode s = Some (b, r) \<Longrightarrow> length r < length s"
proof (induction s arbitrary: b r rule: pem_Decode.induct)
  case (1 s)
  from 1(3) obtain r0 where r0: "pem_begin s = Some r0"
    by (subst (asm) pem_Decode.simps) (auto split: option.splits)
  obtain l r1 where r1: "getLine r0 = (l, r1)" by (rule prod.exhaust)
  note short = pem_begin_shorter [OF r0] getLine_le [OF r1]
  show ?case
  proof (cases "HasSuffix l ''-----''")
    case False
    then have "pem_Decode r1 = Some (b, r)" using 1(3) by (subst (asm) pem_Decode.simps) (simp add: r0 r1)
    then show ?thesis using 1(1) [OF r0 r1 [symmetric] False] short by fastforce
  next
    case True
    then obtain hs r2 where r2: "pem_headers r1 = Some (hs, r2)"
      using 1(3) by (subst (asm) pem_Decode.simps) (auto simp: r0 r1 split: option.splits)
    note short = short pem_headers_le [OF r2]
    show ?thesis
    proof (cases "pem_body (TrimSuffix l ''-----'') (hs = []) r2")
      case None
      then have "pem_Decode r2 = Some (b, r)" using 1(3) True by (subst (asm) pem_Decode.simps) (simp add: r0 r1 r2)
      then show ?thesis using 1(2) [OF r0 r1 [symmetric] _ r2 refl None] True short by fastforce
    next
      case (Some br)
      then obtain bs where "pem_body (TrimSuffix l ''-----'') (hs = []) r2 = Some (bs, r)"
        using 1(3) True by (subst (asm) pem_Decode.simps) (auto simp: r0 r1 r2 split: prod.splits)
      then show ?thesis using pem_body_le short by fastforce
    qed
  qed
qed

function pem_blocks :: "string \<Rightarrow> pem_block list" where
  "pem_blocks s = (case pem_Decode s of None \<Rightarrow> [] | Some (b, rest) \<Rightarrow> b # pem_blocks rest)"
  by pat_completeness auto
termination
  by (relation "measure length") (auto dest: pem_Decode_shorter)

declare pem_blocks.simps [simp del]

section \<open>What was encoded is decoded\<close>

lemma Cut_absent: "c \<notin> set s \<Longrightarrow> Cut s [c] = None"
  by (induction s) (auto simp: HasPrefix_def)

lemma Cut_at: "c \<notin> set l \<Longrightarrow> Cut (l @ c # r) [c] = Some (l, r)"
  by (induction l) (auto simp: HasPrefix_def)

lemma Cut_end:
  "CHR ''-'' \<notin> set b \<Longrightarrow> Cut (b @ CHR 0x0A # ''-----END '' @ t) (CHR 0x0A # ''-----END '') = Some (b, t)"
proof (induction b)
  case (Cons c b)
  then have "\<not> HasPrefix ((c # b) @ CHR 0x0A # ''-----END '' @ t) (CHR 0x0A # ''-----END '')"
    by (cases b) (auto simp: HasPrefix_def)
  with Cons show ?case by simp
qed (simp add: HasPrefix_def)

lemma set_trim_right: "set (trim_right s) \<subseteq> set s"
  unfolding trim_right_def using set_dropWhileD by fastforce

lemma getLine_set: "CHR 0x0A \<notin> set l \<Longrightarrow> set (fst (getLine (l @ CHR 0x0A # r))) \<subseteq> set l"
  using set_trim_right [of "TrimSuffix l [CHR 0x0D]"] set_take_subset [of _ l]
  by (auto simp: getLine_def Cut_at TrimSuffix_def split: if_splits)

lemma getLine_dashes: "CHR 0x0A \<notin> set l \<Longrightarrow> getLine (l @ ''-----'' @ CHR 0x0A # r) = (l @ ''-----'', r)"
  using Cut_at [of "CHR 0x0A" "l @ ''-----''" r]
  by (simp add: getLine_def TrimSuffix_def HasSuffix_def trim_right_def blank_def)

lemma pem_headers_none:
  assumes "CHR 0x0A \<notin> set l" and "CHR '':'' \<notin> set l"
  shows "pem_headers (l @ CHR 0x0A # r) = Some ([], l @ CHR 0x0A # r)"
proof -
  have "Cut (fst (getLine (l @ CHR 0x0A # r))) '':'' = None"
    using getLine_set [OF assms(1)] assms(2) by (intro Cut_absent) blast
  then show ?thesis by (subst pem_headers.simps) simp
qed

lemma break_lines_filter:
  "list_all b64_text e \<Longrightarrow>
   filter (\<lambda>c. c \<noteq> CHR 0x0A \<and> c \<noteq> CHR 0x0D) (filter (\<lambda>c. \<not> blank c) (break_lines e)) = e"
proof (induction e rule: break_lines.induct)
  case (1 e)
  have "filter (\<lambda>c. c \<noteq> CHR 0x0A \<and> c \<noteq> CHR 0x0D) (filter (\<lambda>c. \<not> blank c) (take 64 e)) = take 64 e"
    using 1(2) in_set_takeD [of _ 64 e]
    by (force simp: filter_id_conv list_all_iff b64_text_def blank_def)
  moreover have "list_all b64_text (drop 64 e)" using 1(2) in_set_dropD by (fastforce simp: list_all_iff)
  ultimately show ?case using 1(1) by (cases "e = []") (simp_all add: break_lines.simps [of e] blank_def)
qed

lemma break_lines_dash: "list_all b64_text e \<Longrightarrow> CHR ''-'' \<notin> set (break_lines e)"
proof
  assume e: "list_all b64_text e" and "CHR ''-'' \<in> set (break_lines e)"
  then have "CHR ''-'' \<in> set (filter (\<lambda>c. c \<noteq> CHR 0x0A \<and> c \<noteq> CHR 0x0D) (filter (\<lambda>c. \<not> blank c) (break_lines e)))"
    by (simp add: blank_def)
  then have "CHR ''-'' \<in> set e" unfolding break_lines_filter [OF e] .
  with e show False by (auto simp: list_all_iff b64_text_def)
qed

lemma break_lines_first:
  assumes "e \<noteq> []" and "list_all b64_text e"
  shows "\<exists>l r. break_lines e = l @ CHR 0x0A # r \<and> CHR 0x0A \<notin> set l \<and> CHR '':'' \<notin> set l"
proof (intro exI conjI)
  show "break_lines e = take 64 e @ CHR 0x0A # break_lines (drop 64 e)" by (subst break_lines.simps) (simp add: assms(1))
  show "CHR 0x0A \<notin> set (take 64 e)" "CHR '':'' \<notin> set (take 64 e)"
    using assms(2) in_set_takeD [of _ 64 e] by (auto simp: list_all_iff b64_text_def)
qed

lemma break_lines_last: "e \<noteq> [] \<Longrightarrow> \<exists>b. break_lines e = b @ [CHR 0x0A]"
proof (induction e rule: break_lines.induct)
  case (1 e)
  show ?case
  proof (cases "drop 64 e = []")
    case True
    then have "break_lines (drop 64 e) = []" by (simp add: break_lines.simps)
    then show ?thesis by (subst break_lines.simps) (simp add: 1(2))
  next
    case False
    then obtain b where "break_lines (drop 64 e) = b @ [CHR 0x0A]" using 1 by blast
    then show ?thesis by (subst break_lines.simps) (simp add: 1(2))
  qed
qed

text \<open>The trailer of a block: the rest of its \<open>END\<close> line is blank, and decoding goes on behind it.\<close>

lemma getLine_newline: "getLine (CHR 0x0A # r) = ([], r)"
  by (simp add: getLine_def HasPrefix_def TrimSuffix_def HasSuffix_def trim_right_def)

lemma pem_body_encoded:
  assumes "CHR 0x0A \<notin> set typ"
  shows "pem_body typ True (break_lines (base64_Encode bytes) @ ''-----END '' @ typ @ ''-----'' @ CHR 0x0A # rest) =
    Some (bytes, rest)"
proof -
  let ?e = "base64_Encode bytes" and ?t = "typ @ ''-----'' @ CHR 0x0A # rest"
  note e = b64_text_encode [of bytes]
  have trailer: "HasPrefix ?t (typ @ ''-----'')" "drop (length typ + 5) ?t = CHR 0x0A # rest"
    "snd (getLine ?t) = rest"
    using getLine_dashes [OF assms] by (simp_all add: HasPrefix_def)
  show ?thesis
  proof (cases "?e = []")
    case True
    moreover from True have "bytes = []" using b64_quanta_encode [of bytes] by simp
    ultimately show ?thesis
      using trailer
      by (simp add: pem_body_def break_lines.simps HasPrefix_def base64_Decode_def getLine_newline)
  next
    case False
    then obtain b where b: "break_lines ?e = b @ [CHR 0x0A]" using break_lines_last by blast
    have dash: "CHR ''-'' \<notin> set b" using break_lines_dash [OF e] b by simp
    have "base64_Decode (filter (\<lambda>c. \<not> blank c) b) = Some bytes"
      using break_lines_filter [OF e] b64_quanta_encode [of bytes] b by (simp add: base64_Decode_def)
    moreover have "\<not> HasPrefix (b @ CHR 0x0A # ''-----END '' @ ?t) ''-----END ''"
      using dash by (cases b) (auto simp: HasPrefix_def)
    ultimately show ?thesis
      using trailer Cut_end [OF dash, of ?t] b by (simp add: pem_body_def getLine_newline)
  qed
qed

theorem pem_round_trip:
  assumes "CHR 0x0A \<notin> set typ" and "CHR '':'' \<notin> set typ"
  shows "pem_Decode (EncodeToMemory typ bytes @ rest) =
    Some (\<lparr>pb_Type = typ, pb_Headers = [], pb_Bytes = bytes\<rparr>, rest)"
proof -
  define r where "r = break_lines (base64_Encode bytes) @ ''-----END '' @ typ @ ''-----'' @ CHR 0x0A # rest"
  have "pem_begin (EncodeToMemory typ bytes @ rest) = Some (typ @ ''-----'' @ CHR 0x0A # r)"
    by (simp add: pem_begin_def EncodeToMemory_def HasPrefix_def r_def)
  moreover have "getLine (typ @ ''-----'' @ CHR 0x0A # r) = (typ @ ''-----'', r)" by (rule getLine_dashes [OF assms(1)])
  moreover have "HasSuffix (typ @ ''-----'') ''-----''" "TrimSuffix (typ @ ''-----'') ''-----'' = typ"
    by (simp_all add: HasSuffix_def TrimSuffix_def)
  moreover have "pem_headers r = Some ([], r)"
  proof (cases "base64_Encode bytes = []")
    case True
    then show ?thesis
      using pem_headers_none [of "''-----END '' @ typ @ ''-----''" rest] assms by (simp add: break_lines.simps r_def)
  next
    case False
    then obtain l r' where "break_lines (base64_Encode bytes) = l @ CHR 0x0A # r'" "CHR 0x0A \<notin> set l" "CHR '':'' \<notin> set l"
      using break_lines_first [OF _ b64_text_encode] by blast
    then show ?thesis using pem_headers_none [of l] by (simp add: r_def)
  qed
  moreover have "pem_body typ True r = Some (bytes, rest)" unfolding r_def by (rule pem_body_encoded [OF assms(1)])
  ultimately show ?thesis by (subst pem_Decode.simps) (simp only: option.case prod.case simp_thms if_True if_False)
qed

lemma pem_blocks_encoded:
  "CHR 0x0A \<notin> set typ \<Longrightarrow> CHR '':'' \<notin> set typ \<Longrightarrow>
   pem_blocks (EncodeToMemory typ bytes @ rest) = \<lparr>pb_Type = typ, pb_Headers = [], pb_Bytes = bytes\<rparr> # pem_blocks rest"
  by (subst pem_blocks.simps) (simp add: pem_round_trip)

lemma pem_blocks_Nil [simp]: "pem_blocks [] = []"
  by (simp add: pem_blocks.simps pem_Decode.simps pem_begin_def HasPrefix_def)

end
