(* ===== verification/Sim_Certs.thy ===== *)
theory Sim_Certs
  imports Pem Go_Runtime
begin

text \<open>
  The key material of the simulated target, \<open>selfSignedCert\<close> and \<open>selfSignedPEM\<close> of
  \<^verbatim>\<open>internal/sim/truenas.go\<close>, and \<open>X509KeyPair\<close> of \<^verbatim>\<open>crypto/tls\<close>, which reads it back. The cryptography
  (\<^verbatim>\<open>crypto/ecdsa\<close>, \<^verbatim>\<open>crypto/x509\<close>) is a parameter; the PEM text between is not.
\<close>

section \<open>Certificates\<close>

record x509_template =
  xt_SerialNumber :: int
  xt_CommonName :: string
  xt_NotBefore :: time
  xt_NotAfter :: time
  xt_IPAddresses :: "string list"
  xt_DNSNames :: "string list"

record 'k tls_certificate =
  xc_Certificate :: "string list"
  xc_PrivateKey :: 'k

record ('k, 'c) crypto_lib =
  cl_GenerateKey :: "err + 'k"
  cl_CreateCertificate :: "x509_template \<Rightarrow> x509_template \<Rightarrow> 'k \<Rightarrow> err + string"
  cl_MarshalPKCS8PrivateKey :: "'k \<Rightarrow> err + string"
  cl_ParseCertificate :: "string \<Rightarrow> err + 'c"
  cl_parsePrivateKey :: "string \<Rightarrow> err + 'k"
  cl_mismatch :: "'c \<Rightarrow> 'k \<Rightarrow> err option"

definition cert_template :: "time \<Rightarrow> x509_template" where
  "cert_template now =
     \<lparr>xt_SerialNumber = 1, xt_CommonName = ''nightwatch-sim'', xt_NotBefore = now - 60 * Minute,
      xt_NotAfter = now + 365 * 24 * 60 * Minute, xt_IPAddresses = [''127.0.0.1'', ''::1''],
      xt_DNSNames = [''localhost'']\<rparr>"

text \<open>\<open>Inl\<close> is the panic. The certificate signs itself: the template is its own parent.\<close>

definition selfSignedCert :: "('k, 'c) crypto_lib \<Rightarrow> time \<Rightarrow> err + 'k tls_certificate \<times> string" where
  "selfSignedCert lib now =
     (case cl_GenerateKey lib of
        Inl e \<Rightarrow> Inl e
      | Inr key \<Rightarrow>
          (case cl_CreateCertificate lib (cert_template now) (cert_template now) key of
             Inl e \<Rightarrow> Inl e
           | Inr der \<Rightarrow>
               (case cl_MarshalPKCS8PrivateKey lib key of
                  Inl e \<Rightarrow> Inl e
                | Inr keyDER \<Rightarrow> Inr (\<lparr>xc_Certificate = [der], xc_PrivateKey = key\<rparr>, keyDER))))"

definition selfSignedPEM :: "('k, 'c) crypto_lib \<Rightarrow> time \<Rightarrow> err + string \<times> string" where
  "selfSignedPEM lib now =
     (case selfSignedCert lib now of
        Inl e \<Rightarrow> Inl e
      | Inr (cert, keyDER) \<Rightarrow>
          Inr (EncodeToMemory ''CERTIFICATE'' (xc_Certificate cert ! 0), EncodeToMemory ''PRIVATE KEY'' keyDER))"

section \<open>Reading a key pair\<close>

definition is_key_block :: "pem_block \<Rightarrow> bool" where
  "is_key_block b \<longleftrightarrow> pb_Type b = ''PRIVATE KEY'' \<or> HasSuffix (pb_Type b) '' PRIVATE KEY''"

text \<open>The errors name what was found instead.\<close>

definition no_certificate :: "string list \<Rightarrow> err" where
  "no_certificate skipped =
     (if skipped = [] then Err ''tls: failed to find any PEM data in certificate input''
      else if length skipped = 1 \<and> HasSuffix (hd skipped) ''PRIVATE KEY''
      then Err ''tls: failed to find certificate PEM data in certificate input, but did find a private key; PEM inputs may have been switched''
      else Err (''tls: failed to find '' @ Quote ''CERTIFICATE'' @ '' PEM block in certificate input after skipping PEM blocks of the following types: ['' @
                concat (map (\<lambda>t. t @ '' '') (butlast skipped)) @ last skipped @ '']''))"

definition no_key :: "string list \<Rightarrow> err" where
  "no_key skipped =
     (if skipped = [] then Err ''tls: failed to find any PEM data in key input''
      else if length skipped = 1 \<and> hd skipped = ''CERTIFICATE''
      then Err ''tls: found a certificate rather than a key in the PEM for the private key''
      else Err (''tls: failed to find PEM block with type ending in '' @ Quote ''PRIVATE KEY'' @ '' in key input after skipping PEM blocks of the following types: ['' @
                concat (map (\<lambda>t. t @ '' '') (butlast skipped)) @ last skipped @ '']''))"

definition X509KeyPair :: "('k, 'c) crypto_lib \<Rightarrow> string \<Rightarrow> string \<Rightarrow> err + 'k tls_certificate" where
  "X509KeyPair lib certPEM keyPEM =
     (let blocks = pem_blocks certPEM; certs = filter (\<lambda>b. pb_Type b = ''CERTIFICATE'') blocks
      in if certs = [] then Inl (no_certificate (map pb_Type blocks))
         else
           (case find is_key_block (pem_blocks keyPEM) of
              None \<Rightarrow> Inl (no_key (map pb_Type (pem_blocks keyPEM)))
            | Some kb \<Rightarrow>
                (case cl_ParseCertificate lib (pb_Bytes (hd certs)) of
                   Inl e \<Rightarrow> Inl e
                 | Inr leaf \<Rightarrow>
                     (case cl_parsePrivateKey lib (pb_Bytes kb) of
                        Inl e \<Rightarrow> Inl e
                      | Inr key \<Rightarrow>
                          (case cl_mismatch lib leaf key of
                             Some e \<Rightarrow> Inl e
                           | None \<Rightarrow> Inr \<lparr>xc_Certificate = map pb_Bytes certs, xc_PrivateKey = key\<rparr>)))))"

text \<open>
  What \<^verbatim>\<open>crypto/x509\<close> documents of the three functions: a key that was marshalled is parsed again, and a
  certificate that was created for a key is parsed and belongs to it.
\<close>

definition crypto_laws :: "('k, 'c) crypto_lib \<Rightarrow> bool" where
  "crypto_laws lib \<longleftrightarrow>
     (\<forall>key der. cl_MarshalPKCS8PrivateKey lib key = Inr der \<longrightarrow> cl_parsePrivateKey lib der = Inr key) \<and>
     (\<forall>t p key der. cl_CreateCertificate lib t p key = Inr der \<longrightarrow>
        (\<exists>leaf. cl_ParseCertificate lib der = Inr leaf \<and> cl_mismatch lib leaf key = None))"

text \<open>The self-signed material passes through its PEM text unchanged and is accepted.\<close>

lemma key_pair_round_trip:
  assumes "crypto_laws lib" and "selfSignedCert lib now = Inr (cert, keyDER)"
    and "selfSignedPEM lib now = Inr (certPEM, keyPEM)"
  shows "X509KeyPair lib certPEM keyPEM = Inr cert"
proof -
  from assms(2) obtain key der where made: "cl_CreateCertificate lib (cert_template now) (cert_template now) key = Inr der"
    "cl_MarshalPKCS8PrivateKey lib key = Inr keyDER" "cert = \<lparr>xc_Certificate = [der], xc_PrivateKey = key\<rparr>"
    by (auto simp: selfSignedCert_def split: sum.splits)
  with assms(3) have pem: "certPEM = EncodeToMemory ''CERTIFICATE'' der" "keyPEM = EncodeToMemory ''PRIVATE KEY'' keyDER"
    by (auto simp: selfSignedPEM_def assms(2))
  obtain leaf where leaf: "cl_ParseCertificate lib der = Inr leaf" "cl_mismatch lib leaf key = None"
    using assms(1) made(1) unfolding crypto_laws_def by blast
  have key: "cl_parsePrivateKey lib keyDER = Inr key" using assms(1) made(2) unfolding crypto_laws_def by blast
  have blocks: "pem_blocks certPEM = [\<lparr>pb_Type = ''CERTIFICATE'', pb_Headers = [], pb_Bytes = der\<rparr>]"
    "pem_blocks keyPEM = [\<lparr>pb_Type = ''PRIVATE KEY'', pb_Headers = [], pb_Bytes = keyDER\<rparr>]"
    using pem_blocks_encoded [of "''CERTIFICATE''" der "[]"] pem_blocks_encoded [of "''PRIVATE KEY''" keyDER "[]"]
    by (simp_all add: pem)
  show ?thesis by (simp add: X509KeyPair_def blocks is_key_block_def leaf key made(3) Let_def)
qed

end
