(* ===== verification/Sim_Main.thy ===== *)
theory Sim_Main
  imports Sim_TrueNAS Sim_Amt_Props Sim_Certs Serve Cli
begin

text \<open>
  \<^verbatim>\<open>cmd/nightwatch-sim\<close> and the server wrappers of \<^verbatim>\<open>internal/sim\<close>: the flags of the process, the
  simulator it serves with its key material, the signal that closes it, its exit code; and the
  servers for tests. The servers of \<^verbatim>\<open>net/http\<close> and \<^verbatim>\<open>httptest\<close> are parameters.
\<close>

section \<open>Servers\<close>

text \<open>What a server of \<^verbatim>\<open>net/http\<close> is given: the address and the multiplexer of one simulator.\<close>

datatype sim_handler = TrueNASMux TrueNASHandler | AMTMux AMTHandler

record sim_http =
  sh_Addr :: string
  sh_Handler :: sim_handler

record TrueNASServer =
  ts_Handler :: TrueNASHandler
  ts_certPEM :: string
  ts_keyPEM :: string

record AMTServer =
  as_Handler :: AMTHandler

definition NewTrueNASServer ::
  "('k, 'c) crypto_lib \<Rightarrow> time \<Rightarrow> string \<Rightarrow> sim_session list \<Rightarrow> err + TrueNASServer" where
  "NewTrueNASServer lib now apiKey sessions =
     (case selfSignedPEM lib now of
        Inl e \<Rightarrow> Inl e
      | Inr (certPEM, keyPEM) \<Rightarrow>
          Inr \<lparr>ts_Handler = NewTrueNASHandler apiKey sessions, ts_certPEM = certPEM, ts_keyPEM = keyPEM\<rparr>)"

definition TrueNASServer_HTTPServer :: "TrueNASServer \<Rightarrow> string \<Rightarrow> sim_http" where
  "TrueNASServer_HTTPServer s addr = \<lparr>sh_Addr = addr, sh_Handler = TrueNASMux (ts_Handler s)\<rparr>"

definition TLSCertPEM :: "TrueNASServer \<Rightarrow> string" where "TLSCertPEM s = ts_certPEM s"
definition TLSKeyPEM :: "TrueNASServer \<Rightarrow> string" where "TLSKeyPEM s = ts_keyPEM s"

definition NewAMTServer :: "bool \<Rightarrow> string \<Rightarrow> AMTServer" where
  "NewAMTServer initiallyOn realm = \<lparr>as_Handler = NewAMTHandler initiallyOn realm\<rparr>"

definition AMTServer_HTTPServer :: "AMTServer \<Rightarrow> string \<Rightarrow> sim_http" where
  "AMTServer_HTTPServer s addr = \<lparr>sh_Addr = addr, sh_Handler = AMTMux (as_Handler s)\<rparr>"

section \<open>Process\<close>

definition sim_envDefault :: "(string \<Rightarrow> string) \<Rightarrow> string \<Rightarrow> string \<Rightarrow> string" where
  "sim_envDefault getenv name fallback = (let v = getenv name in if v \<noteq> [] then v else fallback)"

definition sim_flags :: "(string \<Rightarrow> string) \<Rightarrow> flags" where
  "sim_flags getenv =
     [(''sim'', VStr (sim_envDefault getenv ''NIGHTWATCH_SIM'' ''truenas'')),
      (''addr'', VStr (sim_envDefault getenv ''NIGHTWATCH_SIM_ADDR'' '':8443'')),
      (''api-key'', VStr (getenv ''NIGHTWATCH_SIM_API_KEY'')),
      (''realm'', VStr (getenv ''NIGHTWATCH_SIM_REALM'')), (''on'', VBool True)]"

text \<open>
  The outside of the process: the instant of the first \<open>SIGINT\<close> or \<open>SIGTERM\<close>, if any, and the listener,
  which ends of itself at some instant with some error or not at all. It is given the certificate of
  a server with TLS.
\<close>

record 'k sim_host =
  so_Now :: time
  so_Signal :: "time option"
  so_Listen :: "sim_http \<Rightarrow> 'k tls_certificate option \<Rightarrow> (time \<times> err) option"

text \<open>
  \<open>shutdownOnSignal\<close> runs beside the listener and closes the server at the signal, upon which the
  listener returns \<open>ErrServerClosed\<close>; \<open>None\<close> is a listener that never returns.
\<close>

definition shutdownOnSignal :: "time option \<Rightarrow> (time \<times> err) option \<Rightarrow> err option" where
  "shutdownOnSignal sig listen =
     (case (listen, sig) of
        (None, None) \<Rightarrow> None
      | (None, Some _) \<Rightarrow> Some ErrServerClosed
      | (Some (u, e), None) \<Rightarrow> Some e
      | (Some (u, e), Some t) \<Rightarrow> Some (if u < t then e else ErrServerClosed))"

definition serve_exit_code :: "err \<Rightarrow> int" where
  "serve_exit_code e = (if e = ErrServerClosed then 0 else 1)"

definition waitOrServe :: "'k sim_host \<Rightarrow> sim_http \<Rightarrow> int option" where
  "waitOrServe host srv = map_option serve_exit_code (shutdownOnSignal (so_Signal host) (so_Listen host srv None))"

definition listenAndServeTLSPEM ::
  "('k, 'c) crypto_lib \<Rightarrow> 'k sim_host \<Rightarrow> sim_http \<Rightarrow> string \<Rightarrow> string \<Rightarrow> err option" where
  "listenAndServeTLSPEM lib host srv certPEM keyPEM =
     (case X509KeyPair lib certPEM keyPEM of
        Inl e \<Rightarrow> Some e
      | Inr cert \<Rightarrow> shutdownOnSignal (so_Signal host) (so_Listen host srv (Some cert)))"

definition waitOrServeTLS ::
  "('k, 'c) crypto_lib \<Rightarrow> 'k sim_host \<Rightarrow> sim_http \<Rightarrow> string \<Rightarrow> string \<Rightarrow> int option" where
  "waitOrServeTLS lib host srv certPEM keyPEM =
     map_option serve_exit_code (listenAndServeTLSPEM lib host srv certPEM keyPEM)"

text \<open>A panic ends the process with 2.\<close>

definition runTrueNAS :: "('k, 'c) crypto_lib \<Rightarrow> 'k sim_host \<Rightarrow> string \<Rightarrow> string \<Rightarrow> int option" where
  "runTrueNAS lib host addr apiKey =
     (case NewTrueNASServer lib (so_Now host) apiKey [] of
        Inl _ \<Rightarrow> Some 2
      | Inr srv \<Rightarrow> waitOrServeTLS lib host (TrueNASServer_HTTPServer srv addr) (TLSCertPEM srv) (TLSKeyPEM srv))"

definition runAMT :: "'k sim_host \<Rightarrow> string \<Rightarrow> bool \<Rightarrow> string \<Rightarrow> int option" where
  "runAMT host addr on realm = waitOrServe host (AMTServer_HTTPServer (NewAMTServer on realm) addr)"

definition nightwatch_sim_main ::
  "(string \<Rightarrow> string) \<Rightarrow> ('k, 'c) crypto_lib \<Rightarrow> 'k sim_host \<Rightarrow> string list \<Rightarrow> int option" where
  "nightwatch_sim_main getenv lib host argv =
     (case parse_flags (sim_flags getenv) argv of
        FlagHelp \<Rightarrow> Some 0
      | FlagError \<Rightarrow> Some 2
      | Parsed fs _ \<Rightarrow>
          if flag_str fs ''sim'' = ''truenas'' then runTrueNAS lib host (flag_str fs ''addr'') (flag_str fs ''api-key'')
          else if flag_str fs ''sim'' = ''amt''
          then runAMT host (flag_str fs ''addr'') (flag_bool fs ''on'') (flag_str fs ''realm'')
          else Some 1)"

section \<open>What the process does\<close>

text \<open>
  The simulated target is served with the certificate it has made: the PEM text between the two is
  read back as it was written, so the key pair is not what fails.
\<close>

lemma sim_target_served:
  assumes "crypto_laws lib" and "selfSignedCert lib (so_Now host) = Inr (cert, keyDER)"
  shows "runTrueNAS lib host addr apiKey =
    map_option serve_exit_code
      (shutdownOnSignal (so_Signal host)
        (so_Listen host \<lparr>sh_Addr = addr, sh_Handler = TrueNASMux (NewTrueNASHandler apiKey [])\<rparr> (Some cert)))"
proof -
  obtain certPEM keyPEM where "selfSignedPEM lib (so_Now host) = Inr (certPEM, keyPEM)"
    by (simp add: selfSignedPEM_def assms(2))
  with key_pair_round_trip [OF assms] show ?thesis
    by (simp add: runTrueNAS_def NewTrueNASServer_def waitOrServeTLS_def listenAndServeTLSPEM_def TLSCertPEM_def
        TLSKeyPEM_def TrueNASServer_HTTPServer_def)
qed

text \<open>
  A process that is sent a signal ends, whatever its arguments; its code is 2 only for a usage error or
  when no key material could be made.
\<close>

lemma served_until_signal:
  assumes "so_Signal host = Some t"
  shows "waitOrServe host srv \<in> {Some 0, Some 1}" and "waitOrServeTLS lib host srv certPEM keyPEM \<in> {Some 0, Some 1}"
proof -
  have ends: "map_option serve_exit_code (shutdownOnSignal (Some t) l) \<in> {Some 0, Some 1}" for l
    by (auto simp: shutdownOnSignal_def serve_exit_code_def split: option.splits)
  show "waitOrServe host srv \<in> {Some 0, Some 1}" using ends by (simp add: assms waitOrServe_def)
  show "waitOrServeTLS lib host srv certPEM keyPEM \<in> {Some 0, Some 1}"
  proof (cases "X509KeyPair lib certPEM keyPEM")
    case (Inl e)
    then show ?thesis by (simp add: waitOrServeTLS_def listenAndServeTLSPEM_def serve_exit_code_def)
  next
    case (Inr cert)
    then show ?thesis using ends by (simp add: assms waitOrServeTLS_def listenAndServeTLSPEM_def)
  qed
qed

lemma sim_main_stops:
  assumes "so_Signal host = Some t"
  shows "\<exists>code. nightwatch_sim_main getenv lib host argv = Some code \<and> code \<in> {0, 1, 2} \<and>
    (code = 2 \<longrightarrow> parse_flags (sim_flags getenv) argv = FlagError \<or> (\<exists>e. selfSignedCert lib (so_Now host) = Inl e))"
proof -
  have amt: "runAMT host addr on realm \<in> {Some 0, Some 1}" for addr on realm
    unfolding runAMT_def by (rule served_until_signal [OF assms])
  have target: "runTrueNAS lib host addr key \<in> {Some 0, Some 1} \<or>
      runTrueNAS lib host addr key = Some 2 \<and> (\<exists>e. selfSignedCert lib (so_Now host) = Inl e)" for addr key
  proof (cases "NewTrueNASServer lib (so_Now host) key []")
    case (Inl e)
    then show ?thesis
      by (auto simp: runTrueNAS_def NewTrueNASServer_def selfSignedPEM_def split: sum.splits)
  next
    case (Inr srv)
    then show ?thesis
      unfolding runTrueNAS_def by (simp only: sum.case) (rule disjI1 [OF served_until_signal(2) [OF assms]])
  qed
  show ?thesis
  proof (cases "parse_flags (sim_flags getenv) argv")
    case (Parsed fs rest)
    then show ?thesis
      using amt [of "flag_str fs ''addr''" "flag_bool fs ''on''" "flag_str fs ''realm''"]
        target [of "flag_str fs ''addr''" "flag_str fs ''api-key''"]
      by (auto simp: nightwatch_sim_main_def)
  qed (simp_all add: nightwatch_sim_main_def)
qed

lemma sim_server_key:
  "NewTrueNASServer lib now apiKey sessions = Inr srv \<Longrightarrow>
   key_accepted (ts_Handler srv) key \<longleftrightarrow> apiKey = [] \<or> key = apiKey"
  by (auto simp: NewTrueNASServer_def NewTrueNASHandler_def key_accepted_def split: sum.splits)

section \<open>Servers for tests\<close>

text \<open>A started server of \<^verbatim>\<open>httptest\<close>: where it listens and what closing it does to the world.\<close>

record 'w test_server =
  hts_Addr :: string
  hts_URL :: string
  hts_Close :: "'w \<Rightarrow> 'w"

record 'w truenas_sim =
  tsim_Handler :: TrueNASHandler
  tsim_srv :: "'w test_server"

record 'w amt_sim =
  asim_Handler :: AMTHandler
  asim_srv :: "'w test_server"

definition NewTrueNAS ::
  "('k, 'c) crypto_lib \<Rightarrow> (sim_handler \<Rightarrow> 'k tls_certificate list \<Rightarrow> 'w test_server) \<Rightarrow> time \<Rightarrow> string \<Rightarrow>
   sim_session list \<Rightarrow> err + 'w truenas_sim" where
  "NewTrueNAS lib startTLS now apiKey sessions =
     (let h = NewTrueNASHandler apiKey sessions
      in case selfSignedCert lib now of
           Inl e \<Rightarrow> Inl e
         | Inr (cert, _) \<Rightarrow> Inr \<lparr>tsim_Handler = h, tsim_srv = startTLS (TrueNASMux h) [cert]\<rparr>)"

definition truenas_sim_Host :: "'w truenas_sim \<Rightarrow> string" where
  "truenas_sim_Host t = hts_Addr (tsim_srv t)"

definition truenas_sim_Close :: "'w truenas_sim \<Rightarrow> 'w \<Rightarrow> 'w" where
  "truenas_sim_Close t = hts_Close (tsim_srv t)"

definition NewAMT :: "(sim_handler \<Rightarrow> 'w test_server) \<Rightarrow> bool \<Rightarrow> string \<Rightarrow> 'w amt_sim" where
  "NewAMT start initiallyOn realm =
     (let h = NewAMTHandler initiallyOn realm in \<lparr>asim_Handler = h, asim_srv = start (AMTMux h)\<rparr>)"

definition amt_sim_Endpoint :: "'w amt_sim \<Rightarrow> string" where
  "amt_sim_Endpoint a = hts_URL (asim_srv a)"

definition amt_sim_Close :: "'w amt_sim \<Rightarrow> 'w \<Rightarrow> 'w" where
  "amt_sim_Close a = hts_Close (asim_srv a)"

text \<open>
  A driver made for the endpoint of the simulator reaches it: the path is appended, as the comment at
  \<open>Endpoint\<close> says, and requests and readings go through.
\<close>

lemma amt_sim_reached:
  assumes "HasPrefix (amt_sim_Endpoint a) ''http://''" and "xml_plain (amt_sim_Endpoint a @ ''/wsman'')"
    and "hl_ParseURL lib (amt_sim_Endpoint a) = Inr u" and "u_Path u = []"
    and "u_WithPath u ''/wsman'' = amt_sim_Endpoint a @ ''/wsman''" and "realm = [] \<or> username \<noteq> []"
  shows "can_talk (amt_sim_Endpoint a) realm (amt_New lib (amt_sim_Endpoint a) username password)"
  using assms by (auto simp: can_talk_def amt_New_def normalizeEndpoint_def)

end
