(* ===== verification/Deep_Copy.thy ===== *)
theory Deep_Copy
  imports Controller
begin

text \<open>
  \<^verbatim>\<open>api/v1alpha1/zz_generated.deepcopy.go\<close> and the in-place writes of \<open>writeStatus\<close> in
  \<^verbatim>\<open>internal/controller\<close>, on an explicit heap. A status holds a pointer to a time and a slice of
  conditions; \<open>setCondition\<close> writes into the elements of the slice. \<open>Controller\<close> models a status as a
  value; this theory shows that the code, run on pointers, computes that value and leaves the
  object it copied from as it was.

  \<open>metav1.ObjectMeta\<close> and \<open>metav1.ListMeta\<close> are third-party: their copies are parameters over a
  part of the heap of their own. A \<open>metav1.Condition\<close> and a \<open>metav1.Time\<close> hold no pointers, so their
  copies are assignments.
\<close>

section \<open>Heap\<close>

text \<open>A slice: its array and how much of it is in use. The length of the array is its capacity.\<close>

record slice_hdr =
  sl_addr :: nat
  sl_len :: nat

record pstatus =
  ps_Phase :: en_phase
  ps_ObservedPower :: en_power
  ps_NodeReady :: bool
  ps_GPURegistered :: bool
  ps_ObservedGeneration :: int
  ps_LastTransitionTime :: "nat option"
  ps_Conditions :: "slice_hdr option"

record 'm pnode =
  pn_TypeMeta :: "string \<times> string"
  pn_ObjectMeta :: 'm
  pn_Spec :: en_spec
  pn_Status :: pstatus

record ('m, 'x) heap =
  hp_times :: "nat \<Rightarrow> time"
  hp_conds :: "nat \<Rightarrow> condition list"
  hp_nodes :: "nat \<Rightarrow> 'm pnode list"
  hp_meta :: 'x
  hp_lim :: nat

definition alloc_time :: "time \<Rightarrow> ('m, 'x) heap \<Rightarrow> nat \<times> ('m, 'x) heap" where
  "alloc_time t h = (hp_lim h, h\<lparr>hp_times := (hp_times h)(hp_lim h := t), hp_lim := hp_lim h + 1\<rparr>)"

definition alloc_conds :: "condition list \<Rightarrow> ('m, 'x) heap \<Rightarrow> nat \<times> ('m, 'x) heap" where
  "alloc_conds xs h = (hp_lim h, h\<lparr>hp_conds := (hp_conds h)(hp_lim h := xs), hp_lim := hp_lim h + 1\<rparr>)"

definition alloc_nodes :: "'m pnode list \<Rightarrow> ('m, 'x) heap \<Rightarrow> nat \<times> ('m, 'x) heap" where
  "alloc_nodes xs h = (hp_lim h, h\<lparr>hp_nodes := (hp_nodes h)(hp_lim h := xs), hp_lim := hp_lim h + 1\<rparr>)"

definition slice_conds :: "('m, 'x) heap \<Rightarrow> slice_hdr option \<Rightarrow> condition list" where
  "slice_conds h s = (case s of None \<Rightarrow> [] | Some sl \<Rightarrow> take (sl_len sl) (hp_conds h (sl_addr sl)))"

text \<open>
  \<open>append(s, c)\<close>: into the array while it has room, else into a new one. How much room a new one has
  beyond the element is the choice of the run-time, \<open>grow\<close>.
\<close>

definition append_cond ::
  "(nat \<Rightarrow> condition list) \<Rightarrow> slice_hdr option \<Rightarrow> condition \<Rightarrow> ('m, 'x) heap \<Rightarrow> slice_hdr option \<times> ('m, 'x) heap" where
  "append_cond grow s c h =
     (case s of
        Some sl \<Rightarrow>
          if sl_len sl < length (hp_conds h (sl_addr sl)) then
            (Some (sl\<lparr>sl_len := sl_len sl + 1\<rparr>),
             h\<lparr>hp_conds := (hp_conds h)(sl_addr sl := (hp_conds h (sl_addr sl))[sl_len sl := c])\<rparr>)
          else
            (case alloc_conds (slice_conds h s @ [c] @ grow (sl_len sl)) h of
               (a, h1) \<Rightarrow> (Some \<lparr>sl_addr = a, sl_len = sl_len sl + 1\<rparr>, h1))
      | None \<Rightarrow>
          (case alloc_conds ([c] @ grow 0) h of (a, h1) \<Rightarrow> (Some \<lparr>sl_addr = a, sl_len = 1\<rparr>, h1)))"

section \<open>Generated copies\<close>

definition status_DeepCopyInto :: "pstatus \<Rightarrow> ('m, 'x) heap \<Rightarrow> pstatus \<times> ('m, 'x) heap" where
  "status_DeepCopyInto s h =
     (let (out1, h1) =
            (case ps_LastTransitionTime s of
               None \<Rightarrow> (s, h)
             | Some a \<Rightarrow> (case alloc_time (hp_times h a) h of (b, h1) \<Rightarrow> (s\<lparr>ps_LastTransitionTime := Some b\<rparr>, h1)))
      in case ps_Conditions s of
           None \<Rightarrow> (out1, h1)
         | Some sl \<Rightarrow>
             (case alloc_conds (slice_conds h1 (Some sl)) h1 of
                (b, h2) \<Rightarrow> (out1\<lparr>ps_Conditions := Some \<lparr>sl_addr = b, sl_len = sl_len sl\<rparr>\<rparr>, h2)))"

definition status_DeepCopy :: "pstatus option \<Rightarrow> ('m, 'x) heap \<Rightarrow> pstatus option \<times> ('m, 'x) heap" where
  "status_DeepCopy s h =
     (case s of None \<Rightarrow> (None, h) | Some s \<Rightarrow> (case status_DeepCopyInto s h of (out, h1) \<Rightarrow> (Some out, h1)))"

definition spec_DeepCopyInto :: "en_spec \<Rightarrow> en_spec" where
  "spec_DeepCopyInto s = s"

definition spec_DeepCopy :: "en_spec option \<Rightarrow> en_spec option" where
  "spec_DeepCopy s = map_option spec_DeepCopyInto s"

definition on_meta :: "('x \<Rightarrow> 'a \<times> 'x) \<Rightarrow> ('m, 'x) heap \<Rightarrow> 'a \<times> ('m, 'x) heap" where
  "on_meta f h = (case f (hp_meta h) of (a, x) \<Rightarrow> (a, h\<lparr>hp_meta := x\<rparr>))"

definition node_DeepCopyInto ::
  "('m \<Rightarrow> 'x \<Rightarrow> 'm \<times> 'x) \<Rightarrow> 'm pnode \<Rightarrow> ('m, 'x) heap \<Rightarrow> 'm pnode \<times> ('m, 'x) heap" where
  "node_DeepCopyInto metaCopy n h =
     (case on_meta (metaCopy (pn_ObjectMeta n)) h of
        (m, h1) \<Rightarrow>
          (case status_DeepCopyInto (pn_Status n) h1 of
             (s, h2) \<Rightarrow> (n\<lparr>pn_ObjectMeta := m, pn_Spec := pn_Spec n, pn_Status := s\<rparr>, h2)))"

definition node_DeepCopy ::
  "('m \<Rightarrow> 'x \<Rightarrow> 'm \<times> 'x) \<Rightarrow> 'm pnode option \<Rightarrow> ('m, 'x) heap \<Rightarrow> 'm pnode option \<times> ('m, 'x) heap" where
  "node_DeepCopy metaCopy n h =
     (case n of None \<Rightarrow> (None, h) | Some n \<Rightarrow> (case node_DeepCopyInto metaCopy n h of (out, h1) \<Rightarrow> (Some out, h1)))"

text \<open>\<open>DeepCopyObject\<close>: the copy as a \<open>runtime.Object\<close>; a nil pointer becomes a nil interface.\<close>

datatype ('m, 'l) runtime_object = ObjNode "'m pnode" | ObjList 'l

definition node_DeepCopyObject ::
  "('m \<Rightarrow> 'x \<Rightarrow> 'm \<times> 'x) \<Rightarrow> 'm pnode option \<Rightarrow> ('m, 'x) heap \<Rightarrow>
   ('m, 'l) runtime_object option \<times> ('m, 'x) heap" where
  "node_DeepCopyObject metaCopy n h =
     (case node_DeepCopy metaCopy n h of (c, h1) \<Rightarrow> (map_option ObjNode c, h1))"

record 'l plist =
  pl_TypeMeta :: "string \<times> string"
  pl_ListMeta :: 'l
  pl_Items :: "slice_hdr option"

fun items_DeepCopyInto ::
  "('m \<Rightarrow> 'x \<Rightarrow> 'm \<times> 'x) \<Rightarrow> 'm pnode list \<Rightarrow> ('m, 'x) heap \<Rightarrow> 'm pnode list \<times> ('m, 'x) heap" where
  "items_DeepCopyInto metaCopy [] h = ([], h)"
| "items_DeepCopyInto metaCopy (n # ns) h =
     (case node_DeepCopyInto metaCopy n h of
        (m, h1) \<Rightarrow> (case items_DeepCopyInto metaCopy ns h1 of (ms, h2) \<Rightarrow> (m # ms, h2)))"

definition list_DeepCopyInto ::
  "('m \<Rightarrow> 'x \<Rightarrow> 'm \<times> 'x) \<Rightarrow> ('l \<Rightarrow> 'x \<Rightarrow> 'l \<times> 'x) \<Rightarrow> 'l plist \<Rightarrow> ('m, 'x) heap \<Rightarrow> 'l plist \<times> ('m, 'x) heap" where
  "list_DeepCopyInto metaCopy listMetaCopy l h =
     (case on_meta (listMetaCopy (pl_ListMeta l)) h of
        (lm, h1) \<Rightarrow>
          (case pl_Items l of
             None \<Rightarrow> (l\<lparr>pl_ListMeta := lm\<rparr>, h1)
           | Some sl \<Rightarrow>
               (case items_DeepCopyInto metaCopy (take (sl_len sl) (hp_nodes h1 (sl_addr sl))) h1 of
                  (ns, h2) \<Rightarrow>
                    (case alloc_nodes ns h2 of
                       (b, h3) \<Rightarrow>
                         (l\<lparr>pl_ListMeta := lm, pl_Items := Some \<lparr>sl_addr = b, sl_len = sl_len sl\<rparr>\<rparr>, h3)))))"

definition list_DeepCopy ::
  "('m \<Rightarrow> 'x \<Rightarrow> 'm \<times> 'x) \<Rightarrow> ('l \<Rightarrow> 'x \<Rightarrow> 'l \<times> 'x) \<Rightarrow> 'l plist option \<Rightarrow> ('m, 'x) heap \<Rightarrow>
   'l plist option \<times> ('m, 'x) heap" where
  "list_DeepCopy metaCopy listMetaCopy l h =
     (case l of
        None \<Rightarrow> (None, h)
      | Some l \<Rightarrow> (case list_DeepCopyInto metaCopy listMetaCopy l h of (out, h1) \<Rightarrow> (Some out, h1)))"

definition list_DeepCopyObject ::
  "('m \<Rightarrow> 'x \<Rightarrow> 'm \<times> 'x) \<Rightarrow> ('l \<Rightarrow> 'x \<Rightarrow> 'l \<times> 'x) \<Rightarrow> 'l plist option \<Rightarrow> ('m, 'x) heap \<Rightarrow>
   ('m, 'l plist) runtime_object option \<times> ('m, 'x) heap" where
  "list_DeepCopyObject metaCopy listMetaCopy l h =
     (case list_DeepCopy metaCopy listMetaCopy l h of (c, h1) \<Rightarrow> (map_option ObjList c, h1))"

section \<open>writeStatus on the heap\<close>

fun first_index :: "('a \<Rightarrow> bool) \<Rightarrow> 'a list \<Rightarrow> nat option" where
  "first_index P [] = None"
| "first_index P (x # xs) = (if P x then Some 0 else map_option Suc (first_index P xs))"

definition heap_setCondition ::
  "(nat \<Rightarrow> condition list) \<Rightarrow> string \<Rightarrow> bool \<Rightarrow> int \<Rightarrow> time \<Rightarrow> string \<Rightarrow> string \<Rightarrow> pstatus \<Rightarrow> ('m, 'x) heap \<Rightarrow>
   pstatus \<times> ('m, 'x) heap" where
  "heap_setCondition grow condType ok gen now reason msg s h =
     (let status = (if ok then ''True'' else ''False'');
          cond = \<lparr>cond_Type = condType, cond_Status = status, cond_ObservedGeneration = gen,
                  cond_LastTransitionTime = now, cond_Reason = reason, cond_Message = msg\<rparr>;
          xs = slice_conds h (ps_Conditions s)
      in case (first_index (\<lambda>x. cond_Type x = condType) xs, ps_Conditions s) of
           (Some i, Some sl) \<Rightarrow>
             (let cond = (if cond_Status (xs ! i) = cond_Status cond
                          then cond\<lparr>cond_LastTransitionTime := cond_LastTransitionTime (xs ! i)\<rparr> else cond)
              in (s, h\<lparr>hp_conds := (hp_conds h)(sl_addr sl := (hp_conds h (sl_addr sl))[i := cond])\<rparr>))
         | _ \<Rightarrow>
             (case append_cond grow (ps_Conditions s) cond h of
                (sl, h1) \<Rightarrow> (s\<lparr>ps_Conditions := sl\<rparr>, h1)))"

text \<open>The value a status on the heap stands for.\<close>

definition status_of :: "('m, 'x) heap \<Rightarrow> pstatus \<Rightarrow> en_status" where
  "status_of h s =
     \<lparr>st_Phase = ps_Phase s, st_ObservedPower = ps_ObservedPower s, st_NodeReady = ps_NodeReady s,
      st_GPURegistered = ps_GPURegistered s, st_ObservedGeneration = ps_ObservedGeneration s,
      st_LastTransitionTime = map_option (hp_times h) (ps_LastTransitionTime s),
      st_Conditions = slice_conds h (ps_Conditions s)\<rparr>"

definition heap_want_status ::
  "(nat \<Rightarrow> condition list) \<Rightarrow> int \<Rightarrow> en_power \<Rightarrow> en_phase \<Rightarrow> en_power \<Rightarrow> bool \<Rightarrow> bool \<Rightarrow> err option \<Rightarrow> time \<Rightarrow>
   pstatus \<Rightarrow> ('m, 'x) heap \<Rightarrow> pstatus \<times> ('m, 'x) heap" where
  "heap_want_status grow generation desired phase pw ready gpu opErr now s h =
     (let (want, h1) = status_DeepCopyInto s h;
          (want, h2) = (if ps_Phase want \<noteq> phase
                        then (case alloc_time now h1 of (a, h2) \<Rightarrow> (want\<lparr>ps_LastTransitionTime := Some a\<rparr>, h2))
                        else (want, h1));
          want = want\<lparr>ps_Phase := phase, ps_ObservedPower := pw, ps_NodeReady := ready,
                      ps_GPURegistered := gpu, ps_ObservedGeneration := generation\<rparr>;
          (want, h3) = heap_setCondition grow ConditionReady ready generation now
                         (readyReason phase opErr) (readyMessage phase opErr) want h2;
          converged = (opErr = None \<and> (phase = PhaseReady \<or> phase = PhaseOff))
      in heap_setCondition grow ConditionConverged converged generation now
           (convergedReason phase opErr) (convergedMessage desired opErr) want h3)"

text \<open>
  The status the object has afterwards and whether it goes to the API server.
  \<open>equality.Semantic.DeepEqual\<close> compares what the pointers point to and holds a nil slice equal to
  an empty one.
\<close>

definition heap_writeStatus ::
  "(nat \<Rightarrow> condition list) \<Rightarrow> int \<Rightarrow> en_power \<Rightarrow> en_phase \<Rightarrow> en_power \<Rightarrow> bool \<Rightarrow> bool \<Rightarrow> err option \<Rightarrow> time \<Rightarrow>
   pstatus \<Rightarrow> ('m, 'x) heap \<Rightarrow> (pstatus \<times> bool) \<times> ('m, 'x) heap" where
  "heap_writeStatus grow generation desired phase pw ready gpu opErr now s h =
     (case heap_want_status grow generation desired phase pw ready gpu opErr now s h of
        (want, h1) \<Rightarrow>
          if status_of h1 s = status_of h1 want then ((s, False), h1) else ((want, True), h1))"

section \<open>What is shared and what is not\<close>

text \<open>
  \<open>valid_status\<close>: every pointer of a status is allocated and its slice fits its array.
  \<open>fresh_from n\<close>: the memory that is written through a status lies at \<open>n\<close> or above.
  \<open>same_below n\<close>: two heaps agree below \<open>n\<close>.
\<close>

definition valid_status :: "('m, 'x) heap \<Rightarrow> pstatus \<Rightarrow> bool" where
  "valid_status h s \<longleftrightarrow>
     (case ps_LastTransitionTime s of None \<Rightarrow> True | Some a \<Rightarrow> a < hp_lim h) \<and>
     (case ps_Conditions s of
        None \<Rightarrow> True
      | Some sl \<Rightarrow> sl_addr sl < hp_lim h \<and> sl_len sl \<le> length (hp_conds h (sl_addr sl)))"

definition fresh_from :: "nat \<Rightarrow> pstatus \<Rightarrow> bool" where
  "fresh_from n s \<longleftrightarrow>
     (case ps_LastTransitionTime s of None \<Rightarrow> True | Some a \<Rightarrow> n \<le> a) \<and>
     (case ps_Conditions s of None \<Rightarrow> True | Some sl \<Rightarrow> n \<le> sl_addr sl)"

definition same_below :: "nat \<Rightarrow> ('m, 'x) heap \<Rightarrow> ('m, 'x) heap \<Rightarrow> bool" where
  "same_below n h h' \<longleftrightarrow>
     hp_lim h \<le> hp_lim h' \<and> (\<forall>a < n. hp_times h' a = hp_times h a \<and> hp_conds h' a = hp_conds h a)"

text \<open>A step that may only write above \<open>n\<close> and hands on a status that can be written there.\<close>

definition safe_step :: "nat \<Rightarrow> ('m, 'x) heap \<Rightarrow> pstatus \<Rightarrow> ('m, 'x) heap \<Rightarrow> bool" where
  "safe_step n h s' h' \<longleftrightarrow> same_below n h h' \<and> valid_status h' s' \<and> fresh_from n s'"

lemma same_below_trans: "same_below n h h1 \<Longrightarrow> same_below n h1 h2 \<Longrightarrow> same_below n h h2"
  by (auto simp: same_below_def)

lemma safe_step_trans: "same_below n h h1 \<Longrightarrow> safe_step n h1 s h2 \<Longrightarrow> safe_step n h s h2"
  by (auto simp: safe_step_def intro: same_below_trans)

lemma status_of_frame:
  assumes "valid_status h s" and "same_below (hp_lim h) h h'"
  shows "status_of h' s = status_of h s"
  using assms
  by (auto simp: status_of_def valid_status_def same_below_def slice_conds_def split: option.splits)

lemma status_copy:
  assumes "valid_status h s" and "status_DeepCopyInto s h = (out, h')"
  shows "status_of h' out = status_of h s \<and> safe_step (hp_lim h) h out h'"
  using assms
  by (auto simp: status_DeepCopyInto_def alloc_time_def alloc_conds_def status_of_def slice_conds_def
      safe_step_def same_below_def valid_status_def fresh_from_def Let_def split: option.splits)

text \<open>A copied object has the same spec and, at the end, the same status; nothing it is written through is shared.\<close>

lemma on_meta_frame: "on_meta f h = (a, h') \<Longrightarrow>
  hp_times h' = hp_times h \<and> hp_conds h' = hp_conds h \<and> hp_nodes h' = hp_nodes h \<and> hp_lim h' = hp_lim h"
  by (auto simp: on_meta_def split: prod.splits)

lemma status_of_cong: "hp_times h' = hp_times h \<Longrightarrow> hp_conds h' = hp_conds h \<Longrightarrow> status_of h' s = status_of h s"
  by (simp add: status_of_def slice_conds_def split: option.split)

lemma node_copy:
  assumes "valid_status h (pn_Status n)" and "node_DeepCopyInto metaCopy n h = (out, h')"
  shows "pn_TypeMeta out = pn_TypeMeta n \<and> pn_Spec out = pn_Spec n \<and>
    status_of h' (pn_Status out) = status_of h (pn_Status n) \<and> safe_step (hp_lim h) h (pn_Status out) h'"
proof -
  obtain m h1 s where h1: "on_meta (metaCopy (pn_ObjectMeta n)) h = (m, h1)"
    and copy: "status_DeepCopyInto (pn_Status n) h1 = (s, h')"
    and out: "out = n\<lparr>pn_ObjectMeta := m, pn_Spec := pn_Spec n, pn_Status := s\<rparr>"
    using assms(2) by (auto simp: node_DeepCopyInto_def split: prod.splits)
  note f = on_meta_frame [OF h1]
  have "valid_status h1 (pn_Status n)" using assms(1) f by (simp add: valid_status_def split: option.splits)
  from status_copy [OF this copy] show ?thesis
    using f status_of_cong [of h1 h] by (simp add: out safe_step_def same_below_def)
qed

lemma valid_status_frame: "valid_status h s \<Longrightarrow> same_below (hp_lim h) h h' \<Longrightarrow> valid_status h' s"
  by (auto simp: valid_status_def same_below_def split: option.splits)

lemma same_below_mono: "same_below n h h' \<Longrightarrow> m \<le> n \<Longrightarrow> same_below m h h'"
  by (auto simp: same_below_def)

lemma items_copy:
  assumes "\<forall>n \<in> set ns. valid_status h (pn_Status n)" and "items_DeepCopyInto metaCopy ns h = (ms, h')"
  shows "map pn_Spec ms = map pn_Spec ns \<and>
    map (status_of h' \<circ> pn_Status) ms = map (status_of h \<circ> pn_Status) ns \<and> same_below (hp_lim h) h h'"
  using assms
proof (induction ns arbitrary: h ms)
  case Nil
  then show ?case by (simp add: same_below_def)
next
  case (Cons n ns)
  obtain m h1 ms' where m: "node_DeepCopyInto metaCopy n h = (m, h1)"
    and rest: "items_DeepCopyInto metaCopy ns h1 = (ms', h')" and ms: "ms = m # ms'"
    using Cons.prems(2) by (auto split: prod.splits)
  from node_copy [OF _ m] Cons.prems(1) have c: "pn_Spec m = pn_Spec n"
    "status_of h1 (pn_Status m) = status_of h (pn_Status n)" "same_below (hp_lim h) h h1" "valid_status h1 (pn_Status m)"
    by (auto simp: safe_step_def)
  have old: "valid_status h1 (pn_Status x) \<and> status_of h1 (pn_Status x) = status_of h (pn_Status x)" if "x \<in> set ns" for x
    using that Cons.prems(1) c(3) valid_status_frame status_of_frame by (metis list.set_intros(2))
  then have "map pn_Spec ms' = map pn_Spec ns" "map (status_of h' \<circ> pn_Status) ms' = map (status_of h1 \<circ> pn_Status) ns"
    "same_below (hp_lim h1) h1 h'"
    using Cons.IH [OF _ rest] by (auto simp: comp_def)
  moreover from this(3) have "status_of h' (pn_Status m) = status_of h1 (pn_Status m)"
    by (rule status_of_frame [OF c(4)])
  moreover have "same_below (hp_lim h) h h'"
    using c(3) \<open>same_below (hp_lim h1) h1 h'\<close> by (auto simp: same_below_def)
  moreover have "map (status_of h1 \<circ> pn_Status) ns = map (status_of h \<circ> pn_Status) ns" using old by simp
  ultimately show ?case using c by (simp add: ms comp_def)
qed

lemma first_index_None: "first_index P xs = None \<longleftrightarrow> (\<forall>x \<in> set xs. \<not> P x)"
  by (induction xs) auto

lemma first_index_less: "first_index P xs = Some i \<Longrightarrow> i < length xs"
  by (induction xs arbitrary: i) (auto split: if_splits)

lemma put_condition_index:
  "put_condition cond xs =
   (case first_index (\<lambda>x. cond_Type x = cond_Type cond) xs of
      None \<Rightarrow> xs @ [cond]
    | Some i \<Rightarrow> xs[i := (if cond_Status (xs ! i) = cond_Status cond
                        then cond\<lparr>cond_LastTransitionTime := cond_LastTransitionTime (xs ! i)\<rparr> else cond)])"
  by (induction xs) (auto split: option.splits)

lemma append_cond_spec:
  assumes "valid_status h s" and "fresh_from n s" and "n \<le> hp_lim h"
    and "append_cond grow (ps_Conditions s) c h = (sl, h')"
  shows "slice_conds h' sl = slice_conds h (ps_Conditions s) @ [c] \<and> hp_times h' = hp_times h \<and>
    safe_step n h (s\<lparr>ps_Conditions := sl\<rparr>) h'"
  using assms
  by (auto simp: append_cond_def alloc_conds_def slice_conds_def safe_step_def same_below_def valid_status_def
      fresh_from_def take_Suc_conv_app_nth split: option.splits if_splits)

lemma heap_setCondition_spec:
  assumes "valid_status h s" and "fresh_from n s" and "n \<le> hp_lim h"
    and run: "heap_setCondition grow ty ok gen now reason msg s h = (s', h')"
  shows "status_of h' s' = setCondition ty ok gen now reason msg (status_of h s) \<and> safe_step n h s' h'"
proof -
  define cond where "cond = \<lparr>cond_Type = ty, cond_Status = (if ok then ''True'' else ''False''), cond_ObservedGeneration = gen,
    cond_LastTransitionTime = now, cond_Reason = reason, cond_Message = msg\<rparr>"
  let ?xs = "slice_conds h (ps_Conditions s)"
  have goal: "setCondition ty ok gen now reason msg (status_of h s) =
      (status_of h s)\<lparr>st_Conditions := put_condition cond ?xs\<rparr>"
    by (simp add: setCondition_def cond_def status_of_def)
  note put = put_condition_index [of cond ?xs]
  have ty: "cond_Type cond = ty" by (simp add: cond_def)
  show ?thesis
  proof (cases "first_index (\<lambda>x. cond_Type x = ty) ?xs")
    case None
    then obtain sl where app: "append_cond grow (ps_Conditions s) cond h = (sl, h')" and s': "s' = s\<lparr>ps_Conditions := sl\<rparr>"
      using run by (auto simp: heap_setCondition_def Let_def cond_def split: prod.splits)
    from append_cond_spec [OF assms(1-3) app] show ?thesis
      unfolding goal put ty None by (auto simp: s' status_of_def)
  next
    case (Some i)
    then have i: "i < length ?xs" by (rule first_index_less)
    then obtain sl where sl: "ps_Conditions s = Some sl" by (cases "ps_Conditions s") (auto simp: slice_conds_def)
    define c where "c = (if cond_Status (?xs ! i) = cond_Status cond
      then cond\<lparr>cond_LastTransitionTime := cond_LastTransitionTime (?xs ! i)\<rparr> else cond)"
    have "heap_setCondition grow ty ok gen now reason msg s h =
        (s, h\<lparr>hp_conds := (hp_conds h)(sl_addr sl := (hp_conds h (sl_addr sl))[i := c])\<rparr>)"
      using Some by (simp add: heap_setCondition_def Let_def sl c_def cond_def)
    with run have "s' = s" "h' = h\<lparr>hp_conds := (hp_conds h)(sl_addr sl := (hp_conds h (sl_addr sl))[i := c])\<rparr>"
      by simp_all
    moreover from this have "slice_conds h' (Some sl) = ?xs[i := c]"
      by (simp add: slice_conds_def sl take_update_swap)
    moreover have "put_condition cond ?xs = ?xs[i := c]"
      unfolding put ty Some c_def by simp
    ultimately show ?thesis
      unfolding goal using assms(1-3)
      by (auto simp: status_of_def sl safe_step_def same_below_def valid_status_def fresh_from_def split: option.splits)
  qed
qed

section \<open>The heap version computes the value version\<close>

lemma set_transition_time:
  assumes "valid_status h w" and "fresh_from n w" and "n \<le> hp_lim h" and "alloc_time now h = (a, h')"
  shows "status_of h' (w\<lparr>ps_LastTransitionTime := Some a\<rparr>) = (status_of h w)\<lparr>st_LastTransitionTime := Some now\<rparr> \<and>
    safe_step n h (w\<lparr>ps_LastTransitionTime := Some a\<rparr>) h'"
  using assms
  by (auto simp: alloc_time_def status_of_def slice_conds_def safe_step_def same_below_def valid_status_def
      fresh_from_def split: option.splits)

text \<open>The fields that are no pointers.\<close>

definition set_plain :: "en_phase \<Rightarrow> en_power \<Rightarrow> bool \<Rightarrow> bool \<Rightarrow> int \<Rightarrow> pstatus \<Rightarrow> pstatus" where
  "set_plain phase pw ready gpu gen w =
     w\<lparr>ps_Phase := phase, ps_ObservedPower := pw, ps_NodeReady := ready, ps_GPURegistered := gpu,
       ps_ObservedGeneration := gen\<rparr>"

lemma set_plain_spec:
  "status_of h (set_plain phase pw ready gpu gen w) =
     (status_of h w)\<lparr>st_Phase := phase, st_ObservedPower := pw, st_NodeReady := ready, st_GPURegistered := gpu,
       st_ObservedGeneration := gen\<rparr>"
  "safe_step n h0 (set_plain phase pw ready gpu gen w) h = safe_step n h0 w h"
  by (simp_all add: set_plain_def status_of_def safe_step_def valid_status_def fresh_from_def)

lemma safe_stepD: "safe_step n h s h' \<Longrightarrow> valid_status h' s \<and> fresh_from n s \<and> same_below n h h' \<and> hp_lim h \<le> hp_lim h'"
  by (simp add: safe_step_def same_below_def)

lemma heap_want_status_spec:
  assumes valid: "valid_status h s"
    and run: "heap_want_status grow (en_Generation en) (sp_DesiredPower (en_Spec en)) phase pw ready gpu opErr now s h = (want, h')"
    and en: "en_Status en = status_of h s"
  shows "status_of h' want = want_status en phase pw ready gpu opErr now \<and> safe_step (hp_lim h) h want h'"
proof -
  let ?n = "hp_lim h" and ?gen = "en_Generation en"
  obtain w1 h1 where copy: "status_DeepCopyInto s h = (w1, h1)" by (rule prod.exhaust)
  note c = status_copy [OF valid copy]
  obtain w2 h2 where trans: "(if ps_Phase w1 \<noteq> phase
      then (case alloc_time now h1 of (a, h2) \<Rightarrow> (w1\<lparr>ps_LastTransitionTime := Some a\<rparr>, h2)) else (w1, h1)) = (w2, h2)"
    by (rule prod.exhaust)
  have w2: "status_of h2 w2 = (if st_Phase (status_of h s) \<noteq> phase
      then (status_of h s)\<lparr>st_LastTransitionTime := Some now\<rparr> else status_of h s) \<and> safe_step ?n h w2 h2"
  proof (cases "ps_Phase w1 = phase")
    case True
    with trans c show ?thesis by (auto simp: status_of_def)
  next
    case False
    then obtain a where a: "alloc_time now h1 = (a, h2)" "w2 = w1\<lparr>ps_LastTransitionTime := Some a\<rparr>"
      using trans by (auto split: prod.splits)
    have "st_Phase (status_of h s) \<noteq> phase" using c False by (metis status_of_def en_status.select_convs(1))
    with set_transition_time [OF _ _ _ a(1)] c safe_stepD a(2) safe_step_trans show ?thesis by metis
  qed
  define w3 where "w3 = set_plain phase pw ready gpu ?gen w2"
  have w3: "safe_step ?n h w3 h2" using w2 by (simp add: w3_def set_plain_spec)
  obtain w4 h3 where ready: "heap_setCondition grow ConditionReady ready ?gen now
      (readyReason phase opErr) (readyMessage phase opErr) w3 h2 = (w4, h3)" by (rule prod.exhaust)
  have w4: "status_of h3 w4 = setCondition ConditionReady ready ?gen now (readyReason phase opErr)
      (readyMessage phase opErr) (status_of h2 w3)" "safe_step ?n h w4 h3"
    using heap_setCondition_spec [OF _ _ _ ready, of ?n] safe_stepD [OF w3] safe_step_trans by blast+
  have "heap_setCondition grow ConditionConverged (opErr = None \<and> (phase = PhaseReady \<or> phase = PhaseOff)) ?gen now
      (convergedReason phase opErr) (convergedMessage (sp_DesiredPower (en_Spec en)) opErr) w4 h3 = (want, h')"
    using run ready unfolding w3_def set_plain_def by (simp add: heap_want_status_def copy trans)
  from heap_setCondition_spec [OF _ _ _ this, of ?n] safe_stepD [OF w4(2)] safe_step_trans
  have "status_of h' want = setCondition ConditionConverged
      (opErr = None \<and> (phase = PhaseReady \<or> phase = PhaseOff)) ?gen now (convergedReason phase opErr)
      (convergedMessage (sp_DesiredPower (en_Spec en)) opErr) (status_of h3 w4)" "safe_step ?n h want h'"
    by blast+
  with w2 w4(1) show ?thesis by (simp add: want_status_def en Let_def w3_def set_plain_spec)
qed

text \<open>
  C27 (refinement): writing the status works on a copy. The code takes a deep copy of the status, writes
  into it, conditions in place, and compares it with the original. Run on a heap, it yields the
  status that the value model computes, sends it exactly when that differs from the one the
  object had, and whatever else points to the old status still sees it unchanged. This holds for
  every way the run-time lays out slices.
\<close>

theorem heap_status_refines_value:
  assumes "valid_status h s" and "en_Status en = status_of h s"
    and "heap_writeStatus grow (en_Generation en) (sp_DesiredPower (en_Spec en)) phase pw ready gpu opErr now s h =
      ((s', written), h')"
  shows "status_of h' s' = want_status en phase pw ready gpu opErr now \<and>
    written = (status_of h s \<noteq> want_status en phase pw ready gpu opErr now) \<and>
    status_of h' s = status_of h s \<and> valid_status h' s'"
proof -
  obtain want h1 where want: "heap_want_status grow (en_Generation en) (sp_DesiredPower (en_Spec en)) phase pw ready gpu
      opErr now s h = (want, h1)" by (rule prod.exhaust)
  from heap_want_status_spec [OF assms(1) want assms(2)]
  have w: "status_of h1 want = want_status en phase pw ready gpu opErr now" "safe_step (hp_lim h) h want h1" by auto
  from w(2) have frame: "status_of h1 s = status_of h s"
    by (intro status_of_frame [OF assms(1)]) (simp add: safe_step_def)
  moreover have "valid_status h1 s"
    using assms(1) w(2) by (auto simp: valid_status_def safe_step_def same_below_def split: option.splits)
  ultimately show ?thesis
    using assms(3) w by (auto simp: heap_writeStatus_def want safe_step_def split: if_splits)
qed

definition lab_heap :: "(unit, unit) heap" where
  "lab_heap =
     \<lparr>hp_times = (\<lambda>_. 5),
      hp_conds = (\<lambda>_. [\<lparr>cond_Type = ''Ready'', cond_Status = ''True'', cond_ObservedGeneration = 1,
                      cond_LastTransitionTime = 5, cond_Reason = ''Ready'', cond_Message = ''phase=Ready''\<rparr>]),
      hp_nodes = (\<lambda>_. []), hp_meta = (), hp_lim = 2\<rparr>"

definition lab_pstatus :: pstatus where
  "lab_pstatus =
     \<lparr>ps_Phase = ''Ready'', ps_ObservedPower = ''On'', ps_NodeReady = True, ps_GPURegistered = False,
      ps_ObservedGeneration = 1, ps_LastTransitionTime = Some 0, ps_Conditions = Some \<lparr>sl_addr = 1, sl_len = 1\<rparr>\<rparr>"

definition lab_object :: elastic_node where
  "lab_object =
     \<lparr>en_Name = ''node-1'', en_Namespace = ''nightwatch'', en_Generation = 2,
      en_Spec = \<lparr>sp_DesiredPower = ''Off'', sp_DesiredReason = [], sp_ClusterRef = []\<rparr>,
      en_Status = status_of lab_heap lab_pstatus\<rparr>"

theorem heap_status_refines_value_witness:
  "case heap_writeStatus (\<lambda>_. []) 2 ''Off'' ''Off'' ''Off'' False False None 9 lab_pstatus lab_heap of
     ((s', written), h') \<Rightarrow>
       status_of h' s' = want_status lab_object ''Off'' ''Off'' False False None 9 \<and>
       status_of h' lab_pstatus = status_of lab_heap lab_pstatus"
proof -
  have "en_Generation lab_object = 2" "sp_DesiredPower (en_Spec lab_object) = ''Off''"
    by (simp_all add: lab_object_def)
  moreover have "valid_status lab_heap lab_pstatus"
    by (simp add: valid_status_def lab_heap_def lab_pstatus_def)
  moreover have "en_Status lab_object = status_of lab_heap lab_pstatus" by (simp add: lab_object_def)
  moreover obtain s' written h' where
    "heap_writeStatus (\<lambda>_. []) 2 ''Off'' ''Off'' ''Off'' False False None 9 lab_pstatus lab_heap = ((s', written), h')"
    by (metis surj_pair)
  ultimately show ?thesis
    using heap_status_refines_value [of lab_heap lab_pstatus lab_object "\<lambda>_. []" "''Off''" "''Off''" False False None 9
        s' written h'] by simp
qed

end
