(* ===== verification/Spec2Isabelle.thy ===== *)
theory Spec2Isabelle
  imports Lifecycle_Safety Lifecycle_Time Operate_Props Api_Props Api_Wire Controller_Props Drivers Sim_Amt_Props
    Store_Props Cli_Props Operator Serve Sim_TrueNAS_Props Sim_Main Deep_Copy
begin

text \<open>
  Verification of Nightwatch, which takes the machines of a Kubernetes cluster out of service and
  back: it cordons and drains a node, waits until its iSCSI sessions are gone, shuts the operating
  system down and confirms at the BMC that the power is off; on the way back it powers the machine on,
  waits until it is ready and uncordons it. Three front ends start these operations: a command line, an
  HTTP API and a Kubernetes operator.

  \<^bold>\<open>Parts and theories.\<close> Paths are below \<^verbatim>\<open>src/\<close>.

  \<^item> \<open>NW_Prelude\<close>, \<open>Go_Strings\<close>, \<open>Go_Runtime\<close>: shared facts; strings, formatting and durations as Go has
    them; error values with wrapping, contexts, \<open>select\<close>, calls into the outside world, and the polling
    loop \<open>poll_loop\<close> with its rules. \<open>Go_Time\<close>: the civil calendar and RFC 3339.
  \<^item> \<open>Json\<close>, \<open>Json_Print\<close>, \<open>Json_Indent\<close>, \<open>Json_Tree\<close>: \<^verbatim>\<open>encoding/json\<close>, reading, writing compact and indented
    text, and the trees that structs are written to and read from; \<open>Xml\<close>, \<open>Xml_Stream\<close>: \<^verbatim>\<open>encoding/xml\<close>;
    \<open>Pem\<close>: \<^verbatim>\<open>encoding/base64\<close> and \<^verbatim>\<open>encoding/pem\<close>.
  \<^item> \<open>Operation\<close>, \<open>Operation_Json\<close>: \<^verbatim>\<open>internal/operation\<close> and the JSON form of its records.
  \<^item> \<open>Bmc\<close>, \<open>Redfish\<close>, \<open>Amt\<close>, \<open>Drivers\<close>: \<^verbatim>\<open>internal/bmc\<close> and its two drivers, on \<open>Http_Client\<close>
    (\<^verbatim>\<open>net/http\<close>).
  \<^item> \<open>K8s\<close>, \<open>Talos\<close>, \<open>TrueNAS\<close>, \<open>Iscsi\<close>, \<open>Inventory\<close>: the packages of these names under \<^verbatim>\<open>internal\<close>;
    \<open>Rpc_Wire\<close>: the text of the TrueNAS client's requests and the connection it relies on.
  \<^item> \<open>Lifecycle\<close>: \<^verbatim>\<open>internal/lifecycle\<close>, the two state machines \<open>DrainShutdown\<close> and \<open>PowerOn\<close> with
    \<open>waitPowerOff\<close> and \<open>waitUntil\<close>. \<open>Lifecycle_Spec\<close> states what they promise as relations on logs of calls,
    \<open>drain_spec\<close> and \<open>wake_spec\<close>, and proves the refinement; \<open>Lifecycle_Safety\<close> draws the consequences,
    \<open>Lifecycle_Time\<close> bounds their duration, \<open>Lifecycle_Timeline\<close> orders their steps in time; \<open>Lab\<close> is a concrete machine for the witnesses.
  \<^item> \<open>Operate\<close>, \<open>Operate_Props\<close>: \<^verbatim>\<open>internal/operate\<close>, lookup, assembly of the backends, both operations by
    inventory name.
  \<^item> \<open>Api\<close>, \<open>Api_Props\<close>: \<^verbatim>\<open>internal/api\<close>, the lock per node, authentication, routes and handlers; \<open>Api_Wire\<close>:
    the bytes of the answers; \<open>Serve\<close>: the life of the server, \<^verbatim>\<open>internal/api/serve.go\<close>.
  \<^item> \<open>Controller\<close>, \<open>Controller_Props\<close>: \<^verbatim>\<open>internal/controller\<close> and \<^verbatim>\<open>api/v1alpha1\<close>; \<open>Deep_Copy\<close>: the generated
    copies and the status write on a heap with pointers and slices; \<open>Scheme\<close>: the registration of the
    types; \<open>Operator\<close>: \<^verbatim>\<open>cmd/nightwatch-operator\<close>.
  \<^item> \<open>Flags\<close>, \<open>Cli\<close>, \<open>Cli_Props\<close>: package \<^verbatim>\<open>flag\<close> and \<^verbatim>\<open>cmd/nightwatch\<close>.
  \<^item> \<open>Disk\<close>, \<open>Store\<close>, \<open>Store_Facts\<close>, \<open>Store_Props\<close>: system calls on files, and \<^verbatim>\<open>internal/store\<close>.
  \<^item> \<open>Sim_Amt\<close>, \<open>Sim_Amt_Props\<close>: \<^verbatim>\<open>internal/sim/amt.go\<close> and the AMT driver run against it;
    \<open>Sim_TrueNAS\<close>, \<open>Sim_TrueNAS_Props\<close>: \<^verbatim>\<open>internal/sim/truenas.go\<close> and the TrueNAS client and the storage gate
    run against it; \<open>Sim_Certs\<close>: its key material; \<open>Sim_Main\<close>: the servers and \<^verbatim>\<open>cmd/nightwatch-sim\<close>.

  \<^bold>\<open>How code is represented.\<close> A struct is a record, an interface a record of its calls. A call into a
  library or a service is a \<open>prim\<close>: a function of the context, the instant and the state of the outside
  world that yields the reply, the time it took and the new state. Nothing is assumed of it, so the
  theorems hold for every behaviour of BMC, Kubernetes, Talos and TrueNAS, failing and slow ones
  included. \<open>invoke\<close> makes such a call and appends an event to the log of the \<open>world\<close>; safety is stated
  over these logs. The file store is written in the state monad over a \<open>host\<close> whose next faults are part
  of the state, so its theorems hold for every failure of the disk. Errors are values of \<open>err\<close>, fallible
  functions return sums or options, a panic is a branch of its own. Times are integers of nanoseconds.

  \<^bold>\<open>Interfaces.\<close> Six locales state what one part relies on in another, each interpreted on the
  definitions of the model: \<open>power_reader\<close>, that a BMC reading is on or off exactly when it succeeded
  (interpreted by both drivers); \<open>try_lock\<close>, the contract of the lock of the API; \<open>document_store\<close>, that a write
  either replaces what is read of its document or nothing (interpreted by \<open>writeJSON\<close>, read through the
  bytes); \<open>json_layout\<close>, where a printer of JSON may put white space (interpreted by the compact and the
  indented form, in it a text is proved to be read back); \<open>rpc_peer\<close>, that a connection
  answers calls (interpreted by the simulator, the operations of the TrueNAS client are proved in it);
  \<open>live_session\<close>, that a target keeps showing a session, in which the storage gate is proved to stay closed
  (interpreted by the client connected to the simulator).
  The rules of the waits are lemmas on \<open>poll_loop\<close> that all of them share.

  \<^bold>\<open>What is shown.\<close>

  \<^item> Lifecycle: both state machines refine their relations. A node is never shut down before it was
    cordoned, drained and its storage gate passed; a hard-off comes last and only when asked for; a drain
    that reports success has read power-off; a node is uncordoned only after it was seen ready; the steps
    on record are the phases in order; every wait and every drain ends within a bound.
  \<^item> Storage gate: it reports clear exactly when the last session table lacks the initiator; the table is
    that of the target; replies are matched by id; a missing identity refuses the operation. Against the
    simulated target the client logs in exactly with an accepted key and lists its sessions as they are,
    a drain takes no node down that is logged in there, and the gate opens once it has logged out.
  \<^item> Front ends: no token, no server; a wrong token calls nothing; at most one operation per node under
    every interleaving of requests; locks are released; a drain fits the write time-out. The answer to
    an operation has the documented form: a client that reads its bytes gets every step, in the order
    of time. The command line and the API run the same operation. Usage errors call nothing. The
    process of a server that is told to stop is gone thirty seconds later.
  \<^item> Operator: the intent alone decides the direction, the status is never an input, an unchanged status is
    not written again, a changed intent aborts within one poll, only eligible nodes are touched, and the
    process forces no node off from its start to its exit. The status is written into a copy that shares no memory with the object.
  \<^item> BMC: every node of a loaded inventory has a driver; when a reading is off; when a request counts as
    accepted; the AMT driver and the simulator understand each other over the wire format.
  \<^item> Store: the documents are a map that only successful writes change; a lease excludes others; two
    interleaved acquisitions are both granted, which is a defect; operations are read back from the
    bytes of their files as they were, their times to the nanosecond.
  \<^item> Simulators: the key material of the simulated target survives its PEM text, so that the process
    serves it; the process ends at a signal.

  \<^bold>\<open>Bounds and fuel.\<close> \<open>poll_loop\<close> terminates because every round moves the clock at least one poll interval
  towards the deadline. The watcher of an intent looks at as many ticks as the history needs
  (\<open>tick_bound\<close>): behind its last entry every reading is the same. The JSON parser is given \<open>json_fuel\<close> of its text, and \<open>parse_json_fuel\<close> shows
  that more does not change the result. The wait for a JSON-RPC reply reads at most the frames that are
  pending (\<open>ws_pending\<close>). The XML reader recurses on the rest of its text.

  \<^bold>\<open>Not modelled.\<close> The servers of \<^verbatim>\<open>net/http\<close> and \<^verbatim>\<open>httptest\<close>, the WebSocket library, cryptography, the
  manager of the operator with its leader election, the schemes of apimachinery, client-go and the
  Talos machinery are parameters, and what is assumed of them is written into the statements. The
  manager hands its requests to the reconciler one after the other; reconciles of different nodes at a
  time are not interleaved. TLS handshakes, connection pools, logging and usage texts are left out.
  Strings are bytes: letters outside ASCII are not folded by \<open>ToLower\<close> and \<open>EqualFold\<close>, and \<open>Marshal\<close> does not
  replace invalid UTF-8, so statements on the wire are made for ASCII.
\<close>

end
